(* ===== verification/R503_Prelude.thy ===== *)
theory R503_Prelude
  imports Main "HOL-Library.Word" "HOL-Library.Sublist"
begin

text \<open>
  The vocabulary the other theories share: results of Rust functions (a value, an error of the
  function's error type, or a panic), their sequencing, and the machine integer types.

  A Rust function of type \<open>Result<T, E>\<close> is modelled by a HOL function into
  \<open>('t, 'e) result\<close>. The third constructor is not in the source: \<open>Panic\<close> is what a slice out of
  range, an unwrap of nothing or an arithmetic overflow makes of the call, so "the parser never
  panics" is a statement about values.

  The collections: \<open>result_simps\<close> holds the characterisations of the combinators, used as rewrite
  rules from left to right on facts such as \<open>bind_r m f = Ok y\<close>.
\<close>

named_theorems result_simps \<open>when a sequenced computation succeeds, fails or panics\<close>

type_synonym u8 = "8 word"
type_synonym u16 = "16 word"
type_synonym u32 = "32 word"
type_synonym u64 = "64 word"

section \<open>Results\<close>

datatype ('a, 'e) result = Ok 'a | Err 'e | Panic

fun bind_r :: "('a, 'e) result \<Rightarrow> ('a \<Rightarrow> ('b, 'e) result) \<Rightarrow> ('b, 'e) result" where
  "bind_r (Ok x) f = f x"
| "bind_r (Err e) f = Err e"
| "bind_r Panic f = Panic"

fun map_r :: "('a \<Rightarrow> 'b) \<Rightarrow> ('a, 'e) result \<Rightarrow> ('b, 'e) result" where
  "map_r f (Ok x) = Ok (f x)"
| "map_r f (Err e) = Err e"
| "map_r f Panic = Panic"

fun map_err :: "('e \<Rightarrow> 'f) \<Rightarrow> ('a, 'e) result \<Rightarrow> ('a, 'f) result" where
  "map_err f (Ok x) = Ok x"
| "map_err f (Err e) = Err (f e)"
| "map_err f Panic = Panic"

fun ok_or :: "'a option \<Rightarrow> 'e \<Rightarrow> ('a, 'e) result" where
  "ok_or (Some x) e = Ok x"
| "ok_or None e = Err e"

fun ok_of :: "('a, 'e) result \<Rightarrow> 'a option" where
  "ok_of (Ok x) = Some x"
| "ok_of (Err e) = None"
| "ok_of Panic = None"

fun is_ok :: "('a, 'e) result \<Rightarrow> bool" where
  "is_ok (Ok x) \<longleftrightarrow> True"
| "is_ok (Err e) \<longleftrightarrow> False"
| "is_ok Panic \<longleftrightarrow> False"

lemma bind_r_eq_Ok [result_simps]:
  "bind_r m f = Ok y \<longleftrightarrow> (\<exists>x. m = Ok x \<and> f x = Ok y)"
  by (cases m) auto

lemma bind_r_eq_Panic [result_simps]:
  "bind_r m f = Panic \<longleftrightarrow> m = Panic \<or> (\<exists>x. m = Ok x \<and> f x = Panic)"
  by (cases m) auto

lemma bind_r_eq_Err [result_simps]:
  "bind_r m f = Err e \<longleftrightarrow> m = Err e \<or> (\<exists>x. m = Ok x \<and> f x = Err e)"
  by (cases m) auto

lemma map_r_eq_Ok [result_simps]: "map_r f m = Ok y \<longleftrightarrow> (\<exists>x. m = Ok x \<and> y = f x)"
  by (cases m) auto

lemma map_r_eq_Panic [result_simps]: "map_r f m = Panic \<longleftrightarrow> m = Panic"
  by (cases m) auto

lemma map_r_eq_Err [result_simps]: "map_r f m = Err e \<longleftrightarrow> m = Err e"
  by (cases m) auto

lemma map_err_eq_Ok [result_simps]: "map_err f m = Ok y \<longleftrightarrow> m = Ok y"
  by (cases m) auto

lemma map_err_eq_Panic [result_simps]: "map_err f m = Panic \<longleftrightarrow> m = Panic"
  by (cases m) auto

lemma ok_or_eq_Ok [result_simps]: "ok_or m e = Ok y \<longleftrightarrow> m = Some y"
  by (cases m) auto

lemma ok_or_not_Panic [simp]: "ok_or m e \<noteq> Panic"
  by (cases m) auto

lemma ok_or_eq_Err [result_simps]: "ok_or m e = Err e' \<longleftrightarrow> m = None \<and> e' = e"
  by (cases m) auto

lemma map_r_bind_r: "map_r f (bind_r m g) = bind_r m (\<lambda>x. map_r f (g x))"
  by (cases m) auto

lemma bind_r_cong: "(\<And>x. m = Ok x \<Longrightarrow> f x = g x) \<Longrightarrow> bind_r m f = bind_r m g"
  by (cases m) auto

lemma is_ok_iff: "is_ok m \<longleftrightarrow> (\<exists>x. m = Ok x)"
  by (cases m) auto

section \<open>Lists and words\<close>

lemma take_length_append [simp]: "take (length xs) (xs @ ys) = xs"
  by simp

lemma drop_length_append [simp]: "drop (length xs) (xs @ ys) = ys"
  by simp

lemma list_of_length_Suc: "length xs = Suc n \<Longrightarrow> \<exists>y ys. xs = y # ys \<and> length ys = n"
  by (cases xs) auto

lemma unat_bound: "unat (x :: 'w::len word) < 2 ^ LENGTH('w)"
  by (rule unsigned_less)

lemma unat_lt_2p64: "unat (x :: u64) < 18446744073709551616"
  using unat_bound [of x] by simp

lemma unat_lt_2p32: "unat (x :: u32) < 4294967296"
  using unat_bound [of x] by simp

lemma unat_lt_2p8: "unat (x :: u8) < 256"
  using unat_bound [of x] by simp

lemma unat_of_nat_u64: "n < 18446744073709551616 \<Longrightarrow> unat (of_nat n :: u64) = n"
  by (simp add: unat_of_nat take_bit_nat_eq_self)

lemma unat_of_nat_u32: "n < 4294967296 \<Longrightarrow> unat (of_nat n :: u32) = n"
  by (simp add: unat_of_nat take_bit_nat_eq_self)

lemma unat_of_nat_u8: "n < 256 \<Longrightarrow> unat (of_nat n :: u8) = n"
  by (simp add: unat_of_nat take_bit_nat_eq_self)

end
