(* ===== verification/Rust_Std.thy ===== *)
theory Rust_Std
  imports R503_Prelude
begin

text \<open>
  What the daemon uses of Rust's \<open>str\<close>, as functions on byte strings. An Isabelle \<open>char\<close> is one
  byte, so a \<open>&str\<close> or \<open>String\<close> is the list of its UTF-8 bytes and \<open>length\<close> is \<open>str::len\<close>.
  Covered: byte values, decimal and hexadecimal formatting, \<open>FromStr\<close> of the unsigned integers,
  \<open>find\<close>, \<open>strip_prefix\<close>, \<open>split_once\<close>, slicing with its panic off a character boundary, UTF-8
  well-formedness, \<open>String::from_utf8_lossy\<close>, and the white space functions.
\<close>

section \<open>Bytes\<close>

type_synonym str = string

definition ord :: "char \<Rightarrow> nat" where
  "ord c = of_char c"

definition as_bytes :: "str \<Rightarrow> u8 list" where
  "as_bytes s = map of_char s"

definition of_bytes :: "u8 list \<Rightarrow> str" where
  "of_bytes bs = map (\<lambda>b. char_of (unat b)) bs"

definition is_ascii :: "char \<Rightarrow> bool" where
  "is_ascii c \<longleftrightarrow> ord c < 128"

definition is_cont :: "nat \<Rightarrow> bool" where
  "is_cont b \<longleftrightarrow> 128 \<le> b \<and> b < 192"

lemma ord_lt_256: "ord c < 256"
  by (simp add: ord_def)

lemma ord_inject: "ord c = ord d \<longleftrightarrow> c = d"
  by (simp add: ord_def)

lemma char_of_ord [simp]: "char_of (ord c) = c"
  by (simp add: ord_def)

lemma ord_char_of: "n < 256 \<Longrightarrow> ord (char_of n) = n"
  by (simp add: ord_def)

lemma length_as_bytes [simp]: "length (as_bytes s) = length s"
  by (simp add: as_bytes_def)

lemma length_of_bytes [simp]: "length (of_bytes s) = length s"
  by (simp add: of_bytes_def)

lemma unat_of_char: "unat (of_char c :: u8) = ord c"
proof -
  have "(of_char c :: u8) = of_nat (of_char c)" by (simp add: of_char_def)
  then show ?thesis
    using ord_lt_256 [of c] by (simp add: ord_def unat_of_nat_u8)
qed

lemma of_bytes_as_bytes [simp]: "of_bytes (as_bytes s) = s"
  by (induction s) (simp_all add: of_bytes_def as_bytes_def unat_of_char)

lemma as_bytes_inject: "as_bytes s = as_bytes t \<longleftrightarrow> s = t"
  by (metis of_bytes_as_bytes)

section \<open>Decimal numbers\<close>

definition digit_char :: "nat \<Rightarrow> char" where
  "digit_char d = char_of (48 + d)"

fun show_nat :: "nat \<Rightarrow> str" where
  "show_nat n = (if n < 10 then [digit_char n]
                 else show_nat (n div 10) @ [digit_char (n mod 10)])"

declare show_nat.simps [simp del]

definition show_u64 :: "u64 \<Rightarrow> str" where
  "show_u64 v = show_nat (unat v)"

definition show_u32 :: "u32 \<Rightarrow> str" where
  "show_u32 v = show_nat (unat v)"

definition is_ascii_digit :: "char \<Rightarrow> bool" where
  "is_ascii_digit c \<longleftrightarrow> 48 \<le> ord c \<and> ord c \<le> 57"

definition digit_val :: "char \<Rightarrow> nat" where
  "digit_val c = ord c - 48"

fun dec_value :: "nat \<Rightarrow> str \<Rightarrow> nat" where
  "dec_value acc [] = acc"
| "dec_value acc (c # cs) = dec_value (10 * acc + digit_val c) cs"

text \<open>
  \<open>FromStr\<close> of an unsigned integer of \<open>w\<close> bits: a leading plus sign is accepted when something
  follows it, leading zeros are accepted, the empty string and an overflow are errors.
\<close>

definition parse_uint :: "nat \<Rightarrow> str \<Rightarrow> nat option" where
  "parse_uint w s =
     (let ds = (case s of c # cs \<Rightarrow> if c = CHR ''+'' \<and> cs \<noteq> [] then cs else s | [] \<Rightarrow> s)
      in if ds \<noteq> [] \<and> list_all is_ascii_digit ds \<and> dec_value 0 ds < 2 ^ w
         then Some (dec_value 0 ds) else None)"

lemma is_ascii_digit_digit_char: "d < 10 \<Longrightarrow> is_ascii_digit (digit_char d)"
  by (simp add: is_ascii_digit_def digit_char_def ord_char_of)

lemma digit_val_digit_char: "d < 10 \<Longrightarrow> digit_val (digit_char d) = d"
  by (simp add: digit_val_def digit_char_def ord_char_of)

lemma digit_char_digit_val: "is_ascii_digit c \<Longrightarrow> digit_char (digit_val c) = c"
  by (simp add: is_ascii_digit_def digit_char_def digit_val_def)

lemma digit_val_lt: "is_ascii_digit c \<Longrightarrow> digit_val c < 10"
  by (auto simp: is_ascii_digit_def digit_val_def)

lemma digit_char_0: "digit_char 0 = CHR ''0''"
  by code_simp

lemma dec_value_append:
  "dec_value acc (s @ [c]) = 10 * dec_value acc s + digit_val c"
  by (induction s arbitrary: acc) simp_all

lemma show_nat_ne_Nil [simp]: "show_nat n \<noteq> []"
  by (subst show_nat.simps) simp

lemma show_nat_digits: "list_all is_ascii_digit (show_nat n)"
proof (induction n rule: show_nat.induct)
  case (1 n)
  then show ?case
    by (subst show_nat.simps) (auto simp: is_ascii_digit_digit_char)
qed

lemma dec_value_show_nat: "dec_value 0 (show_nat n) = n"
proof (induction n rule: show_nat.induct)
  case (1 n)
  then show ?case
    by (subst show_nat.simps) (auto simp: dec_value_append digit_val_digit_char)
qed

lemma hd_show_nat: "n \<noteq> 0 \<Longrightarrow> hd (show_nat n) \<noteq> CHR ''0''"
proof (induction n rule: show_nat.induct)
  case (1 n)
  have d: "digit_char d = CHR ''0'' \<Longrightarrow> d < 10 \<Longrightarrow> d = 0" for d
    using digit_val_digit_char [of d] by (simp add: digit_val_def ord_def)
  show ?case
  proof (cases "n < 10")
    case True
    with 1 d [of n] show ?thesis by (auto simp: show_nat.simps [of n])
  next
    case False
    with 1 show ?thesis by (simp add: show_nat.simps [of n])
  qed
qed

lemma show_nat_0: "show_nat 0 = ''0''"
  by (simp add: show_nat.simps digit_char_0)

lemma dec_value_ge: "acc \<le> dec_value acc s"
proof (induction s arbitrary: acc)
  case (Cons c s)
  have "acc \<le> 10 * acc + digit_val c" by simp
  also have "\<dots> \<le> dec_value (10 * acc + digit_val c) s" by (rule Cons.IH)
  finally show ?case by simp
qed simp

text \<open>A digit string without a leading zero is the canonical form of its value.\<close>

lemma dec_value_pos:
  assumes "list_all is_ascii_digit s" "s \<noteq> []" "hd s \<noteq> CHR ''0''"
  shows "0 < dec_value acc s"
proof -
  obtain c cs where s: "s = c # cs" using assms(2) by (cases s) auto
  have "digit_val c \<noteq> 0"
  proof
    assume "digit_val c = 0"
    then have "c = CHR ''0''"
      using assms(1) digit_char_digit_val [of c] digit_char_0 by (simp add: s)
    with assms(3) show False by (simp add: s)
  qed
  then show ?thesis
    using dec_value_ge [of "10 * acc + digit_val c" cs] by (simp add: s)
qed

lemma show_nat_dec_value:
  assumes "list_all is_ascii_digit s" "s \<noteq> []" "hd s \<noteq> CHR ''0'' \<or> length s = 1"
  shows "show_nat (dec_value 0 s) = s"
  using assms
proof (induction s rule: rev_induct)
  case Nil
  then show ?case by simp
next
  case (snoc c s)
  have c: "is_ascii_digit c" using snoc.prems(1) by simp
  show ?case
  proof (cases "s = []")
    case True
    with c show ?thesis
      by (simp add: show_nat.simps [of "digit_val c"] digit_val_lt digit_char_digit_val)
  next
    case False
    with snoc.prems have h: "hd s \<noteq> CHR ''0''" by (cases s) auto
    have "0 < dec_value 0 s" using snoc.prems(1) False h by (intro dec_value_pos) auto
    then have "\<not> 10 * dec_value 0 s + digit_val c < 10" by simp
    moreover have "(10 * dec_value 0 s + digit_val c) div 10 = dec_value 0 s"
      "(10 * dec_value 0 s + digit_val c) mod 10 = digit_val c"
      using digit_val_lt [OF c] by simp_all
    moreover have "show_nat (dec_value 0 s) = s"
      using snoc.prems(1) False h by (intro snoc.IH) auto
    ultimately show ?thesis
      by (simp add: dec_value_append show_nat.simps [of "10 * dec_value 0 s + digit_val c"]
          digit_char_digit_val [OF c])
  qed
qed

lemma parse_uint_digits:
  assumes "list_all is_ascii_digit s" "s \<noteq> []"
  shows "parse_uint w s = (if dec_value 0 s < 2 ^ w then Some (dec_value 0 s) else None)"
proof -
  obtain c cs where s: "s = c # cs" using assms(2) by (cases s) auto
  have "c \<noteq> CHR ''+''" using assms(1) s by (auto simp: is_ascii_digit_def ord_def)
  then show ?thesis using assms s by (simp add: parse_uint_def)
qed

lemma parse_uint_show_nat: "n < 2 ^ w \<Longrightarrow> parse_uint w (show_nat n) = Some n"
  by (simp add: parse_uint_digits [OF show_nat_digits] dec_value_show_nat)

lemma parse_uint_bound: "parse_uint w s = Some n \<Longrightarrow> n < 2 ^ w"
  by (auto simp: parse_uint_def Let_def split: if_splits)

section \<open>Hexadecimal\<close>

definition hex_digit :: "nat \<Rightarrow> char" where
  "hex_digit d = (if d < 10 then char_of (48 + d) else char_of (87 + d))"

text \<open>The format \<open>{:02x}\<close> of one byte, and of a byte sequence.\<close>

definition hex_byte :: "u8 \<Rightarrow> str" where
  "hex_byte b = [hex_digit (unat b div 16), hex_digit (unat b mod 16)]"

definition hex_bytes :: "u8 list \<Rightarrow> str" where
  "hex_bytes bs = concat (map hex_byte bs)"

lemma ord_hex_digit: "d < 16 \<Longrightarrow> ord (hex_digit d) = (if d < 10 then 48 + d else 87 + d)"
  by (simp add: hex_digit_def ord_char_of)

lemma hex_digit_ascii: "d < 16 \<Longrightarrow> is_ascii (hex_digit d)"
  by (simp add: is_ascii_def ord_hex_digit)

lemma length_hex_bytes [simp]: "length (hex_bytes bs) = 2 * length bs"
  by (induction bs) (simp_all add: hex_bytes_def hex_byte_def)

lemma hex_bytes_ascii: "list_all is_ascii (hex_bytes bs)"
proof (induction bs)
  case (Cons b bs)
  have "unat b div 16 < 16" using unat_lt_2p8 [of b] by simp
  with Cons show ?case by (simp add: hex_bytes_def hex_byte_def hex_digit_ascii)
qed (simp add: hex_bytes_def)

section \<open>Searching and slicing\<close>

fun find_char :: "char \<Rightarrow> str \<Rightarrow> nat option" where
  "find_char x [] = None"
| "find_char x (c # cs) = (if c = x then Some 0 else map_option Suc (find_char x cs))"

definition starts_with :: "str \<Rightarrow> str \<Rightarrow> bool" where
  "starts_with s p \<longleftrightarrow> take (length p) s = p"

definition strip_prefix :: "str \<Rightarrow> str \<Rightarrow> str option" where
  "strip_prefix s p = (if starts_with s p then Some (drop (length p) s) else None)"

fun str_contains :: "str \<Rightarrow> str \<Rightarrow> bool" where
  "str_contains [] p \<longleftrightarrow> p = []"
| "str_contains (c # cs) p \<longleftrightarrow> starts_with (c # cs) p \<or> str_contains cs p"

definition split_once :: "char \<Rightarrow> str \<Rightarrow> (str \<times> str) option" where
  "split_once x s = map_option (\<lambda>i. (take i s, drop (Suc i) s)) (find_char x s)"

definition to_ascii_lowercase :: "str \<Rightarrow> str" where
  "to_ascii_lowercase s =
     map (\<lambda>c. if 65 \<le> ord c \<and> ord c \<le> 90 then char_of (ord c + 32) else c) s"

text \<open>
  \<open>str::is_char_boundary\<close>: the start, the end, and every byte that does not continue a
  character. Slicing anywhere else panics.
\<close>

definition is_char_boundary :: "str \<Rightarrow> nat \<Rightarrow> bool" where
  "is_char_boundary s i \<longleftrightarrow>
     i = 0 \<or> i = length s \<or> (i < length s \<and> \<not> is_cont (ord (s ! i)))"

definition slice_to :: "str \<Rightarrow> nat \<Rightarrow> (str, 'e) result" where
  "slice_to s i = (if is_char_boundary s i then Ok (take i s) else Panic)"

definition slice_from :: "str \<Rightarrow> nat \<Rightarrow> (str, 'e) result" where
  "slice_from s i = (if is_char_boundary s i then Ok (drop i s) else Panic)"

definition split_at :: "str \<Rightarrow> nat \<Rightarrow> (str \<times> str, 'e) result" where
  "split_at s i = (if is_char_boundary s i then Ok (take i s, drop i s) else Panic)"

lemma find_char_Some:
  "find_char x s = Some i \<Longrightarrow> i < length s \<and> s ! i = x \<and> x \<notin> set (take i s)"
  by (induction s arbitrary: i) (auto split: if_splits)

lemma find_char_SomeD:
  "find_char x s = Some i \<Longrightarrow> s = take i s @ x # drop (Suc i) s"
  by (metis find_char_Some id_take_nth_drop)

lemma find_char_None: "find_char x s = None \<longleftrightarrow> x \<notin> set s"
  by (induction s) auto

lemma find_char_append:
  "x \<notin> set a \<Longrightarrow> find_char x (a @ x # b) = Some (length a)"
  by (induction a) auto

lemma starts_with_append [simp]: "starts_with (p @ s) p"
  by (simp add: starts_with_def)

lemma strip_prefix_append [simp]: "strip_prefix (p @ s) p = Some s"
  by (simp add: strip_prefix_def)

lemma strip_prefix_Some: "strip_prefix s p = Some r \<longleftrightarrow> s = p @ r"
  by (auto simp: strip_prefix_def starts_with_def) (metis append_take_drop_id)

lemma slice_to_eq_Ok [result_simps]:
  "slice_to s i = Ok t \<longleftrightarrow> is_char_boundary s i \<and> t = take i s"
  by (auto simp: slice_to_def)

lemma slice_from_eq_Ok [result_simps]:
  "slice_from s i = Ok t \<longleftrightarrow> is_char_boundary s i \<and> t = drop i s"
  by (auto simp: slice_from_def)

lemma split_at_eq_Ok [result_simps]:
  "split_at s i = Ok t \<longleftrightarrow> is_char_boundary s i \<and> t = (take i s, drop i s)"
  by (auto simp: split_at_def)

lemma slice_to_eq_Panic [result_simps]: "slice_to s i = Panic \<longleftrightarrow> \<not> is_char_boundary s i"
  by (simp add: slice_to_def)

lemma slice_from_eq_Panic [result_simps]: "slice_from s i = Panic \<longleftrightarrow> \<not> is_char_boundary s i"
  by (simp add: slice_from_def)

lemma split_at_eq_Panic [result_simps]: "split_at s i = Panic \<longleftrightarrow> \<not> is_char_boundary s i"
  by (simp add: split_at_def)

lemma boundary_at_ascii:
  "i < length s \<Longrightarrow> is_ascii (s ! i) \<Longrightarrow> is_char_boundary s i"
  by (simp add: is_char_boundary_def is_ascii_def is_cont_def)

end
