(* ===== verification/Hex.thy ===== *)
theory Hex
  imports Rust_Std
begin

unbundle bit_operations_syntax

text \<open>
  Hexadecimal decoding. \<open>framing.rs\<close> (the MAC of a frame) and \<open>keystore.rs\<close> (the key file) each
  have their own \<open>nybble\<close>, with their own error, and the same loop over pairs of digits. The loop
  is \<open>hex_pairs\<close>, over any digit decoder; the locale \<open>hex_decoder\<close> states what a digit decoder
  promises, and everything the loop then guarantees is proved once inside it.
\<close>

section \<open>The loop over pairs of digits\<close>

fun hex_pairs :: "(u8 \<Rightarrow> (u8, 'e) result) \<Rightarrow> u8 list \<Rightarrow> (u8 list, 'e) result" where
  "hex_pairs nyb (a # b # rest) =
     bind_r (nyb a) (\<lambda>hi. bind_r (nyb b) (\<lambda>lo.
       map_r (\<lambda>out. (push_bit 4 hi OR lo) # out) (hex_pairs nyb rest)))"
| "hex_pairs nyb _ = Ok []"

text \<open>The value of a digit, in any of the three ranges the decoders accept.\<close>

definition hex_value :: "nat \<Rightarrow> nat option" where
  "hex_value c =
     (if 48 \<le> c \<and> c \<le> 57 then Some (c - 48)
      else if 97 \<le> c \<and> c \<le> 102 then Some (c - 87)
      else if 65 \<le> c \<and> c \<le> 70 then Some (c - 55)
      else None)"

lemma hex_value_lt: "hex_value c = Some d \<Longrightarrow> d < 16"
  by (auto simp: hex_value_def split: if_splits)

lemma hex_value_digit: "d < 16 \<Longrightarrow> hex_value (ord (hex_digit d)) = Some d"
  by (auto simp: hex_value_def ord_hex_digit)

lemma hex_digit_value:
  assumes "hex_value (ord c) = Some d"
  shows "[hex_digit d] = to_ascii_lowercase [c]"
proof -
  have d: "ord (hex_digit d) = (if 65 \<le> ord c \<and> ord c \<le> 70 then ord c + 32 else ord c)"
    using assms by (auto simp: hex_value_def ord_hex_digit split: if_splits)
  show ?thesis
  proof (cases "65 \<le> ord c \<and> ord c \<le> 90")
    case True
    then have "65 \<le> ord c \<and> ord c \<le> 70" using assms by (auto simp: hex_value_def split: if_splits)
    with d have "hex_digit d = char_of (ord c + 32)" by (metis char_of_ord)
    with True show ?thesis by (simp add: to_ascii_lowercase_def)
  next
    case False
    with d have "hex_digit d = c" by (auto simp: ord_inject split: if_splits)
    with False show ?thesis unfolding to_ascii_lowercase_def by (simp only: list.map if_False)
  qed
qed

lemma byte_of_nybbles:
  fixes hi lo :: u8
  assumes "unat hi < 16" "unat lo < 16"
  shows "unat (push_bit 4 hi OR lo) = 16 * unat hi + unat lo"
proof -
  have "unat (take_bit 4 lo) = unat lo"
    using assms(2) by (simp add: unsigned_take_bit_eq take_bit_nat_eq_self)
  then have lo: "take_bit 4 lo = lo" by (simp only: word_unat_eq_iff)
  have "push_bit 4 hi AND take_bit 4 lo = 0"
    by (rule bit_eqI) (auto simp: bit_simps)
  then have "push_bit 4 hi AND lo = 0" by (simp only: lo)
  then have "push_bit 4 hi OR lo = push_bit 4 hi + lo" by (simp add: disjunctive_add_eq_or)
  moreover have "unat (push_bit 4 hi + lo) = 16 * unat hi + unat lo"
    using assms by (simp add: push_bit_eq_mult unat_word_ariths)
  ultimately show ?thesis by simp
qed

section \<open>What a digit decoder promises\<close>

locale hex_decoder =
  fixes nyb :: "u8 \<Rightarrow> (u8, 'e) result"
  assumes nyb_value: "hex_value (unat c) = Some d \<Longrightarrow> nyb c = Ok (of_nat d)"
    and nyb_other: "hex_value (unat c) = None \<Longrightarrow> \<exists>e. nyb c = Err e"
begin

lemma nyb_Ok: "nyb c = Ok w \<longleftrightarrow> (\<exists>d. hex_value (unat c) = Some d \<and> w = of_nat d)"
  using nyb_value [of c] nyb_other [of c] by (cases "hex_value (unat c)") auto

lemma nyb_not_Panic: "nyb c \<noteq> Panic"
  using nyb_value [of c] nyb_other [of c] by (cases "hex_value (unat c)") auto

text \<open>Decoding what the formatter wrote gives the bytes back.\<close>

lemma hex_pairs_hex_bytes: "hex_pairs nyb (as_bytes (hex_bytes bs)) = Ok bs"
proof (induction bs)
  case (Cons b bs)
  have lt: "unat b div 16 < 16" "unat b mod 16 < 16" using unat_lt_2p8 [of b] by auto
  have u: "unat (of_nat (unat b div 16) :: u8) = unat b div 16"
    "unat (of_nat (unat b mod 16) :: u8) = unat b mod 16"
    using lt by (simp_all add: unat_of_nat_u8)
  have "unat (push_bit 4 (of_nat (unat b div 16)) OR of_nat (unat b mod 16) :: u8) = unat b"
    using lt by (subst byte_of_nybbles) (simp_all add: u)
  then have b: "(push_bit 4 (of_nat (unat b div 16)) OR of_nat (unat b mod 16) :: u8) = b"
    by (simp only: word_unat_eq_iff)
  have "nyb (of_char (hex_digit d)) = Ok (of_nat d)" if "d < 16" for d
    using that by (intro nyb_value) (simp add: unat_of_char hex_value_digit)
  then show ?case
    using Cons lt b by (simp add: hex_bytes_def hex_byte_def as_bytes_def)
qed (simp add: hex_bytes_def as_bytes_def)

text \<open>
  What is decoded is, up to the case of its letters, what the formatter writes: two texts of one
  value differ in case only.
\<close>

lemma hex_pairs_canonical:
  "hex_pairs nyb (as_bytes s) = Ok bs \<Longrightarrow> even (length s) \<Longrightarrow>
     hex_bytes bs = to_ascii_lowercase s"
proof (induction s arbitrary: bs rule: induct_list012)
  case (3 x y s)
  from "3.prems"(1) obtain hi lo out where
    hi: "hex_value (ord x) = Some hi" and lo: "hex_value (ord y) = Some lo"
    and out: "hex_pairs nyb (as_bytes s) = Ok out"
    and bs: "bs = (push_bit 4 (of_nat hi) OR of_nat lo) # out"
    by (auto simp: as_bytes_def result_simps nyb_Ok unat_of_char)
  have lt: "hi < 16" "lo < 16" using hi lo by (auto dest: hex_value_lt)
  have "unat (push_bit 4 (of_nat hi) OR of_nat lo :: u8) = 16 * hi + lo"
    using lt by (subst byte_of_nybbles) (simp_all add: unat_of_nat_u8)
  then have "hex_byte (push_bit 4 (of_nat hi) OR of_nat lo) = [hex_digit hi, hex_digit lo]"
    using lt by (simp add: hex_byte_def)
  moreover have "hex_bytes out = to_ascii_lowercase s"
    using "3.prems"(2) by (intro "3.IH"(1) out) simp
  moreover have "to_ascii_lowercase (x # y # s)
      = [hex_digit hi] @ [hex_digit lo] @ to_ascii_lowercase s"
    by (simp only: hex_digit_value [OF hi] hex_digit_value [OF lo])
      (simp add: to_ascii_lowercase_def)
  ultimately show ?case by (simp add: bs hex_bytes_def)
qed (simp_all add: hex_bytes_def as_bytes_def to_ascii_lowercase_def)

lemma hex_pairs_not_Panic: "hex_pairs nyb bs \<noteq> Panic"
  by (induction bs rule: induct_list012) (auto simp: result_simps nyb_not_Panic)

lemma length_hex_pairs: "hex_pairs nyb bs = Ok out \<Longrightarrow> length out = length bs div 2"
  by (induction bs arbitrary: out rule: induct_list012) (auto simp: result_simps)

end

end
