(* ===== verification/Rust_Utf8.thy ===== *)
theory Rust_Utf8
  imports Rust_Std
begin

text \<open>
  UTF-8: well-formedness of a byte string, the lossy conversion that turns wire bytes into a
  \<open>String\<close>, the characters of a well-formed string, and the white space functions of \<open>str\<close>.

  \<open>utf8_head\<close> reads the first sequence of a non-empty byte string as the decoder of the standard
  library does: whether it is well-formed, and how many bytes the well-formed character, or the
  longest ill-formed prefix that one replacement character stands for, takes.
\<close>

section \<open>Decoding one sequence\<close>

definition byte_at :: "str \<Rightarrow> nat \<Rightarrow> nat" where
  "byte_at s i = (if i < length s then ord (s ! i) else 0)"

definition second3 :: "nat \<Rightarrow> nat \<Rightarrow> bool" where
  "second3 b x \<longleftrightarrow> (b = 0xE0 \<and> 0xA0 \<le> x \<and> x \<le> 0xBF) \<or> (0xE1 \<le> b \<and> b \<le> 0xEC \<and> is_cont x)
     \<or> (b = 0xED \<and> 0x80 \<le> x \<and> x \<le> 0x9F) \<or> (0xEE \<le> b \<and> b \<le> 0xEF \<and> is_cont x)"

definition second4 :: "nat \<Rightarrow> nat \<Rightarrow> bool" where
  "second4 b x \<longleftrightarrow> (b = 0xF0 \<and> 0x90 \<le> x \<and> x \<le> 0xBF) \<or> (0xF1 \<le> b \<and> b \<le> 0xF3 \<and> is_cont x)
     \<or> (b = 0xF4 \<and> 0x80 \<le> x \<and> x \<le> 0x8F)"

definition utf8_head :: "str \<Rightarrow> bool \<times> nat" where
  "utf8_head s =
     (let b = byte_at s 0; x = byte_at s 1; y = byte_at s 2; z = byte_at s 3
      in if b < 0x80 then (True, 1)
         else if 0xC2 \<le> b \<and> b \<le> 0xDF then (if is_cont x then (True, 2) else (False, 1))
         else if 0xE0 \<le> b \<and> b \<le> 0xEF then
           (if \<not> second3 b x then (False, 1) else if is_cont y then (True, 3) else (False, 2))
         else if 0xF0 \<le> b \<and> b \<le> 0xF4 then
           (if \<not> second4 b x then (False, 1) else if \<not> is_cont y then (False, 2)
            else if is_cont z then (True, 4) else (False, 3))
         else (False, 1))"

lemma second_cont: "second3 b x \<Longrightarrow> is_cont x" "second4 b x \<Longrightarrow> is_cont x"
  by (auto simp: second3_def second4_def is_cont_def)

lemma cont_in_range: "is_cont (byte_at s i) \<Longrightarrow> i < length s"
  by (auto simp: byte_at_def is_cont_def split: if_splits)

lemma utf8_head_pos: "0 < snd (utf8_head s)"
  by (simp add: utf8_head_def Let_def)

lemma drop_head_less: "s \<noteq> [] \<Longrightarrow> length s - snd (utf8_head s) < length s"
  using utf8_head_pos [of s] by (simp add: diff_less)

lemma utf8_head_le: "s \<noteq> [] \<Longrightarrow> snd (utf8_head s) \<le> length s"
  using cont_in_range [of s 1] cont_in_range [of s 2] cont_in_range [of s 3]
    second_cont [of "byte_at s 0" "byte_at s 1"]
  by (cases s) (auto simp: utf8_head_def Let_def Suc_le_eq)

text \<open>The four shapes of a well-formed character.\<close>

lemma utf8_head_True:
  "utf8_head s = (True, n) \<longleftrightarrow>
     n = 1 \<and> byte_at s 0 < 0x80
   \<or> n = 2 \<and> 0xC2 \<le> byte_at s 0 \<and> byte_at s 0 \<le> 0xDF \<and> is_cont (byte_at s 1)
   \<or> n = 3 \<and> second3 (byte_at s 0) (byte_at s 1) \<and> is_cont (byte_at s 2)
   \<or> n = 4 \<and> second4 (byte_at s 0) (byte_at s 1) \<and> is_cont (byte_at s 2)
       \<and> is_cont (byte_at s 3)"
proof -
  have r3: "second3 b x \<Longrightarrow> 0xE0 \<le> b \<and> b \<le> 0xEF" for b x
    by (auto simp: second3_def)
  have r4: "second4 b x \<Longrightarrow> 0xF0 \<le> b \<and> b \<le> 0xF4" for b x
    by (auto simp: second4_def)
  show ?thesis
    using r3 [of "byte_at s 0" "byte_at s 1"] r4 [of "byte_at s 0" "byte_at s 1"]
    unfolding utf8_head_def Let_def by (simp split: if_split) linarith
qed

lemma utf8_head_cong:
  assumes "utf8_head s = (True, n)" "\<And>i. i < n \<Longrightarrow> byte_at t i = byte_at s i"
  shows "utf8_head t = (True, n)"
  using assms(1) assms(2) [of 0] assms(2) [of 1] assms(2) [of 2] assms(2) [of 3]
  unfolding utf8_head_True by (elim disjE) auto

lemma utf8_head_append:
  assumes "utf8_head c = (True, length c)"
  shows "utf8_head (c @ t) = (True, length c)"
  by (rule utf8_head_cong [OF assms]) (simp add: byte_at_def nth_append)

lemma utf8_head_take:
  assumes "utf8_head s = (True, n)" "s \<noteq> []"
  shows "utf8_head (take n s) = (True, n)"
  by (rule utf8_head_cong [OF assms(1)])
    (use utf8_head_le [OF assms(2)] assms(1) in \<open>simp add: byte_at_def\<close>)

text \<open>The continuation bytes of the sequence follow a byte that is not ASCII.\<close>

lemma utf8_head_cont:
  assumes "utf8_head s = (True, n)" "i < n" "s \<noteq> []" "is_cont (byte_at s i)"
  shows "0 < i \<and> 0x80 \<le> byte_at s (i - 1)"
proof -
  have "i = 0 \<or> i = 1 \<or> i = 2 \<or> i = 3" using assms(1,2) unfolding utf8_head_True by auto
  then show ?thesis
    using assms(1,2,4) unfolding utf8_head_True second3_def second4_def is_cont_def
    by (elim disjE) auto
qed

section \<open>Well-formed strings\<close>

function utf8_valid :: "str \<Rightarrow> bool" where
  "utf8_valid s \<longleftrightarrow>
     (if s = [] then True
      else fst (utf8_head s) \<and> utf8_valid (drop (snd (utf8_head s)) s))"
  by pat_completeness auto
termination
  by (relation "measure length") (auto intro: drop_head_less)

declare utf8_valid.simps [simp del]

function utf8_chars :: "str \<Rightarrow> str list" where
  "utf8_chars s =
     (if s = [] then []
      else take (snd (utf8_head s)) s # utf8_chars (drop (snd (utf8_head s)) s))"
  by pat_completeness auto
termination
  by (relation "measure length") (auto intro: drop_head_less)

declare utf8_chars.simps [simp del]

definition replacement_char :: "str" where
  "replacement_char = map char_of [0xEF :: nat, 0xBF, 0xBD]"

function from_utf8_lossy :: "str \<Rightarrow> str" where
  "from_utf8_lossy s =
     (if s = [] then []
      else (if fst (utf8_head s) then take (snd (utf8_head s)) s else replacement_char)
           @ from_utf8_lossy (drop (snd (utf8_head s)) s))"
  by pat_completeness auto
termination
  by (relation "measure length") (auto intro: drop_head_less)

declare from_utf8_lossy.simps [simp del]

lemma utf8_valid_Nil [simp]: "utf8_valid []"
  by (simp add: utf8_valid.simps)

lemma utf8_valid_append:
  assumes "utf8_head c = (True, length c)" "utf8_valid t"
  shows "utf8_valid (c @ t)"
  using utf8_head_append [OF assms(1), of t] assms(2) by (subst utf8_valid.simps) simp

lemma utf8_valid_concat: "utf8_valid a \<Longrightarrow> utf8_valid b \<Longrightarrow> utf8_valid (a @ b)"
proof (induction a rule: utf8_valid.induct)
  case (1 a)
  show ?case
  proof (cases "a = []")
    case False
    obtain n where h: "utf8_head a = (True, n)" and v: "utf8_valid (drop n a)"
      using "1.prems"(1) False by (cases "utf8_head a") (auto simp: utf8_valid.simps [of a])
    have len: "length (take n a) = n" using utf8_head_le [OF False] h by simp
    then have "utf8_head (take n a) = (True, length (take n a))"
      using utf8_head_take [OF h False] by simp
    moreover have "utf8_valid (drop n a @ b)" using "1.IH" False h v "1.prems"(2) by simp
    ultimately have "utf8_valid (take n a @ drop n a @ b)" by (rule utf8_valid_append)
    then show ?thesis by (metis append_assoc append_take_drop_id)
  qed (use "1.prems" in simp)
qed

lemma replacement_char_head: "utf8_head replacement_char = (True, length replacement_char)"
  by code_simp

text \<open>The conversion yields a well-formed string, and changes nothing in one.\<close>

lemma from_utf8_lossy_valid: "utf8_valid (from_utf8_lossy s)"
proof (induction s rule: from_utf8_lossy.induct)
  case (1 s)
  show ?case
  proof (cases "s = []")
    case True
    then show ?thesis by (simp add: from_utf8_lossy.simps)
  next
    case False
    obtain ok n where h: "utf8_head s = (ok, n)" by (cases "utf8_head s")
    have rest: "utf8_valid (from_utf8_lossy (drop n s))" using 1 False h by simp
    have "n \<le> length s" using utf8_head_le [OF False] h by simp
    then have "ok \<Longrightarrow> utf8_head (take n s) = (True, length (take n s))"
      using utf8_head_take [of s n] h False by simp
    then show ?thesis
      using False h rest
      by (subst from_utf8_lossy.simps)
        (simp add: utf8_valid_append replacement_char_head)
  qed
qed

lemma from_utf8_lossy_id: "utf8_valid s \<Longrightarrow> from_utf8_lossy s = s"
proof (induction s rule: from_utf8_lossy.induct)
  case (1 s)
  then show ?case
    by (cases "s = []")
      (simp_all add: from_utf8_lossy.simps [of s] utf8_valid.simps [of s]
        from_utf8_lossy.simps [of "[]"])
qed

lemma concat_utf8_chars: "concat (utf8_chars s) = s"
proof (induction s rule: utf8_chars.induct)
  case (1 s)
  then show ?case by (cases "s = []")
      (simp_all add: utf8_chars.simps [of s] utf8_chars.simps [of "[]"])
qed

lemma utf8_head_ascii: "is_ascii c \<Longrightarrow> utf8_head (c # cs) = (True, 1)"
  by (simp add: utf8_head_def byte_at_def is_ascii_def Let_def)

lemma ascii_utf8_valid: "list_all is_ascii s \<Longrightarrow> utf8_valid s"
proof (induction s)
  case (Cons c cs)
  then show ?case by (subst utf8_valid.simps) (simp add: utf8_head_ascii)
qed simp

lemma utf8_valid_ascii_append: "list_all is_ascii p \<Longrightarrow> utf8_valid s \<Longrightarrow> utf8_valid (p @ s)"
proof (induction p)
  case (Cons c p)
  then show ?case
    using utf8_valid_append [of "[c]" "p @ s"] utf8_head_ascii [of c "[]"] by simp
qed simp

lemma ascii_utf8_chars: "list_all is_ascii s \<Longrightarrow> utf8_chars s = map (\<lambda>c. [c]) s"
proof (induction s)
  case Nil
  then show ?case by (simp add: utf8_chars.simps)
next
  case (Cons c cs)
  then show ?case by (subst utf8_chars.simps) (simp add: utf8_head_ascii)
qed

section \<open>Slicing next to an ASCII byte\<close>

text \<open>
  What slicing needs of a string, and what it keeps: no continuation byte at the start or behind
  an ASCII byte.
\<close>

definition wf_str :: "str \<Rightarrow> bool" where
  "wf_str s \<longleftrightarrow>
     (\<forall>i < length s. is_cont (ord (s ! i)) \<longrightarrow> 0 < i \<and> \<not> is_ascii (s ! (i - 1)))"

lemma utf8_valid_wf: "utf8_valid s \<Longrightarrow> wf_str s"
proof (induction s rule: utf8_valid.induct)
  case (1 s)
  show ?case
  proof (cases "s = []")
    case False
    obtain n where h: "utf8_head s = (True, n)"
      using "1.prems" False by (cases "utf8_head s") (auto simp: utf8_valid.simps [of s])
    have v: "utf8_valid (drop n s)"
      using "1.prems" False h by (simp add: utf8_valid.simps [of s])
    then have wf: "wf_str (drop n s)" using "1.IH" False h by simp
    show ?thesis
      unfolding wf_str_def
    proof (intro allI impI)
      fix i assume i: "i < length s" and c: "is_cont (ord (s ! i))"
      show "0 < i \<and> \<not> is_ascii (s ! (i - 1))"
      proof (cases "i < n")
        case True
        then show ?thesis
          using utf8_head_cont [OF h True False] i c
          by (simp add: byte_at_def is_ascii_def not_less split: if_splits)
      next
        case ge: False
        have "is_cont (ord (drop n s ! (i - n)))" using ge i c by simp
        moreover have "i - n < length (drop n s)" using ge i by simp
        ultimately have "0 < i - n \<and> \<not> is_ascii (drop n s ! (i - n - 1))"
          using wf unfolding wf_str_def by blast
        then show ?thesis using ge i by (auto simp: nth_drop)
      qed
    qed
  qed (simp add: wf_str_def)
qed

lemma wf_str_take: "wf_str s \<Longrightarrow> wf_str (take i s)"
  by (auto simp: wf_str_def)

lemma wf_str_drop:
  assumes "wf_str s" "is_char_boundary s i"
  shows "wf_str (drop i s)"
  unfolding wf_str_def
proof (intro allI impI)
  fix j assume j: "j < length (drop i s)" and c: "is_cont (ord (drop i s ! j))"
  then have ij: "i + j < length s" "is_cont (ord (s ! (i + j)))" by auto
  then have "0 < i + j \<and> \<not> is_ascii (s ! (i + j - 1))"
    using assms(1) unfolding wf_str_def by blast
  moreover have "j \<noteq> 0"
  proof
    assume "j = 0"
    with ij \<open>0 < i + j \<and> _\<close> assms(2) show False by (simp add: is_char_boundary_def)
  qed
  ultimately show "0 < j \<and> \<not> is_ascii (drop i s ! (j - 1))" using ij by simp
qed

lemma boundary_after_ascii:
  assumes "wf_str s" "i < length s" "is_ascii (s ! i)"
  shows "is_char_boundary s (Suc i)"
proof (cases "Suc i = length s")
  case False
  then have i: "Suc i < length s" using assms(2) by simp
  have "\<not> is_cont (ord (s ! Suc i))"
    using assms(1) i assms(3) unfolding wf_str_def by (metis diff_Suc_1)
  then show ?thesis using i by (simp add: is_char_boundary_def)
qed (simp add: is_char_boundary_def)

lemma boundary_after_prefix:
  assumes "wf_str (p @ s)" "p \<noteq> []" "list_all is_ascii p"
  shows "is_char_boundary (p @ s) (length p)"
proof -
  have "(p @ s) ! (length p - 1) = last p"
    using assms(2) by (simp add: nth_append last_conv_nth)
  then have "is_ascii ((p @ s) ! (length p - 1))" using assms(2,3) by (simp add: list_all_iff)
  then show ?thesis
    using boundary_after_ascii [OF assms(1), of "length p - 1"] assms(2) by (cases p) simp_all
qed

section \<open>White space\<close>

text \<open>The characters of \<open>char::is_whitespace\<close>, as their UTF-8 bytes.\<close>

definition whitespace_chars :: "nat list list" where
  "whitespace_chars =
     [[9], [10], [11], [12], [13], [32], [0xC2, 0x85], [0xC2, 0xA0], [0xE1, 0x9A, 0x80],
      [0xE2, 0x80, 0x80], [0xE2, 0x80, 0x81], [0xE2, 0x80, 0x82], [0xE2, 0x80, 0x83],
      [0xE2, 0x80, 0x84], [0xE2, 0x80, 0x85], [0xE2, 0x80, 0x86], [0xE2, 0x80, 0x87],
      [0xE2, 0x80, 0x88], [0xE2, 0x80, 0x89], [0xE2, 0x80, 0x8A], [0xE2, 0x80, 0xA8],
      [0xE2, 0x80, 0xA9], [0xE2, 0x80, 0xAF], [0xE2, 0x81, 0x9F], [0xE3, 0x80, 0x80]]"

definition is_whitespace :: "str \<Rightarrow> bool" where
  "is_whitespace c \<longleftrightarrow> map ord c \<in> set whitespace_chars"

definition trim :: "str \<Rightarrow> str" where
  "trim s = concat (rev (dropWhile is_whitespace (rev (dropWhile is_whitespace (utf8_chars s)))))"

lemma visible_not_whitespace: "33 \<le> ord c \<Longrightarrow> ord c < 127 \<Longrightarrow> \<not> is_whitespace [c]"
  by (auto simp: is_whitespace_def whitespace_chars_def)

text \<open>Trimming visible characters, alone or before the end of a line.\<close>

lemma trim_visible:
  assumes "list_all (\<lambda>c. 33 \<le> ord c \<and> ord c < 127) t"
  shows "trim t = t" and "t \<noteq> [] \<Longrightarrow> trim (t @ [char_of (10 :: nat)]) = t"
proof -
  let ?m = "map (\<lambda>c. [c])" and ?nl = "char_of (10 :: nat) :: char"
  have vis: "\<not> is_whitespace [c]" if "c \<in> set t" for c
    using assms that visible_not_whitespace [of c] by (auto simp: list_all_iff)
  have nl: "is_whitespace [?nl]"
    by (simp add: is_whitespace_def whitespace_chars_def ord_char_of)
  have asc: "list_all is_ascii t" "list_all is_ascii (t @ [?nl])"
    using assms by (auto simp: list_all_iff is_ascii_def ord_char_of)
  have keep: "dropWhile is_whitespace (?m t @ cs) = ?m t @ cs" if "t \<noteq> []" for cs
    using that vis by (cases t) auto
  have keep_rev: "dropWhile is_whitespace (rev (?m t)) = rev (?m t)"
    using vis by (cases t rule: rev_cases) auto
  have cat: "concat (?m s) = s" for s :: str by (induction s) simp_all
  show "trim t = t"
    using keep [of "[]"] keep_rev cat
    by (cases "t = []") (simp_all add: trim_def utf8_chars.simps [of "[]"] ascii_utf8_chars [OF asc(1)])
  show "trim (t @ [?nl]) = t" if "t \<noteq> []"
    using keep [OF that, of "[[?nl]]"] keep_rev cat nl
    by (simp add: trim_def ascii_utf8_chars [OF asc(2)])
qed

fun split_ws_chars :: "str \<Rightarrow> str list \<Rightarrow> str list" where
  "split_ws_chars acc [] = (if acc = [] then [] else [acc])"
| "split_ws_chars acc (c # cs) =
     (if is_whitespace c
      then (if acc = [] then split_ws_chars [] cs else acc # split_ws_chars [] cs)
      else split_ws_chars (acc @ c) cs)"

definition split_whitespace :: "str \<Rightarrow> str list" where
  "split_whitespace s = split_ws_chars [] (utf8_chars s)"

text \<open>\<open>splitn(k, char::is_whitespace)\<close>: at most \<open>k\<close> pieces, the last one unsplit.\<close>

fun splitn_ws_chars :: "nat \<Rightarrow> str \<Rightarrow> str list \<Rightarrow> str list" where
  "splitn_ws_chars 0 acc cs = []"
| "splitn_ws_chars (Suc 0) acc cs = [acc @ concat cs]"
| "splitn_ws_chars (Suc (Suc k)) acc [] = [acc]"
| "splitn_ws_chars (Suc (Suc k)) acc (c # cs) =
     (if is_whitespace c then acc # splitn_ws_chars (Suc k) [] cs
      else splitn_ws_chars (Suc (Suc k)) (acc @ c) cs)"

definition splitn_ws :: "nat \<Rightarrow> str \<Rightarrow> str list" where
  "splitn_ws k s = splitn_ws_chars k [] (utf8_chars s)"

end
