(* ===== verification/Framing.thy ===== *)
theory Framing
  imports Siphash Hex Rust_Utf8
begin

text \<open>
  \<open>framing.rs\<close>: the authenticated frames of the serial protocol (SPEC 13.3).

    command   \<open>C <counter> <line> M <mac>\<close>         MAC over \<open>CMD <counter> <line>\<close>
    response  \<open>R <counter> <seq> <body> M <mac>\<close>   MAC over \<open>RSP <counter> <seq> <body>\<close>

  The functions keep their names. Both frames are instances of one format, a leader, a header, a
  body and the MAC suffix; the locale \<open>tagged_frame\<close> states what the header's parser promises and
  the theorems on round trips, on unique representation and on panics are proved once inside it,
  then read off for the two interpretations \<open>cmd\<close> and \<open>rsp\<close>.

  The constant-time comparison comes from the crate \<open>subtle\<close>, which is not part of the sources:
  it is the argument \<open>ct\<close> of the verifiers, and \<open>ct_eq_law\<close> is its documented meaning.
\<close>

section \<open>Constants and errors\<close>

definition MAC_HEX_LEN :: nat where
  "MAC_HEX_LEN = 16"

definition MAC_SUFFIX_LEN :: nat where
  "MAC_SUFFIX_LEN = 3 + MAC_HEX_LEN"

definition COUNTER_CEILING :: u64 where
  "COUNTER_CEILING = 0xFFFFFFFFFFFF0000"

datatype framing_error =
    TooShort nat
  | WrongLeader char
  | MissingMacSuffix
  | InvalidMac
  | InvalidCounter
  | InvalidSeq
  | MacMismatch

section \<open>Shared parser bits\<close>

definition nybble :: "u8 \<Rightarrow> u8 option" where
  "nybble c =
     (if 48 \<le> unat c \<and> unat c \<le> 57 then Some (c - 48)
      else if 97 \<le> unat c \<and> unat c \<le> 102 then Some (10 + c - 97)
      else if 65 \<le> unat c \<and> unat c \<le> 70 then Some (10 + c - 65)
      else None)"

definition parse_mac_hex :: "str \<Rightarrow> (u64, framing_error) result" where
  "parse_mac_hex hex =
     (if length hex \<noteq> MAC_HEX_LEN then Err InvalidMac
      else map_r u64_from_le_bytes
             (hex_pairs (\<lambda>c. ok_or (nybble c) InvalidMac) (as_bytes hex)))"

definition parse_strict_u64 :: "str \<Rightarrow> u64 option" where
  "parse_strict_u64 s =
     (if s = [] then None
      else if 1 < length s \<and> s ! 0 = CHR ''0'' then None
      else if \<not> list_all is_ascii_digit s then None
      else map_option of_nat (parse_uint 64 s))"

definition parse_strict_u32 :: "str \<Rightarrow> u32 option" where
  "parse_strict_u32 s =
     (case parse_strict_u64 s of
        None \<Rightarrow> None
      | Some v \<Rightarrow> if (0xFFFFFFFF :: u64) < v then None else Some (ucast v))"

definition split_mac_suffix :: "str \<Rightarrow> (str \<times> u64, framing_error) result" where
  "split_mac_suffix s =
     (if length s < MAC_SUFFIX_LEN then Err (TooShort (length s))
      else if \<not> is_char_boundary s (length s - MAC_SUFFIX_LEN) then Err MissingMacSuffix
      else bind_r (split_at s (length s - MAC_SUFFIX_LEN)) (\<lambda>(head, suffix).
        if \<not> starts_with suffix '' M '' then Err MissingMacSuffix
        else bind_r (slice_from suffix 3) (\<lambda>mac_hex.
          bind_r (parse_mac_hex mac_hex) (\<lambda>mac. Ok (head, mac)))))"

definition split_counter_body :: "str \<Rightarrow> (u64 \<times> str, framing_error) result" where
  "split_counter_body s =
     bind_r (ok_or (find_char CHR '' '' s) (TooShort (length s))) (\<lambda>sp.
       bind_r (slice_to s sp) (\<lambda>cs.
         bind_r (ok_or (parse_strict_u64 cs) InvalidCounter) (\<lambda>counter.
           bind_r (slice_from s (sp + 1)) (\<lambda>body. Ok (counter, body)))))"

section \<open>Command frames\<close>

definition cmd_mac_input :: "u64 \<Rightarrow> str \<Rightarrow> str" where
  "cmd_mac_input counter cmd_line = ''CMD '' @ show_u64 counter @ '' '' @ cmd_line"

definition encode_command :: "u8 list \<Rightarrow> u64 \<Rightarrow> str \<Rightarrow> str" where
  "encode_command key counter cmd_line =
     (let mac = siphash24 key (as_bytes (cmd_mac_input counter cmd_line))
      in ''C '' @ show_u64 counter @ '' '' @ cmd_line @ '' M '' @ mac_to_hex mac)"

definition parse_command :: "str \<Rightarrow> (u64 \<times> str \<times> u64, framing_error) result" where
  "parse_command line =
     bind_r (ok_or (strip_prefix line ''C '') (WrongLeader CHR ''C'')) (\<lambda>rest.
       bind_r (split_mac_suffix rest) (\<lambda>(head, mac).
         bind_r (split_counter_body head) (\<lambda>(counter, cmd_line).
           Ok (counter, cmd_line, mac))))"

definition verify_command ::
  "(u64 \<Rightarrow> u64 \<Rightarrow> bool) \<Rightarrow> u8 list \<Rightarrow> str \<Rightarrow> (u64 \<times> str, framing_error) result"
where
  "verify_command ct key line =
     bind_r (parse_command line) (\<lambda>(counter, cmd_line, claimed).
       let expected = siphash24 key (as_bytes (cmd_mac_input counter cmd_line))
       in if \<not> ct expected claimed then Err MacMismatch else Ok (counter, cmd_line))"

section \<open>Response frames\<close>

definition rsp_mac_input :: "u64 \<Rightarrow> u32 \<Rightarrow> str \<Rightarrow> str" where
  "rsp_mac_input counter seq body_line =
     ''RSP '' @ show_u64 counter @ '' '' @ show_u32 seq @ '' '' @ body_line"

definition encode_response :: "u8 list \<Rightarrow> u64 \<Rightarrow> u32 \<Rightarrow> str \<Rightarrow> str" where
  "encode_response key counter seq body_line =
     (let mac = siphash24 key (as_bytes (rsp_mac_input counter seq body_line))
      in ''R '' @ show_u64 counter @ '' '' @ show_u32 seq @ '' '' @ body_line @ '' M ''
           @ mac_to_hex mac)"

text \<open>The part of \<open>parse_response\<close> between the leader and the MAC suffix.\<close>

definition split_counter_seq_body :: "str \<Rightarrow> ((u64 \<times> u32) \<times> str, framing_error) result" where
  "split_counter_seq_body head =
     bind_r (ok_or (find_char CHR '' '' head) (TooShort (length head))) (\<lambda>sp1.
       bind_r (slice_to head sp1) (\<lambda>cs.
         bind_r (ok_or (parse_strict_u64 cs) InvalidCounter) (\<lambda>counter.
           bind_r (slice_from head (sp1 + 1)) (\<lambda>rest1.
             bind_r (ok_or (find_char CHR '' '' rest1) (TooShort (length rest1))) (\<lambda>sp2.
               bind_r (slice_to rest1 sp2) (\<lambda>ss.
                 bind_r (ok_or (parse_strict_u32 ss) InvalidSeq) (\<lambda>seq.
                   bind_r (slice_from rest1 (sp2 + 1)) (\<lambda>body.
                     Ok ((counter, seq), body)))))))))"

definition parse_response :: "str \<Rightarrow> (u64 \<times> u32 \<times> str \<times> u64, framing_error) result" where
  "parse_response line =
     bind_r (ok_or (strip_prefix line ''R '') (WrongLeader CHR ''R'')) (\<lambda>rest.
       bind_r (split_mac_suffix rest) (\<lambda>(head, mac).
         bind_r (split_counter_seq_body head) (\<lambda>((counter, seq), body).
           Ok (counter, seq, body, mac))))"

definition verify_response ::
  "(u64 \<Rightarrow> u64 \<Rightarrow> bool) \<Rightarrow> u8 list \<Rightarrow> str \<Rightarrow> (u64 \<times> u32 \<times> str, framing_error) result"
where
  "verify_response ct key line =
     bind_r (parse_response line) (\<lambda>(counter, seq, body, claimed).
       let expected = siphash24 key (as_bytes (rsp_mac_input counter seq body))
       in if \<not> ct expected claimed then Err MacMismatch else Ok (counter, seq, body))"

text \<open>What the documentation of \<open>subtle::ConstantTimeEq\<close> promises for words.\<close>

definition ct_eq_law :: "(u64 \<Rightarrow> u64 \<Rightarrow> bool) \<Rightarrow> bool" where
  "ct_eq_law ct \<longleftrightarrow> (\<forall>a b. ct a b \<longleftrightarrow> a = b)"

lemma ct_eq_lawD: "ct_eq_law ct \<Longrightarrow> ct a b \<longleftrightarrow> a = b"
  by (simp add: ct_eq_law_def)

section \<open>The parser bits, characterised\<close>

interpretation mac_hex: hex_decoder "\<lambda>c. ok_or (nybble c) InvalidMac"
proof
  fix c :: u8 and d assume v: "hex_value (unat c) = Some d"
  have c: "c = of_nat (unat c)" by simp
  show "ok_or (nybble c) InvalidMac = Ok (of_nat d)"
    using v by (subst c) (auto simp: hex_value_def nybble_def of_nat_diff split: if_splits)
next
  fix c :: u8 assume "hex_value (unat c) = None"
  then show "\<exists>e. ok_or (nybble c) InvalidMac = Err e"
    by (auto simp: hex_value_def nybble_def split: if_splits)
qed

lemma show_u64_inject: "show_u64 v = show_u64 w \<longleftrightarrow> v = w"
  by (metis show_u64_def dec_value_show_nat word_unat_eq_iff)

lemma show_u32_inject: "show_u32 v = show_u32 w \<longleftrightarrow> v = w"
  by (metis show_u32_def dec_value_show_nat word_unat_eq_iff)

lemma parse_strict_u64_iff: "parse_strict_u64 s = Some v \<longleftrightarrow> s = show_u64 v"
proof
  assume p: "parse_strict_u64 s = Some v"
  then have s: "s \<noteq> []" "list_all is_ascii_digit s" "length s = 1 \<or> hd s \<noteq> CHR ''0''"
    by (auto simp: parse_strict_u64_def hd_conv_nth split: if_splits)
      (metis One_nat_def Suc_lessI length_greater_0_conv)+
  with p have "dec_value 0 s < 2 ^ 64" "v = of_nat (dec_value 0 s)"
    by (auto simp: parse_strict_u64_def parse_uint_digits split: if_splits)
  then have "unat v = dec_value 0 s" by (simp add: unat_of_nat_u64)
  then show "s = show_u64 v" using s show_nat_dec_value [of s] by (auto simp: show_u64_def)
next
  assume s: "s = show_u64 v"
  have "s ! 0 \<noteq> CHR ''0'' \<or> length s = 1"
    using hd_show_nat [of "unat v"] by (cases "unat v = 0") (auto simp: s show_u64_def hd_conv_nth show_nat_0)
  then show "parse_strict_u64 s = Some v"
    using unat_lt_2p64 [of v] by (auto simp: parse_strict_u64_def s show_u64_def show_nat_digits parse_uint_show_nat)
qed
lemma parse_strict_u32_iff: "parse_strict_u32 s = Some v \<longleftrightarrow> s = show_u32 v"
proof -
  have lim: "(0xFFFFFFFF :: u64) < w \<longleftrightarrow> \<not> unat w < 4294967296" for w
    by (simp add: word_less_nat_alt not_less) arith
  have down: "unat (ucast w :: u32) = unat w" if "unat w < 4294967296" for w :: u64
    using that by (simp add: unsigned_ucast_eq take_bit_nat_eq_self)
  have up: "unat (ucast v :: u64) = unat v"
    using unat_lt_2p32 [of v] by (simp add: unsigned_ucast_eq take_bit_nat_eq_self)
  have "parse_strict_u32 s = Some v \<longleftrightarrow>
      (\<exists>w. s = show_u64 w \<and> unat w < 4294967296 \<and> v = ucast w)"
  proof (cases "parse_strict_u64 s")
    case None
    then show ?thesis using parse_strict_u64_iff [of s] by (auto simp: parse_strict_u32_def)
  next
    case (Some a)
    then have "s = show_u64 a" by (simp only: parse_strict_u64_iff)
    with Some show ?thesis by (auto simp: parse_strict_u32_def lim show_u64_inject)
  qed
  also have "\<dots> \<longleftrightarrow> s = show_u32 v"
  proof
    assume "\<exists>w. s = show_u64 w \<and> unat w < 4294967296 \<and> v = ucast w"
    then show "s = show_u32 v" by (auto simp: show_u64_def show_u32_def down)
  next
    assume "s = show_u32 v"
    moreover have "v = ucast (ucast v :: u64)"
      using unat_lt_2p32 [of v] by (simp only: word_unat_eq_iff) (simp add: down up)
    ultimately have
      "s = show_u64 (ucast v) \<and> unat (ucast v :: u64) < 4294967296 \<and> v = ucast (ucast v :: u64)"
      using unat_lt_2p32 [of v] by (simp add: show_u64_def show_u32_def up)
    then show "\<exists>w. s = show_u64 w \<and> unat w < 4294967296 \<and> v = ucast w" by blast
  qed
  finally show ?thesis .
qed

lemma mac_hex_canonical:
  "parse_mac_hex h = Ok m \<Longrightarrow> length h = 16 \<and> to_ascii_lowercase h = mac_to_hex m"
  using mac_hex.hex_pairs_canonical [of h] mac_hex.length_hex_pairs [of "as_bytes h"]
  by (auto simp: parse_mac_hex_def MAC_HEX_LEN_def result_simps mac_to_hex_def mac_to_le_bytes_def
      u64_to_from_le_bytes split: if_splits)

lemma parse_mac_hex_mac_to_hex [simp]: "parse_mac_hex (mac_to_hex m) = Ok m"
  by (simp add: parse_mac_hex_def MAC_HEX_LEN_def)
    (simp add: mac_to_hex_def mac_to_le_bytes_def mac_hex.hex_pairs_hex_bytes)

lemma parse_mac_hex_not_Panic: "parse_mac_hex h \<noteq> Panic"
  by (simp add: parse_mac_hex_def result_simps mac_hex.hex_pairs_not_Panic)

lemma show_u64_ascii: "list_all is_ascii (show_u64 v)"
  using show_nat_digits [of "unat v"]
  by (auto simp: show_u64_def list_all_iff is_ascii_digit_def is_ascii_def)

lemma show_u32_ascii: "list_all is_ascii (show_u32 v)"
  using show_nat_digits [of "unat v"]
  by (auto simp: show_u32_def list_all_iff is_ascii_digit_def is_ascii_def)

lemma show_nat_no_space: "CHR '' '' \<notin> set (show_nat n)"
  using show_nat_digits [of n] by (auto simp: list_all_iff is_ascii_digit_def ord_def)

lemma show_u64_no_space: "CHR '' '' \<notin> set (show_u64 v)"
  by (simp add: show_u64_def show_nat_no_space)

lemma show_u32_no_space: "CHR '' '' \<notin> set (show_u32 v)"
  by (simp add: show_u32_def show_nat_no_space)

text \<open>A field that ends at the first space: where it is found, and what slicing around it gives.\<close>

lemma space_ascii: "is_ascii CHR '' ''"
  by (simp add: is_ascii_def ord_def)

lemma boundaries_at_space:
  assumes "wf_str s" "find_char CHR '' '' s = Some i"
  shows "is_char_boundary s i" "is_char_boundary s (Suc i)"
proof -
  have "i < length s" "is_ascii (s ! i)"
    using find_char_Some [OF assms(2)] space_ascii by auto
  then show "is_char_boundary s i" "is_char_boundary s (Suc i)"
    using assms(1) by (simp_all add: boundary_at_ascii boundary_after_ascii)
qed

lemma field_at_space:
  assumes "CHR '' '' \<notin> set f"
  shows "find_char CHR '' '' (f @ '' '' @ t) = Some (length f)"
  using find_char_append [OF assms, of t] by simp


lemma slice_at_space:
  assumes "wf_str s" "find_char CHR '' '' s = Some i"
  shows "slice_to s i = Ok (take i s)" "slice_from s (Suc i) = Ok (drop (Suc i) s)"
    "wf_str (drop (Suc i) s)"
  using boundaries_at_space [OF assms] wf_str_drop [OF assms(1)]
  by (auto simp: slice_to_def slice_from_def)

lemma split_mac_suffix_append:
  assumes "wf_str head"
  shows "split_mac_suffix (head @ '' M '' @ mac_to_hex m) = Ok (head, m)"
proof -
  have b: "is_char_boundary (head @ '' M '' @ mac_to_hex m) (length head)"
    using space_ascii by (intro boundary_at_ascii) (simp_all add: nth_append)
  have "is_char_boundary ('' M '' @ mac_to_hex m) 3"
    using mac_to_hex_ascii [of m]
    by (intro boundary_at_ascii) (simp_all add: list_all_length)
  with b show ?thesis
    by (simp add: split_mac_suffix_def MAC_SUFFIX_LEN_def MAC_HEX_LEN_def split_at_def
        slice_from_def starts_with_def)
qed

lemma split_mac_suffix_Ok:
  assumes "split_mac_suffix s = Ok (head, m)"
  shows "\<exists>h. s = head @ '' M '' @ h \<and> length h = 16 \<and> to_ascii_lowercase h = mac_to_hex m"
proof -
  let ?n = "length s - MAC_SUFFIX_LEN"
  have h: "head = take ?n s" "starts_with (drop ?n s) '' M ''"
    "parse_mac_hex (drop 3 (drop ?n s)) = Ok m"
    using assms by (auto simp: split_mac_suffix_def result_simps split: if_splits)
  have "s = head @ '' M '' @ drop 3 (drop ?n s)"
    using h(1,2) unfolding starts_with_def by (metis append_take_drop_id length_Cons list.size(3) numeral_3_eq_3)
  then show ?thesis using mac_hex_canonical [OF h(3)] by blast
qed

lemma split_mac_suffix_not_Panic:
  assumes "wf_str s"
  shows "split_mac_suffix s \<noteq> Panic"
proof
  assume p: "split_mac_suffix s = Panic"
  let ?n = "length s - MAC_SUFFIX_LEN"
  have len: "MAC_SUFFIX_LEN \<le> length s" and b: "is_char_boundary s ?n"
    using p by (auto simp: split_mac_suffix_def result_simps split: if_splits)
  with p have st: "starts_with (drop ?n s) '' M ''"
    and nb: "\<not> is_char_boundary (drop ?n s) 3"
    by (auto simp: split_mac_suffix_def result_simps parse_mac_hex_not_Panic split: if_splits)
  have "drop ?n s = '' M '' @ drop 3 (drop ?n s)"
    using st unfolding starts_with_def by (metis append_take_drop_id length_Cons list.size(3) numeral_3_eq_3)
  moreover have "list_all is_ascii '' M ''" by (simp add: is_ascii_def ord_def)
  ultimately have "is_char_boundary (drop ?n s) (length '' M '')"
    using boundary_after_prefix [of "'' M ''" "drop 3 (drop ?n s)"] wf_str_drop [OF assms b]
    by (metis list.distinct(1))
  with nb show False by (simp add: numeral_3_eq_3)
qed

lemma utf8_valid_space: "utf8_valid s \<Longrightarrow> utf8_valid (CHR '' '' # s)"
  using utf8_valid_ascii_append [of "'' ''" s] space_ascii by simp

section \<open>One format for both frames\<close>

locale tagged_frame =
  fixes lead :: char
    and tag :: str
    and show_head :: "'h \<Rightarrow> str"
    and parse_head :: "str \<Rightarrow> ('h \<times> str, framing_error) result"
    and encode :: "u8 list \<Rightarrow> 'h \<Rightarrow> str \<Rightarrow> str"
    and parse :: "str \<Rightarrow> ('h \<times> str \<times> u64, framing_error) result"
    and verify :: "(u64 \<Rightarrow> u64 \<Rightarrow> bool) \<Rightarrow> u8 list \<Rightarrow> str \<Rightarrow> ('h \<times> str, framing_error) result"
  assumes lead_ascii: "is_ascii lead"
    and show_head_ascii: "list_all is_ascii (show_head h)"
    and parse_show: "utf8_valid body \<Longrightarrow> parse_head (show_head h @ '' '' @ body) = Ok (h, body)"
    and parse_only: "parse_head s = Ok (h, body) \<Longrightarrow> s = show_head h @ '' '' @ body"
    and parse_head_total: "wf_str s \<Longrightarrow> parse_head s \<noteq> Panic"
    and encode_eq: "encode key h body = lead # '' '' @ show_head h @ '' '' @ body @ '' M ''
        @ mac_to_hex (siphash24 key (as_bytes (tag @ '' '' @ show_head h @ '' '' @ body)))"
    and parse_eq: "parse line =
        bind_r (ok_or (strip_prefix line (lead # '' '')) (WrongLeader lead)) (\<lambda>rest.
          bind_r (split_mac_suffix rest) (\<lambda>(head, mac).
            bind_r (parse_head head) (\<lambda>(h, body). Ok (h, body, mac))))"
    and verify_eq: "verify ct key line =
        bind_r (parse line) (\<lambda>(h, body, claimed).
          if \<not> ct (siphash24 key (as_bytes (tag @ '' '' @ show_head h @ '' '' @ body))) claimed
          then Err MacMismatch else Ok (h, body))"
begin

lemma head_wf: "utf8_valid body \<Longrightarrow> wf_str (show_head h @ '' '' @ body)"
  by (rule utf8_valid_wf)
    (simp add: utf8_valid_ascii_append show_head_ascii utf8_valid_space)

lemma parse_encode:
  assumes "utf8_valid body"
  shows "parse (encode key h body) =
    Ok (h, body, siphash24 key (as_bytes (tag @ '' '' @ show_head h @ '' '' @ body)))"
proof -
  let ?m = "siphash24 key (as_bytes (tag @ '' '' @ show_head h @ '' '' @ body))"
  have "encode key h body
      = (lead # '' '') @ (show_head h @ '' '' @ body) @ '' M '' @ mac_to_hex ?m"
    by (simp add: encode_eq)
  then show ?thesis
    unfolding parse_eq
    by (simp only: strip_prefix_append ok_or.simps bind_r.simps case_prod_conv
        split_mac_suffix_append [OF head_wf [OF assms]] parse_show [OF assms])
qed

lemma verify_encode:
  assumes "utf8_valid body" "ct_eq_law ct"
  shows "verify ct key (encode key h body) = Ok (h, body)"
  using ct_eq_lawD [OF assms(2)] by (simp add: verify_eq parse_encode [OF assms(1)])

text \<open>An accepted line is the frame of what it was read as, up to the case of the MAC's digits.\<close>

lemma verify_only:
  assumes "verify ct key line = Ok (h, body)" "ct_eq_law ct"
  shows "\<exists>hex. line = lead # '' '' @ show_head h @ '' '' @ body @ '' M '' @ hex
      \<and> length hex = 16
      \<and> to_ascii_lowercase hex
          = mac_to_hex (siphash24 key (as_bytes (tag @ '' '' @ show_head h @ '' '' @ body)))"
proof -
  let ?mac = "siphash24 key (as_bytes (tag @ '' '' @ show_head h @ '' '' @ body))"
  obtain rest head where r: "line = (lead # '' '') @ rest"
    and s: "split_mac_suffix rest = Ok (head, ?mac)" and p: "parse_head head = Ok (h, body)"
    using assms(1) ct_eq_lawD [OF assms(2)]
    by (auto simp: verify_eq parse_eq result_simps strip_prefix_Some split: prod.splits if_splits)
  obtain hex where "rest = head @ '' M '' @ hex" "length hex = 16"
    "to_ascii_lowercase hex = mac_to_hex ?mac"
    using split_mac_suffix_Ok [OF s] by blast
  then show ?thesis using r parse_only [OF p] by auto
qed

lemma verify_not_Panic:
  assumes "utf8_valid line"
  shows "verify ct key line \<noteq> Panic"
proof
  assume "verify ct key line = Panic"
  then have "parse line = Panic"
    by (auto simp: verify_eq result_simps split: prod.splits if_splits)
  then obtain rest where r: "line = (lead # '' '') @ rest"
    and p: "split_mac_suffix rest = Panic \<or>
      (\<exists>head mac. split_mac_suffix rest = Ok (head, mac) \<and> parse_head head = Panic)"
    by (auto simp: parse_eq result_simps strip_prefix_Some split: prod.splits)
  have wf: "wf_str line" using assms by (rule utf8_valid_wf)
  have "is_char_boundary line 2"
    using boundary_after_prefix [of "lead # '' ''" rest] wf lead_ascii space_ascii
    by (simp add: r numeral_2_eq_2)
  then have rest: "wf_str rest" using wf_str_drop [OF wf, of 2] by (simp add: r)
  from p obtain head mac where "split_mac_suffix rest = Ok (head, mac)" "parse_head head = Panic"
    using split_mac_suffix_not_Panic [OF rest] by blast
  moreover from this have "wf_str head"
    using split_mac_suffix_Ok [of rest head mac] wf_str_take [OF rest, of "length head"] by auto
  ultimately show False using parse_head_total by blast
qed

end

lemma split_counter_body_show:
  assumes "utf8_valid body"
  shows "split_counter_body (show_u64 c @ '' '' @ body) = Ok (c, body)"
proof -
  have wf: "wf_str (show_u64 c @ '' '' @ body)"
    by (rule utf8_valid_wf) (simp add: utf8_valid_ascii_append show_u64_ascii utf8_valid_space assms)
  have f: "find_char CHR '' '' (show_u64 c @ '' '' @ body) = Some (length (show_u64 c))"
    by (rule field_at_space [OF show_u64_no_space])
  have "parse_strict_u64 (show_u64 c) = Some c" by (simp add: parse_strict_u64_iff)
  then show ?thesis
    unfolding split_counter_body_def f by (simp add: slice_at_space [OF wf f, simplified])
qed

lemma split_counter_body_Ok:
  assumes "split_counter_body s = Ok (c, body)"
  shows "s = show_u64 c @ '' '' @ body"
  using assms find_char_SomeD [of "CHR '' ''" s]
  by (auto simp: split_counter_body_def result_simps parse_strict_u64_iff)

lemma split_counter_body_not_Panic: "wf_str s \<Longrightarrow> split_counter_body s \<noteq> Panic"
  using boundaries_at_space [of s] by (auto simp: split_counter_body_def result_simps)

lemma split_counter_seq_body_show:
  assumes "utf8_valid body"
  shows "split_counter_seq_body (show_u64 c @ '' '' @ show_u32 q @ '' '' @ body) = Ok ((c, q), body)"
proof -
  let ?t = "show_u32 q @ '' '' @ body"
  have vt: "utf8_valid ?t"
    by (simp add: utf8_valid_ascii_append show_u32_ascii utf8_valid_space assms)
  then have wf: "wf_str (show_u64 c @ '' '' @ ?t)" "wf_str ?t"
    by (auto intro!: utf8_valid_wf simp: utf8_valid_ascii_append show_u64_ascii utf8_valid_space)
  have f: "find_char CHR '' '' (show_u64 c @ '' '' @ ?t) = Some (length (show_u64 c))"
    "find_char CHR '' '' ?t = Some (length (show_u32 q))"
    by (rule field_at_space [OF show_u64_no_space] field_at_space [OF show_u32_no_space])+
  have p: "parse_strict_u64 (show_u64 c) = Some c" "parse_strict_u32 (show_u32 q) = Some q"
    by (simp_all add: parse_strict_u64_iff parse_strict_u32_iff)
  show ?thesis
    unfolding split_counter_seq_body_def f
    by (simp add: slice_at_space [OF wf(1) f(1), simplified] slice_at_space [OF wf(2) f(2), simplified] p
        f [simplified])
qed

lemma split_counter_seq_body_Ok:
  assumes "split_counter_seq_body s = Ok ((c, q), body)"
  shows "s = show_u64 c @ '' '' @ show_u32 q @ '' '' @ body"
proof -
  obtain i j where i: "find_char CHR '' '' s = Some i" and c: "take i s = show_u64 c"
    and j: "find_char CHR '' '' (drop (Suc i) s) = Some j"
    and q: "take j (drop (Suc i) s) = show_u32 q" and b: "body = drop (Suc j) (drop (Suc i) s)"
    using assms
    by (auto simp: split_counter_seq_body_def result_simps parse_strict_u64_iff parse_strict_u32_iff)
  show ?thesis
    using find_char_SomeD [OF i] find_char_SomeD [OF j] c q b by (metis append_Cons append_Nil)
qed

lemma split_counter_seq_body_not_Panic: "wf_str s \<Longrightarrow> split_counter_seq_body s \<noteq> Panic"
  using boundaries_at_space [of s] boundaries_at_space slice_at_space(3) [of s]
  by (auto simp: split_counter_seq_body_def result_simps)

section \<open>Both frames are instances\<close>

interpretation cmd: tagged_frame "CHR ''C''" "''CMD''" show_u64 split_counter_body
  encode_command parse_command verify_command
proof
  show "is_ascii CHR ''C''" by (simp add: is_ascii_def ord_def)
next
  fix key h body
  show "encode_command key h body = CHR ''C'' # '' '' @ show_u64 h @ '' '' @ body @ '' M ''
      @ mac_to_hex (siphash24 key (as_bytes (''CMD'' @ '' '' @ show_u64 h @ '' '' @ body)))"
    by (simp add: encode_command_def cmd_mac_input_def)
next
  fix ct key line
  show "verify_command ct key line =
      bind_r (parse_command line) (\<lambda>(h, body, claimed).
        if \<not> ct (siphash24 key (as_bytes (''CMD'' @ '' '' @ show_u64 h @ '' '' @ body))) claimed
        then Err MacMismatch else Ok (h, body))"
    by (simp add: verify_command_def cmd_mac_input_def)
qed (auto simp: show_u64_ascii split_counter_body_show [simplified]
    split_counter_body_not_Panic parse_command_def dest: split_counter_body_Ok)

definition show_counter_seq :: "u64 \<times> u32 \<Rightarrow> str" where
  "show_counter_seq h = show_u64 (fst h) @ '' '' @ show_u32 (snd h)"

interpretation rsp: tagged_frame "CHR ''R''" "''RSP''" show_counter_seq split_counter_seq_body
  "\<lambda>key h. encode_response key (fst h) (snd h)"
  "\<lambda>line. map_r (\<lambda>(c, q, body, mac). ((c, q), body, mac)) (parse_response line)"
  "\<lambda>ct key line. map_r (\<lambda>(c, q, body). ((c, q), body)) (verify_response ct key line)"
proof
  show "is_ascii CHR ''R''" by (simp add: is_ascii_def ord_def)
next
  fix h show "list_all is_ascii (show_counter_seq h)"
    by (simp add: show_counter_seq_def show_u64_ascii show_u32_ascii space_ascii)
next
  fix key h body
  show "encode_response key (fst h) (snd h) body
    = CHR ''R'' # '' '' @ show_counter_seq h @ '' '' @ body @ '' M ''
      @ mac_to_hex (siphash24 key (as_bytes (''RSP'' @ '' '' @ show_counter_seq h @ '' '' @ body)))"
    by (simp add: encode_response_def rsp_mac_input_def show_counter_seq_def)
next
  fix ct key line
  show "map_r (\<lambda>(c, q, body). ((c, q), body)) (verify_response ct key line) =
      bind_r (map_r (\<lambda>(c, q, body, mac). ((c, q), body, mac)) (parse_response line))
        (\<lambda>(h, body, claimed).
          if \<not> ct (siphash24 key (as_bytes (''RSP'' @ '' '' @ show_counter_seq h @ '' '' @ body)))
              claimed
          then Err MacMismatch else Ok (h, body))"
    by (cases "parse_response line")
      (auto simp: verify_response_def rsp_mac_input_def show_counter_seq_def)
next
  fix line
  show "map_r (\<lambda>(c, q, body, mac). ((c, q), body, mac)) (parse_response line) =
      bind_r (ok_or (strip_prefix line (CHR ''R'' # '' '')) (WrongLeader CHR ''R'')) (\<lambda>rest.
        bind_r (split_mac_suffix rest) (\<lambda>(head, mac).
          bind_r (split_counter_seq_body head) (\<lambda>(h, body). Ok (h, body, mac))))"
    unfolding parse_response_def
    by (cases "strip_prefix line ''R ''"; simp)
      (auto split: prod.splits simp: map_r_bind_r intro!: bind_r_cong)
qed (auto simp: show_counter_seq_def split_counter_seq_body_show [simplified] split_counter_seq_body_not_Panic
    dest: split_counter_seq_body_Ok)

section \<open>What the frames guarantee\<close>

lemma find_space_unique:
  assumes "a @ '' '' @ s = b @ '' '' @ t" "CHR '' '' \<notin> set a" "CHR '' '' \<notin> set b"
  shows "a = b \<and> s = t"
proof -
  have "length a = length b"
    using field_at_space [OF assms(2), of s] field_at_space [OF assms(3), of t] assms(1) by simp
  with assms(1) show ?thesis by auto
qed

lemma cmd_mac_input_inject:
  "cmd_mac_input c l = cmd_mac_input c' l' \<longleftrightarrow> c = c' \<and> l = l'"
  using find_space_unique [of "show_u64 c" l "show_u64 c'" l']
  by (auto simp: cmd_mac_input_def show_u64_no_space show_u64_inject)

lemma rsp_mac_input_inject:
  "rsp_mac_input c q b = rsp_mac_input c' q' b' \<longleftrightarrow> c = c' \<and> q = q' \<and> b = b'"
  using find_space_unique [of "show_u64 c" "show_u32 q @ '' '' @ b" "show_u64 c'" "show_u32 q' @ '' '' @ b'"]
    find_space_unique [of "show_u32 q" b "show_u32 q'" b']
  by (auto simp: rsp_mac_input_def show_u64_no_space show_u64_inject show_u32_no_space
      show_u32_inject)

text \<open>
  Claim C15. A command frame read by a verifier with the same key yields the counter and the line
  it was made of, for every line of the program (a Rust string is well-formed UTF-8).
\<close>

theorem command_roundtrip:
  assumes "utf8_valid cmd_line" "ct_eq_law ct"
  shows "verify_command ct key (encode_command key counter cmd_line) = Ok (counter, cmd_line)"
  by (rule cmd.verify_encode [OF assms])

theorem command_roundtrip_witness:
  "verify_command (=) (replicate 16 7) (encode_command (replicate 16 7) 42 ''delete 7'') = Ok (42, ''delete 7'')"
  by (rule command_roundtrip) (simp_all add: ct_eq_law_def ascii_utf8_valid is_ascii_def ord_def)

text \<open>
  A response frame read by a verifier with the same key yields the counter, the sequence
  number and the body it was made of.
\<close>

theorem response_roundtrip:
  assumes "utf8_valid body" "ct_eq_law ct"
  shows "verify_response ct key (encode_response key counter seq body) = Ok (counter, seq, body)"
  using rsp.verify_encode [OF assms, of key "(counter, seq)"] by (auto simp: result_simps)

theorem response_roundtrip_witness:
  "verify_response (=) (replicate 16 7) (encode_response (replicate 16 7) 42 7 ''OK slot=7'')
     = Ok (42, 7, ''OK slot=7'')"
  by (rule response_roundtrip) (simp_all add: ct_eq_law_def ascii_utf8_valid is_ascii_def ord_def)

text \<open>
  There is one frame for a counter, a sequence number and a body: a line that passes
  \<open>verify_response\<close> is the frame the peer would write for what was read, with the MAC of exactly
  these three fields, except that the sixteen MAC digits may be in either case. In particular no
  leading zero, sign or extra space survives.
\<close>

theorem response_canonical:
  assumes "verify_response ct key line = Ok (counter, seq, body)" "ct_eq_law ct"
  shows "\<exists>hex. line = ''R '' @ show_u64 counter @ '' '' @ show_u32 seq @ '' '' @ body @ '' M '' @ hex
    \<and> length hex = 16
    \<and> to_ascii_lowercase hex
        = mac_to_hex (siphash24 key (as_bytes (rsp_mac_input counter seq body)))"
  using rsp.verify_only [of ct key line "(counter, seq)" body] assms
  by (auto simp: show_counter_seq_def rsp_mac_input_def)

theorem response_canonical_witness:
  "\<exists>hex. encode_response (replicate 16 7) 42 7 ''OK'' = ''R '' @ show_u64 42 @ '' '' @ show_u32 7 @ '' '' @ ''OK''
      @ '' M '' @ hex
    \<and> length hex = 16
    \<and> to_ascii_lowercase hex
        = mac_to_hex (siphash24 (replicate 16 7) (as_bytes (rsp_mac_input 42 7 ''OK'')))"
proof (rule response_canonical [of "(=)"])
  show "verify_response (=) (replicate 16 7) (encode_response (replicate 16 7) 42 7 ''OK'') = Ok (42, 7, ''OK'')"
    using rsp.verify_encode [of "''OK''" "(=)" "(replicate 16 7)" "(42, 7)"]
    by (auto simp: result_simps ct_eq_law_def ascii_utf8_valid is_ascii_def ord_def)
qed (simp add: ct_eq_law_def)

text \<open>
  What a MAC is computed over determines the frame: the inputs of two commands agree only
  for the same counter and line, those of two responses only for the same counter, sequence number
  and body, and no command's input is a response's, so a frame cannot be reflected.
\<close>

theorem mac_inputs_separate:
  "((cmd_mac_input c l = cmd_mac_input c' l') = (c = c' \<and> l = l'))
    \<and> ((rsp_mac_input c q b = rsp_mac_input c' q' b') = (c = c' \<and> q = q' \<and> b = b'))
    \<and> cmd_mac_input c l \<noteq> rsp_mac_input c' q' b'"
  by (simp_all add: cmd_mac_input_inject rsp_mac_input_inject)
    (simp add: cmd_mac_input_def rsp_mac_input_def)

text \<open>
  Claim C39. Neither verifier panics on any line, whatever the peer sent: every slice is taken at a
  character boundary.
\<close>

theorem verifiers_never_panic:
  assumes "utf8_valid line"
  shows "verify_command ct key line \<noteq> Panic \<and> verify_response ct key line \<noteq> Panic"
  using cmd.verify_not_Panic [OF assms, of ct key] rsp.verify_not_Panic [OF assms, of ct key]
  by (auto simp: result_simps)

theorem verifiers_never_panic_witness:
  "verify_command (=) [] ''R 1'' \<noteq> Panic \<and> verify_response (=) [] ''R 1'' \<noteq> Panic"
  by (rule verifiers_never_panic) (simp add: ascii_utf8_valid is_ascii_def ord_def)

text \<open>
  The strict decimal parser accepts exactly what the formatter writes, so a counter has
  one spelling on the wire; the sequence number is parsed the same way and bounded to 32 bits.
\<close>

theorem strict_parsers_canonical:
  "((parse_strict_u64 s = Some v) = (s = show_u64 v))
    \<and> ((parse_strict_u32 t = Some w) = (t = show_u32 w))"
  by (simp add: parse_strict_u64_iff parse_strict_u32_iff)

end
