(* ===== verification/Siphash_Kat.thy ===== *)
theory Siphash_Kat
  imports Siphash
begin

unbundle bit_operations_syntax

text \<open>
  The known answers of SipHash-2-4, evaluated by the simplifier. Each vector is a chain of rounds on
  numerals; the rounds are the facts \<open>kat_rounds_\<close>, and a vector is then the evaluation of
  \<open>siphash24\<close> over them. \<open>rotl64_norm\<close> is the form of a rotation that the simplifier computes
  without letting the numerals grow.
\<close>

lemma rotl64_eq:
  assumes "0 < b" "b < 64" shows "rotl64 x b = push_bit b x OR drop_bit (64 - b) x"
proof (rule bit_eqI)
  fix n assume "possible_bit TYPE(u64) n"
  then have n: "n < 64" by simp
  have m: "(n + 64 - b) mod 64 = (if n < b then n + 64 - b else n - b)"
  proof (cases "n < b")
    case False
    then have "(n + 64 - b) mod 64 = ((n - b) + 64) mod 64" by simp
    also have "\<dots> = n - b" using n by (simp only: mod_add_self2) simp
    finally show ?thesis using False by simp
  qed (use assms in simp)
  then show "bit (rotl64 x b) n = bit (push_bit b x OR drop_bit (64 - b) x) n"
    using assms n bit_imp_le_length [of x "n + 64 - b"]
    by (simp add: rotl64_def bit_simps add.commute [of 64]) auto
qed

lemma rotl64_norm:
  "0 < b \<Longrightarrow> b < 64 \<Longrightarrow>
     rotl64 x b = push_bit b (take_bit (64 - b) x) OR drop_bit (64 - b) x"
  by (subst rotl64_eq) (auto intro!: bit_eqI simp: bit_simps)

lemma sipround_step:
  "sipround (a, b, c, d) =
     (let v0 = a + b; v1 = rotl64 b 13 XOR v0; v2 = c + d; v3 = rotl64 d 16 XOR v2;
          w0 = rotl64 v0 32 + v3; w3 = rotl64 v3 21 XOR w0; w2 = v2 + v1;
          w1 = rotl64 v1 17 XOR w2
      in (w0, w1, rotl64 w2 32, w3))"
  by (simp add: sipround_def Let_def)

text \<open>The key of the vectors is the bytes 0 to 15; the message of length \<open>n\<close> the first \<open>n\<close> of them.\<close>

definition kat_key :: "u8 list" where
  "kat_key = [0, 1, 2, 3, 4, 5, 6, 7, 8, 9, 10, 11, 12, 13, 14, 15]"

definition kat_msg :: "nat \<Rightarrow> u8 list" where
  "kat_msg n = take n kat_key"

lemma kat_msgs:
  "kat_msg 0 = []" "kat_msg 1 = [0]" "kat_msg 8 = [0, 1, 2, 3, 4, 5, 6, 7]"
  "kat_msg 15 = [0, 1, 2, 3, 4, 5, 6, 7, 8, 9, 10, 11, 12, 13, 14]"
  by (simp_all add: kat_msg_def kat_key_def)

lemma sip_init_kat:
  "sip_init kat_key =
     (0x7469686173716475, 0x6b617f6d656e6665, 0x6b7f62616d677361, 0x7b6b696e727e6c7b)"
  by (simp add: sip_init_def kat_key_def load_u64_le_def)

lemma kat_rounds_0:
  "sipround (0x7469686173716475, 0x6b617f6d656e6665, 0x6b7f62616d677361, 0x7b6b696e727e6c7b) =
     (0x6864848c93698c85, 0x41d43f143c94a7dc, 0xf3f94792d7121732, 0x5e52f75805987c12)"
  "sipround (0x6864848c93698c85, 0x41d43f143c94a7dc, 0xf3f94792d7121732, 0x5e52f75805987c12) =
     (0x75126fd44af190b6, 0x84235164f06142b, 0x37b04f9f8026831d, 0x1b4678cde8253231)"
  "sipround (0x75126fd44af190b6, 0x84235164f06142b, 0x37b04f9f802683e2, 0x1b4678cde8253231) =
     (0xc432c529d7cf523f, 0x54f98392486c0c10, 0xc3be7bfc8eed3577, 0xcd398a7c7d6a155b)"
  "sipround (0xc432c529d7cf523f, 0x54f98392486c0c10, 0xc3be7bfc8eed3577, 0xcd398a7c7d6a155b) =
     (0x3abfd9623238d0a7, 0xb9354b5807b0cd1e, 0xae109fa2ba56082a, 0x58dcf8f2cf5b8028)"
  "sipround (0x3abfd9623238d0a7, 0xb9354b5807b0cd1e, 0xae109fa2ba56082a, 0x58dcf8f2cf5b8028) =
     (0x3808f593fd8ef548, 0x2913fc753c3d6609, 0xa9fbd335618bbce1, 0xc1c9c6a9ec5136a2)"
  "sipround (0x3808f593fd8ef548, 0x2913fc753c3d6609, 0xa9fbd335618bbce1, 0xc1c9c6a9ec5136a2) =
     (0xe738d0dfdc9b2453, 0x214ac5771e0c4cd2, 0xe2ea71f68a57ef6d, 0x56f7bf1995ce89dd)"
  by (simp_all add: sipround_step rotl64_norm)

lemma kat_0: "siphash24 kat_key (kat_msg 0) = 0x726fdb47dd0e0e31"
  unfolding kat_msgs
  by (simp add: siphash24_def sip_init_kat sip_last_def sip_absorb_def sip_finish_def
      load_u64_le_def kat_rounds_0 upt_conv_Cons)

lemma kat_rounds_1:
  "sipround (0x7469686173716475, 0x6b617f6d656e6665, 0x6b7f62616d677361, 0x7a6b696e727e6c7b) =
     (0x6564848c93698d85, 0x40d43f143c94a7dc, 0xf3f94792d6121732, 0x5352f75825981d12)"
  "sipround (0x6564848c93698d85, 0x40d43f143c94a7dc, 0xf3f94792d6121732, 0x5352f75825981d12) =
     (0x801250d48cf12ab6, 0xe14235162c59b20b, 0x56aff1bf6926831d, 0xee4e87d86e272835)"
  "sipround (0x811250d48cf12ab6, 0xe14235162c59b20b, 0x56aff1bf692683e2, 0xee4e87d86e272835) =
     (0x7c70f47261ccc843, 0xe937a7ee278b04ec, 0x66594d0069f4b9f9, 0x8a6f1b7a2af4ac81)"
  "sipround (0x7c70f47261ccc843, 0xe937a7ee278b04ec, 0x66594d0069f4b9f9, 0x8a6f1b7a2af4ac81) =
     (0x750a0fbd9e118875, 0x333e1298dea09429, 0x7eb3b683821dc10c, 0x24cd02a01cacfe3d)"
  "sipround (0x750a0fbd9e118875, 0x333e1298dea09429, 0x7eb3b683821dc10c, 0x24cd02a01cacfe3d) =
     (0x1dd2c22e093fbdda, 0x7e9f2ec878f32e74, 0xd01fa420d9bf2a6, 0xac3edcdd79ab99ce)"
  "sipround (0x1dd2c22e093fbdda, 0x7e9f2ec878f32e74, 0xd01fa420d9bf2a6, 0xac3edcdd79ab99ce) =
     (0xe7d09b02bafb1140, 0xcd3818f0a8790340, 0x6f43f01132e9d708, 0x31534a26b3b7a2f5)"
  by (simp_all add: sipround_step rotl64_norm)

lemma kat_1: "siphash24 kat_key (kat_msg 1) = 0x74f839c593dc67fd"
  unfolding kat_msgs
  by (simp add: siphash24_def sip_init_kat sip_last_def sip_absorb_def sip_finish_def
      load_u64_le_def kat_rounds_1 upt_conv_Cons)

lemma kat_rounds_8:
  "sipround (0x7469686173716475, 0x6b617f6d656e6665, 0x6b7f62616d677361, 0x7c6d6c6a717c6d7b) =
     (0x64668a929363847f, 0x4ed232083d9aa8dc, 0xf2f74892d8141a2e, 0x9290f9810552f4a8)"
  "sipround (0x64668a929363847f, 0x4ed232083d9aa8dc, 0xf2f74892d8141a2e, 0x9290f9810552f4a8) =
     (0x4d07749cdd0858e0, 0xd52f6f62a4f59a4, 0x634cb3577b01fd3d, 0xa5224d6f55c7d9c8)"
  "sipround (0x4a017198de0a59e0, 0xd52f6f62a4f59a4, 0x634cb3577b01fd3d, 0xad224d6f55c7d9c8) =
     (0x655a08856055e2b6, 0x42746857d06b1a26, 0xb437093319f9ae8d, 0xc57b28aa24be42bc)"
  "sipround (0x655a08856055e2b6, 0x42746857d06b1a26, 0xb437093319f9ae8d, 0xc57b28aa24be42bc) =
     (0x81d9124023d9a50f, 0xb1d61ba5fb187052, 0x923c25dba476bcad, 0x2db69326a593860d)"
  "sipround (0x89d9124023d9a50f, 0xb1d61ba5fb187052, 0x923c25dba476bc52, 0x2db69326a593860d) =
     (0x4bc631f307b69dcf, 0x9dc46a77ddb5740d, 0x5b0285bab8ce4b87, 0xd9ffb11efa93074c)"
  "sipround (0x4bc631f307b69dcf, 0x9dc46a77ddb5740d, 0x5b0285bab8ce4b87, 0xd9ffb11efa93074c) =
     (0x6988de279db82796, 0x567e096ebb863cbf, 0xff4ef53799c69eb5, 0xe0de5b96f828a40f)"
  "sipround (0x6988de279db82796, 0x567e096ebb863cbf, 0xff4ef53799c69eb5, 0xe0de5b96f828a40f) =
     (0x14fa0d3bf5e789b0, 0x8095bce62dacd308, 0x3098d15ee15881b5, 0x83cb12fb6b0fec5)"
  "sipround (0x14fa0d3bf5e789b0, 0x8095bce62dacd308, 0x3098d15ee15881b5, 0x83cb12fb6b0fec5) =
     (0xad8e90f6fc5c5268, 0x45c7e1ccc8aa8902, 0x51fecd245ae89226, 0x2a424967f48d6d2e)"
  by (simp_all add: sipround_step rotl64_norm)

lemma kat_8: "siphash24 kat_key (kat_msg 8) = 0x93f5f5799a932462"
  unfolding kat_msgs
  by (simp add: siphash24_def sip_init_kat sip_last_def sip_absorb_def sip_finish_def
      load_u64_le_def kat_rounds_8 upt_conv_Cons)

lemma kat_rounds_15:
  "sipround (0x7469686173716475, 0x6b617f6d656e6665, 0x6b7f62616d677361, 0x7c6d6c6a717c6d7b) =
     (0x64668a929363847f, 0x4ed232083d9aa8dc, 0xf2f74892d8141a2e, 0x9290f9810552f4a8)"
  "sipround (0x64668a929363847f, 0x4ed232083d9aa8dc, 0xf2f74892d8141a2e, 0x9290f9810552f4a8) =
     (0x4d07749cdd0858e0, 0xd52f6f62a4f59a4, 0x634cb3577b01fd3d, 0xa5224d6f55c7d9c8)"
  "sipround (0x4a017198de0a59e0, 0xd52f6f62a4f59a4, 0x634cb3577b01fd3d, 0xaa2c40635ecdd0c0) =
     (0x557560fb6063d060, 0x4c8e675bd961133e, 0xbd3d002b1703a181, 0xfb9441179a4a7315)"
  "sipround (0x557560fb6063d060, 0x4c8e675bd961133e, 0xbd3d002b1703a181, 0xfb9441179a4a7315) =
     (0x338bbea7645fb759, 0x414fc3fb98efe374, 0xccf13ea527b9f4bd, 0x5293f5da84008f82)"
  "sipround (0x3c85b3ab6f55be51, 0x414fc3fb98efe374, 0xccf13ea527b9f442, 0x5293f5da84008f82) =
     (0xf2a55244a20e48fe, 0xac5ad16ccc3ca6e4, 0x9fe5adb0a52f393a, 0xfd41d55e88f30308)"
  "sipround (0xf2a55244a20e48fe, 0xac5ad16ccc3ca6e4, 0x9fe5adb0a52f393a, 0xfd41d55e88f30308) =
     (0xb6c3fbdecc2ae4b4, 0x1638c86adc6b3cf0, 0x28b8b6ab62553d46, 0xc9465e86ec43eb95)"
  "sipround (0xb6c3fbdecc2ae4b4, 0x1638c86adc6b3cf0, 0x28b8b6ab62553d46, 0xc9465e86ec43eb95) =
     (0x58101b167209a5e6, 0xf8792ae75b66e7dd, 0x1da14c3ec7f0b4f7, 0x7624ba8a41bc4ad9)"
  "sipround (0x58101b167209a5e6, 0xf8792ae75b66e7dd, 0x1da14c3ec7f0b4f7, 0x7624ba8a41bc4ad9) =
     (0xf6bcd53893fecff1, 0x54b9964c7ea0d937, 0x1b38329c099bb55a, 0x1814bb89ad7be679)"
  by (simp_all add: sipround_step rotl64_norm)

lemma kat_15: "siphash24 kat_key (kat_msg 15) = 0xa129ca6149be45e5"
  unfolding kat_msgs
  by (simp add: siphash24_def sip_init_kat sip_last_def sip_absorb_def sip_finish_def
      load_u64_le_def kat_rounds_15 upt_conv_Cons)

text \<open>
  The published SipHash-2-4 vectors for messages of 0, 1, 8 and 15 bytes, in wire order:
  the ones the tests of \<open>crypto.rs\<close> and the boot self-test of the firmware check.
\<close>

theorem siphash24_known_answers:
  "mac_to_le_bytes (siphash24 kat_key (kat_msg 0))
     = [0x31, 0x0e, 0x0e, 0xdd, 0x47, 0xdb, 0x6f, 0x72]
   \<and> mac_to_le_bytes (siphash24 kat_key (kat_msg 1))
     = [0xfd, 0x67, 0xdc, 0x93, 0xc5, 0x39, 0xf8, 0x74]
   \<and> mac_to_le_bytes (siphash24 kat_key (kat_msg 8))
     = [0x62, 0x24, 0x93, 0x9a, 0x79, 0xf5, 0xf5, 0x93]
   \<and> mac_to_le_bytes (siphash24 kat_key (kat_msg 15))
     = [0xe5, 0x45, 0xbe, 0x49, 0x61, 0xca, 0x29, 0xa1]"
  by (simp only: kat_0 kat_1 kat_8 kat_15) (simp add: mac_to_le_bytes_unfold)

end
