(* ===== verification/World.thy ===== *)
theory World
  imports Rust_Std
begin

unbundle bit_operations_syntax

text \<open>
  The world the daemon runs in, and the way its functions act on it.

  A method or function with effects is a map from a state to a result and the next state (\<open>io\<close>).
  The state is a \<open>world\<close>, or a pair of the object a method belongs to and a \<open>world\<close>. The world
  holds the file system, what was written to the serial port, what was sent on the progress channels
  and the clock. Everything the program
  does not decide is in the environment \<open>env\<close>: the n-th call (\<open>w_tick\<close> counts them) may take any
  time, may fail with any error, may be the one at which the process dies (a crash: the result is
  \<open>Panic\<close> and \<open>w_crashed\<close> is set), and may find that other processes have changed files. What the
  port delivers is the environment's too. A theorem for every environment therefore covers every
  schedule of faults, and a crash at every call is one of them.

  File systems: a map from paths to files, directories and symbolic links. The last component of a
  path is resolved through links (at most 40, as the kernel does); links among the parents,
  permission checks and the loss of unsynced data in a power failure are not modelled (a refused
  call is a fault of the environment). Instants are nanoseconds; a read of the port takes at least
  one, so the clock moves on in every loop that waits for input.
\<close>

named_theorems io_rules \<open>rules for triples, one for every primitive operation\<close>

section \<open>Errors\<close>

datatype io_kind =
    NotFound | PermissionDenied | AlreadyExists | NotConnected | BrokenPipe | UnexpectedEof
  | TimedOut | InvalidData | IsADirectory | NotADirectory | FilesystemLoop | Other | Uncategorized

datatype io_error = Io_error (err_kind: io_kind) (err_msg: str)

text \<open>
  \<open>anyhow::Error\<close>: a message, an error it was made of, or a context around another. Messages keep
  their fixed text; values formatted into them are left out unless the program reads them back.
\<close>

datatype any_error = Msg str | From_io io_error | From_json | Context str any_error

section \<open>The world\<close>

text \<open>Permission bits, named by their octal digits.\<close>

abbreviation o777 :: u32 where "o777 \<equiv> 511"
abbreviation o700 :: u32 where "o700 \<equiv> 448"
abbreviation o600 :: u32 where "o600 \<equiv> 384"
abbreviation o400 :: u32 where "o400 \<equiv> 256"
abbreviation o177 :: u32 where "o177 \<equiv> 127"
abbreviation o077 :: u32 where "o077 \<equiv> 63"

datatype node = File "u8 list" u32 u32 | Dir u32 u32 | Link str

type_synonym fs = "str \<Rightarrow> node option"

datatype fault = Fail io_error nat | Crash nat

record env =
  e_dur :: "nat \<Rightarrow> nat"
  e_fault :: "nat \<Rightarrow> fault option"
  e_other :: "nat \<Rightarrow> fs \<Rightarrow> fs"
  e_read :: "nat \<Rightarrow> (u8 list, io_error) result"
  e_dev :: "nat \<Rightarrow> str list"
  e_umask :: u32

record world =
  w_env :: env
  w_tick :: nat
  w_now :: nat
  w_fs :: fs
  w_wire :: "(u8 list \<times> nat) list"
  w_progress :: "(nat \<times> str) list"
  w_crashed :: bool

section \<open>Computations\<close>

type_synonym ('s, 'a, 'e) io = "'s \<Rightarrow> ('a, 'e) result \<times> 's"

definition return_io :: "'a \<Rightarrow> ('s, 'a, 'e) io" where
  "return_io x s = (Ok x, s)"

definition fail_io :: "'e \<Rightarrow> ('s, 'a, 'e) io" where
  "fail_io e s = (Err e, s)"

definition panic_io :: "('s, 'a, 'e) io" where
  "panic_io s = (Panic, s)"

text \<open>Sequencing with the \<open>?\<close> operator: an error or a panic ends the computation.\<close>

definition bind_io :: "('s, 'a, 'e) io \<Rightarrow> ('a \<Rightarrow> ('s, 'b, 'e) io) \<Rightarrow> ('s, 'b, 'e) io" where
  "bind_io m f s =
     (case m s of (Ok x, s') \<Rightarrow> f x s' | (Err e, s') \<Rightarrow> (Err e, s') | (Panic, s') \<Rightarrow> (Panic, s'))"

text \<open>A call whose \<open>Result\<close> the caller looks at itself: only a panic passes through.\<close>

definition match_io ::
  "('s, 'a, 'e) io \<Rightarrow> ('a \<Rightarrow> ('s, 'b, 'f) io) \<Rightarrow> ('e \<Rightarrow> ('s, 'b, 'f) io) \<Rightarrow> ('s, 'b, 'f) io"
where
  "match_io m f g s =
     (case m s of (Ok x, s') \<Rightarrow> f x s' | (Err e, s') \<Rightarrow> g e s' | (Panic, s') \<Rightarrow> (Panic, s'))"

definition map_err_io :: "('e \<Rightarrow> 'f) \<Rightarrow> ('s, 'a, 'e) io \<Rightarrow> ('s, 'a, 'f) io" where
  "map_err_io g m s = (map_err g (fst (m s)), snd (m s))"

text \<open>\<open>let _ = m\<close> and \<open>m.ok()\<close>: the error is dropped.\<close>

definition ignore_io :: "('s, 'a, 'e) io \<Rightarrow> ('s, unit, 'f) io" where
  "ignore_io m = match_io m (\<lambda>_. return_io ()) (\<lambda>_. return_io ())"

definition ok_io :: "('s, 'a, 'e) io \<Rightarrow> ('s, 'a option, 'f) io" where
  "ok_io m = match_io m (\<lambda>x. return_io (Some x)) (\<lambda>_. return_io None)"

definition get_io :: "('s \<Rightarrow> 'a) \<Rightarrow> ('s, 'a, 'e) io" where
  "get_io f s = (Ok (f s), s)"

definition modify_io :: "('s \<Rightarrow> 's) \<Rightarrow> ('s, unit, 'e) io" where
  "modify_io f s = (Ok (), f s)"

definition result_io :: "('a, 'e) result \<Rightarrow> ('s, 'a, 'e) io" where
  "result_io r s = (r, s)"

definition with_context :: "str \<Rightarrow> ('s, 'a, io_error) io \<Rightarrow> ('s, 'a, any_error) io" where
  "with_context msg = map_err_io (\<lambda>e. Context msg (From_io e))"

lemma bind_io_assoc: "bind_io (bind_io m f) g = bind_io m (\<lambda>x. bind_io (f x) g)"
  by (rule ext) (simp add: bind_io_def split: prod.split result.split)

text \<open>A computation on the world, run inside a method: the object is left alone.\<close>

definition on_world :: "(world, 'a, 'e) io \<Rightarrow> ('o \<times> world, 'a, 'e) io" where
  "on_world m s = (case s of (obj, w) \<Rightarrow> case m w of (r, w') \<Rightarrow> (r, obj, w'))"

section \<open>System calls\<close>

text \<open>Every call counts, takes time, and comes after whatever other processes did.\<close>

definition step_world :: "nat \<Rightarrow> world \<Rightarrow> world" where
  "step_world least w =
     w\<lparr>w_tick := Suc (w_tick w), w_now := w_now w + least + e_dur (w_env w) (w_tick w),
       w_fs := e_other (w_env w) (w_tick w) (w_fs w)\<rparr>"

text \<open>
  A call: \<open>partial\<close> is what it does when it is cut short after \<open>n\<close> units of its work, \<open>full\<close> what
  it does, and answers, when it is not.
\<close>

definition syscall ::
  "(nat \<Rightarrow> world \<Rightarrow> world) \<Rightarrow> (world, 'a, io_error) io \<Rightarrow> (world, 'a, io_error) io"
where
  "syscall partial full w =
     (let w1 = step_world 0 w
      in case e_fault (w_env w) (w_tick w) of
           None \<Rightarrow> full w1
         | Some (Fail e n) \<Rightarrow> (Err e, partial n w1)
         | Some (Crash n) \<Rightarrow> (Panic, (partial n w1)\<lparr>w_crashed := True\<rparr>))"

definition atomic_call :: "(world, 'a, io_error) io \<Rightarrow> (world, 'a, io_error) io" where
  "atomic_call = syscall (\<lambda>n w. w)"

fun resolve :: "nat \<Rightarrow> fs \<Rightarrow> str \<Rightarrow> (str, io_error) result" where
  "resolve 0 fs p = Err (Io_error FilesystemLoop [])"
| "resolve (Suc n) fs p = (case fs p of Some (Link t) \<Rightarrow> resolve n fs t | _ \<Rightarrow> Ok p)"

definition follow :: "fs \<Rightarrow> str \<Rightarrow> (str, io_error) result" where
  "follow fs p = resolve (Suc 40) fs p"

definition set_fs :: "fs \<Rightarrow> world \<Rightarrow> world" where
  "set_fs fs w = w\<lparr>w_fs := fs\<rparr>"

text \<open>\<open>Path::exists\<close>: any error, and a dangling link, count as absence.\<close>

definition fs_exists :: "str \<Rightarrow> (world, bool, 'e) io" where
  "fs_exists p =
     match_io (atomic_call (\<lambda>w. (bind_r (follow (w_fs w) p) (\<lambda>q.
         Ok (w_fs w q \<noteq> None)), w)))
       return_io (\<lambda>_. return_io False)"

fun node_mode :: "node \<Rightarrow> u32" where
  "node_mode (File _ m _) = m"
| "node_mode (Dir m _) = m"
| "node_mode (Link _) = o777"

fun node_uid :: "node \<Rightarrow> u32" where
  "node_uid (File _ _ u) = u"
| "node_uid (Dir _ u) = u"
| "node_uid (Link _) = 0"

fun is_symlink :: "node \<Rightarrow> bool" where
  "is_symlink (Link _) \<longleftrightarrow> True"
| "is_symlink _ \<longleftrightarrow> False"

definition fs_lookup :: "fs \<Rightarrow> str \<Rightarrow> (node, io_error) result" where
  "fs_lookup fs p = bind_r (follow fs p) (\<lambda>q. ok_or (fs q) (Io_error NotFound []))"

definition fs_metadata :: "str \<Rightarrow> (world, node, io_error) io" where
  "fs_metadata p = atomic_call (\<lambda>w. (fs_lookup (w_fs w) p, w))"

definition fs_symlink_metadata :: "str \<Rightarrow> (world, node, io_error) io" where
  "fs_symlink_metadata p = atomic_call (\<lambda>w. (ok_or (w_fs w p) (Io_error NotFound []), w))"

fun node_data :: "node \<Rightarrow> (u8 list, io_error) result" where
  "node_data (File d _ _) = Ok d"
| "node_data (Dir _ _) = Err (Io_error IsADirectory [])"
| "node_data (Link _) = Err (Io_error FilesystemLoop [])"

definition fs_read :: "str \<Rightarrow> (world, u8 list, io_error) io" where
  "fs_read p = atomic_call (\<lambda>w. (bind_r (fs_lookup (w_fs w) p) node_data, w))"

text \<open>
  \<open>create_dir_all\<close>: the directory itself is created when nothing is there; the parents are not
  modelled.
\<close>

definition fs_create_dir_all :: "str \<Rightarrow> (world, unit, io_error) io" where
  "fs_create_dir_all p = atomic_call (\<lambda>w.
     case fs_lookup (w_fs w) p of
       Ok (Dir _ _) \<Rightarrow> (Ok (), w)
     | Ok _ \<Rightarrow> (Err (Io_error AlreadyExists []), w)
     | _ \<Rightarrow> if w_fs w p = None
           then (Ok (), set_fs ((w_fs w)(p \<mapsto> Dir (o777 AND NOT (e_umask (w_env w))) 0)) w)
           else (Err (Io_error AlreadyExists []), w))"

fun set_mode :: "u32 \<Rightarrow> node \<Rightarrow> node" where
  "set_mode m (File d _ u) = File d m u"
| "set_mode m (Dir _ u) = Dir m u"
| "set_mode m (Link t) = Link t"

definition fs_set_permissions :: "str \<Rightarrow> u32 \<Rightarrow> (world, unit, io_error) io" where
  "fs_set_permissions p m = atomic_call (\<lambda>w.
     case follow (w_fs w) p of
       Ok q \<Rightarrow> (case w_fs w q of
           Some nd \<Rightarrow> (Ok (), set_fs ((w_fs w)(q \<mapsto> set_mode m nd)) w)
         | None \<Rightarrow> (Err (Io_error NotFound []), w))
     | Err e \<Rightarrow> (Err e, w)
     | Panic \<Rightarrow> (Panic, w))"

text \<open>
  Open files: the path behind the links and the offset. \<open>write(true).create(true).truncate(true)\<close>
  with a creation mode, \<open>write(true)\<close> alone, and \<open>read(true)\<close> with \<open>O_NOFOLLOW\<close>. The creation
  mode does not touch a file that is already there.
\<close>

type_synonym handle = "str \<times> nat"

definition fs_open_truncate :: "str \<Rightarrow> u32 \<Rightarrow> (world, handle, io_error) io" where
  "fs_open_truncate p m = atomic_call (\<lambda>w.
     case follow (w_fs w) p of
       Ok q \<Rightarrow> (case w_fs w q of
           None \<Rightarrow> (Ok (q, 0), set_fs ((w_fs w)(q \<mapsto> File [] (m AND NOT (e_umask (w_env w))) 0)) w)
         | Some (File d m' u) \<Rightarrow> (Ok (q, 0), set_fs ((w_fs w)(q \<mapsto> File [] m' u)) w)
         | Some _ \<Rightarrow> (Err (Io_error IsADirectory []), w))
     | Err e \<Rightarrow> (Err e, w)
     | Panic \<Rightarrow> (Panic, w))"

definition fs_open_write :: "str \<Rightarrow> (world, handle, io_error) io" where
  "fs_open_write p = atomic_call (\<lambda>w.
     (bind_r (follow (w_fs w) p) (\<lambda>q.
        bind_r (ok_or (w_fs w q) (Io_error NotFound [])) (\<lambda>nd.
          bind_r (node_data nd) (\<lambda>_. Ok (q, 0)))), w))"

text \<open>A file opened for reading is kept as it was opened: a later rename does not change it.\<close>

definition fs_open_nofollow :: "str \<Rightarrow> (world, node, io_error) io" where
  "fs_open_nofollow p = atomic_call (\<lambda>w.
     (bind_r (ok_or (w_fs w p) (Io_error NotFound [])) (\<lambda>nd.
        if is_symlink nd then Err (Io_error FilesystemLoop []) else Ok nd), w))"

text \<open>Writing at the offset: what is there before and behind the written bytes stays.\<close>

definition overwrite :: "u8 list \<Rightarrow> nat \<Rightarrow> u8 list \<Rightarrow> u8 list" where
  "overwrite d off bs = take off d @ bs @ drop (off + length bs) d"

definition write_at :: "str \<Rightarrow> nat \<Rightarrow> u8 list \<Rightarrow> world \<Rightarrow> world" where
  "write_at q off bs w =
     (case w_fs w q of
        Some (File d m u) \<Rightarrow> set_fs ((w_fs w)(q \<mapsto> File (overwrite d off bs) m u)) w
      | _ \<Rightarrow> w)"

definition fs_write_all :: "handle \<Rightarrow> u8 list \<Rightarrow> (world, handle, io_error) io" where
  "fs_write_all h bs =
     syscall (\<lambda>n. write_at (fst h) (snd h) (take n bs))
       (\<lambda>w. (Ok (fst h, snd h + length bs), write_at (fst h) (snd h) bs w))"

definition fs_sync_all :: "handle \<Rightarrow> (world, unit, io_error) io" where
  "fs_sync_all h = atomic_call (\<lambda>w. (Ok (), w))"

text \<open>\<open>rename\<close> replaces the target in one step; neither name is resolved.\<close>

definition fs_rename :: "str \<Rightarrow> str \<Rightarrow> (world, unit, io_error) io" where
  "fs_rename p q = atomic_call (\<lambda>w.
     case w_fs w p of
       None \<Rightarrow> (Err (Io_error NotFound []), w)
     | Some nd \<Rightarrow>
         (case w_fs w q of
            Some (Dir _ _) \<Rightarrow> (Err (Io_error IsADirectory []), w)
          | _ \<Rightarrow> (Ok (), set_fs ((w_fs w)(p := None, q := Some nd)) w)))"

definition fs_remove_file :: "str \<Rightarrow> (world, unit, io_error) io" where
  "fs_remove_file p = atomic_call (\<lambda>w.
     case w_fs w p of
       None \<Rightarrow> (Err (Io_error NotFound []), w)
     | Some (Dir _ _) \<Rightarrow> (Err (Io_error IsADirectory []), w)
     | Some _ \<Rightarrow> (Ok (), set_fs ((w_fs w)(p := None)) w))"

text \<open>\<open>read_dir("/dev")\<close>: the names, in the order the system lists them.\<close>

definition fs_read_dev :: "(world, str list, io_error) io" where
  "fs_read_dev w = atomic_call (return_io (e_dev (w_env w) (w_tick w))) w"

section \<open>Clock and serial port\<close>

definition now :: "(world, nat, 'e) io" where
  "now = get_io w_now"

definition from_millis :: "nat \<Rightarrow> nat" where
  "from_millis n = n * 1000000"

definition sleep :: "nat \<Rightarrow> (world, unit, 'e) io" where
  "sleep d w = (Ok (), w\<lparr>w_now := w_now w + d\<rparr>)"

text \<open>
  The port is an object of the crate \<open>serialport\<close>: what its calls answer is the environment's. The
  bytes handed to it are kept with the number that went out.
\<close>

definition port_call :: "(world, unit, io_error) io" where
  "port_call = atomic_call (return_io ())"

definition port_write_all :: "u8 list \<Rightarrow> (world, unit, io_error) io" where
  "port_write_all bs =
     syscall (\<lambda>n w. w\<lparr>w_wire := w_wire w @ [(bs, min n (length bs))]\<rparr>)
       (\<lambda>w. (Ok (), w\<lparr>w_wire := w_wire w @ [(bs, length bs)]\<rparr>))"

definition port_read :: "(world, u8 list, io_error) io" where
  "port_read w =
     (case e_fault (w_env w) (w_tick w) of
        Some (Crash n) \<Rightarrow> (Panic, (step_world 1 w)\<lparr>w_crashed := True\<rparr>)
      | _ \<Rightarrow> (e_read (w_env w) (w_tick w), step_world 1 w))"

section \<open>Triples\<close>

text \<open>
  \<open>triple P m Q E\<close>: from a state with \<open>P\<close> the computation ends with a value \<open>x\<close> and \<open>Q x\<close>, or
  with an error or a panic and \<open>E\<close>. As a crash is a panic, \<open>E\<close> holds wherever the process may die.
\<close>

fun post :: "('a \<Rightarrow> 's \<Rightarrow> bool) \<Rightarrow> ('s \<Rightarrow> bool) \<Rightarrow> ('a, 'e) result \<Rightarrow> 's \<Rightarrow> bool" where
  "post Q E (Ok x) s = Q x s"
| "post Q E (Err e) s = E s"
| "post Q E Panic s = E s"

definition triple ::
  "('s \<Rightarrow> bool) \<Rightarrow> ('s, 'a, 'e) io \<Rightarrow> ('a \<Rightarrow> 's \<Rightarrow> bool) \<Rightarrow> ('s \<Rightarrow> bool) \<Rightarrow> bool"
where
  "triple P m Q E \<longleftrightarrow> (\<forall>s. P s \<longrightarrow> post Q E (fst (m s)) (snd (m s)))"

lemma tripleI: "(\<And>s. P s \<Longrightarrow> post Q E (fst (m s)) (snd (m s))) \<Longrightarrow> triple P m Q E"
  by (simp add: triple_def)

lemma tripleD: "triple P m Q E \<Longrightarrow> P s \<Longrightarrow> m s = (r, s') \<Longrightarrow> post Q E r s'"
  unfolding triple_def by (metis fst_conv snd_conv)

lemma post_mono:
  "post Q E r s \<Longrightarrow> (\<And>x. Q x s \<Longrightarrow> Q' x s) \<Longrightarrow> (E s \<Longrightarrow> E' s) \<Longrightarrow> post Q' E' r s"
  by (cases r) auto

lemma triple_bind [io_rules]:
  assumes "triple P m R E" "\<And>x. triple (R x) (f x) Q E"
  shows "triple P (bind_io m f) Q E"
proof (rule tripleI)
  fix s assume P: "P s"
  obtain r s' where m: "m s = (r, s')" by (cases "m s")
  have p: "post R E r s'" by (rule tripleD [OF assms(1) P m])
  show "post Q E (fst (bind_io m f s)) (snd (bind_io m f s))"
  proof (cases r)
    case (Ok x)
    with p have "R x s'" by simp
    then have "post Q E (fst (f x s')) (snd (f x s'))" using assms(2) by (simp add: triple_def)
    with Ok show ?thesis by (simp add: bind_io_def m)
  qed (use p in \<open>simp_all add: bind_io_def m\<close>)
qed

lemma triple_match [io_rules]:
  assumes "triple P m R E'" "\<And>x. triple (R x) (f x) Q E" "\<And>e. triple E' (g e) Q E"
    "\<And>s. E' s \<Longrightarrow> E s"
  shows "triple P (match_io m f g) Q E"
proof (rule tripleI)
  fix s assume P: "P s"
  obtain r s' where m: "m s = (r, s')" by (cases "m s")
  have p: "post R E' r s'" by (rule tripleD [OF assms(1) P m])
  show "post Q E (fst (match_io m f g s)) (snd (match_io m f g s))"
  proof (cases r)
    case (Ok x)
    with p have "R x s'" by simp
    then have "post Q E (fst (f x s')) (snd (f x s'))" using assms(2) by (simp add: triple_def)
    with Ok show ?thesis by (simp add: match_io_def m)
  next
    case (Err e)
    with p have "E' s'" by simp
    then have "post Q E (fst (g e s')) (snd (g e s'))" using assms(3) by (simp add: triple_def)
    with Err show ?thesis by (simp add: match_io_def m)
  next
    case Panic
    with p assms(4) show ?thesis by (simp add: match_io_def m)
  qed
qed

lemma triple_cases:
  assumes "\<And>s0. P s0 \<Longrightarrow> triple (\<lambda>s. s = s0) m Q E"
  shows "triple P m Q E"
  using assms by (simp add: triple_def)

lemma triple_any: "triple P m (\<lambda>_ _. True) (\<lambda>_. True)"
proof (rule tripleI)
  show "post (\<lambda>_ _. True) (\<lambda>_. True) (fst (m s)) (snd (m s))" for s
    by (cases "fst (m s)") simp_all
qed

lemma triple_const: "triple (\<lambda>_. c) m (\<lambda>_ _. c) (\<lambda>_. c)"
  by (cases c) (simp_all add: triple_any, simp add: triple_def)

lemma triple_conseq:
  assumes "triple P m Q E" "\<And>s. P' s \<Longrightarrow> P s" "\<And>x s. Q x s \<Longrightarrow> Q' x s" "\<And>s. E s \<Longrightarrow> E' s"
  shows "triple P' m Q' E'"
proof (rule tripleI)
  fix s assume "P' s"
  then have "post Q E (fst (m s)) (snd (m s))" using assms(1,2) by (simp add: triple_def)
  then show "post Q' E' (fst (m s)) (snd (m s))" by (rule post_mono) (simp_all add: assms(3,4))
qed

lemma triple_return [io_rules]: "(\<And>s. P s \<Longrightarrow> Q x s) \<Longrightarrow> triple P (return_io x) Q E"
  by (simp add: triple_def return_io_def)

lemma triple_fail [io_rules]: "(\<And>s. P s \<Longrightarrow> E s) \<Longrightarrow> triple P (fail_io e) Q E"
  by (simp add: triple_def fail_io_def)

lemma triple_panic [io_rules]: "(\<And>s. P s \<Longrightarrow> E s) \<Longrightarrow> triple P panic_io Q E"
  by (simp add: triple_def panic_io_def)

lemma triple_get: "(\<And>s. P s \<Longrightarrow> Q (f s) s) \<Longrightarrow> triple P (get_io f) Q E"
  by (simp add: triple_def get_io_def)

lemma triple_modify: "(\<And>s. P s \<Longrightarrow> Q () (f s)) \<Longrightarrow> triple P (modify_io f) Q E"
  by (simp add: triple_def modify_io_def)

lemma triple_result:
  "(\<And>s x. P s \<Longrightarrow> r = Ok x \<Longrightarrow> Q x s) \<Longrightarrow> (\<And>s. P s \<Longrightarrow> E s) \<Longrightarrow> triple P (result_io r) Q E"
  by (cases r) (auto simp: triple_def result_io_def)

lemma triple_map_err [io_rules]: "triple P m Q E \<Longrightarrow> triple P (map_err_io g m) Q E"
  unfolding triple_def map_err_io_def
proof (intro allI impI, drule spec, drule (1) mp)
  fix s assume "post Q E (fst (m s)) (snd (m s))"
  then show "post Q E (fst (map_err g (fst (m s)), snd (m s))) (snd (map_err g (fst (m s)), snd (m s)))"
    by (cases "fst (m s)") simp_all
qed

lemma triple_with_context [io_rules]: "triple P m Q E \<Longrightarrow> triple P (with_context msg m) Q E"
  unfolding with_context_def by (rule triple_map_err)

lemma triple_ignore [io_rules]:
  "triple P m (\<lambda>_. R) R \<Longrightarrow> triple P (ignore_io m) (\<lambda>_. R) R"
  unfolding ignore_io_def by (rule triple_match) (auto intro: triple_return)

lemma triple_ok [io_rules]:
  assumes "triple P m (\<lambda>x. Q (Some x)) E'" "\<And>s. E' s \<Longrightarrow> Q None s" "\<And>s. E' s \<Longrightarrow> E s"
  shows "triple P (ok_io m) Q E"
  unfolding ok_io_def
  by (rule triple_match [OF assms(1)]) (auto intro: triple_return assms)

lemma triple_pure: "(A \<Longrightarrow> triple P m Q E) \<Longrightarrow> triple (\<lambda>s. A \<and> P s) m Q E"
  by (simp add: triple_def)

text \<open>Keeping an assertion: the pattern of everything that does not touch what it is about.\<close>

definition keeps :: "('s \<Rightarrow> bool) \<Rightarrow> ('s, 'a, 'e) io \<Rightarrow> bool" where
  "keeps I m \<longleftrightarrow> (\<forall>s. I s \<longrightarrow> I (snd (m s)))"

lemma keeps_triple:
  fixes m :: "('s, 'a, 'e) io"
  shows "keeps I m \<longleftrightarrow> triple I m (\<lambda>_. I) I"
proof -
  have "post (\<lambda>_. I) I r s = I s" for r :: "('a, 'e) result" and s by (cases r) simp_all
  then show ?thesis by (simp add: keeps_def triple_def)
qed

lemma keeps_bind:
  "triple I m (\<lambda>_. I) I \<Longrightarrow> (\<And>x. triple I (f x) (\<lambda>_. I) I) \<Longrightarrow> triple I (bind_io m f) (\<lambda>_. I) I"
  by (rule triple_bind)

lemma keeps_by_triple: "triple I m (\<lambda>_. I) I \<Longrightarrow> keeps I m"
  by (simp add: keeps_triple)

lemma triple_on_world [io_rules]:
  assumes "\<And>obj. triple (\<lambda>w. P (obj, w)) m (\<lambda>x w. Q x (obj, w)) (\<lambda>w. E (obj, w))"
  shows "triple P (on_world m) Q E"
proof (rule tripleI)
  fix s assume P: "P s"
  obtain obj w where s: "s = (obj, w)" by (cases s)
  have "post (\<lambda>x w. Q x (obj, w)) (\<lambda>w. E (obj, w)) (fst (m w)) (snd (m w))"
    using assms [of obj] P s by (simp add: triple_def)
  then show "post Q E (fst (on_world m s)) (snd (on_world m s))"
    by (cases "m w", cases "fst (m w)") (simp_all add: on_world_def s)
qed

section \<open>What every call may do\<close>

text \<open>
  An assertion is stable when the passing of time, what other processes do and the crash flag do
  not affect it: then a call has to be looked at only for its own effect.
\<close>

definition stable :: "(world \<Rightarrow> bool) \<Rightarrow> bool" where
  "stable P \<longleftrightarrow> (\<forall>w k. P w \<longrightarrow> P (step_world k w)) \<and> (\<forall>w. P w \<longrightarrow> P (w\<lparr>w_crashed := True\<rparr>))
     \<and> (\<forall>w t. P w \<longrightarrow> w_now w \<le> t \<longrightarrow> P (w\<lparr>w_now := t\<rparr>))"

lemma triple_syscall:
  assumes st: "stable P" and stE: "\<And>w. E w \<Longrightarrow> E (w\<lparr>w_crashed := True\<rparr>)"
    and part: "\<And>w n. P w \<Longrightarrow> E (partial n w)" and full: "triple P full Q E"
  shows "triple P (syscall partial full) Q E"
proof (rule tripleI)
  fix w assume "P w"
  then have P1: "P (step_world 0 w)" using st by (simp add: stable_def)
  have "post Q E (fst (full (step_world 0 w))) (snd (full (step_world 0 w)))"
    using full P1 by (simp add: triple_def)
  then show "post Q E (fst (syscall partial full w)) (snd (syscall partial full w))"
    using part [OF P1] stE [OF part [OF P1]]
    by (simp add: syscall_def Let_def split: option.splits fault.splits)
qed

lemma triple_atomic:
  assumes "stable P" "triple P full Q P"
  shows "triple P (atomic_call full) Q P"
  unfolding atomic_call_def
  by (rule triple_syscall) (use assms in \<open>auto simp: stable_def\<close>)

text \<open>Calls that only look: any stable assertion is kept.\<close>

lemma keeps_pure: "(\<And>w. snd (full w) = w) \<Longrightarrow> triple P full (\<lambda>_. P) P"
  unfolding keeps_triple [symmetric] keeps_def by simp

lemma keeps_look:
  "stable P \<Longrightarrow> (\<And>w. snd (full w) = w) \<Longrightarrow> triple P (atomic_call full) (\<lambda>_. P) P"
  by (intro triple_atomic keeps_pure)

lemma keeps_metadata: "stable P \<Longrightarrow> triple P (fs_metadata p) (\<lambda>_. P) P"
  unfolding fs_metadata_def by (rule keeps_look) simp_all

lemma keeps_symlink_metadata: "stable P \<Longrightarrow> triple P (fs_symlink_metadata p) (\<lambda>_. P) P"
  unfolding fs_symlink_metadata_def by (rule keeps_look) simp_all

lemma keeps_read: "stable P \<Longrightarrow> triple P (fs_read p) (\<lambda>_. P) P"
  unfolding fs_read_def by (rule keeps_look) simp_all

lemma keeps_exists: "stable P \<Longrightarrow> triple P (fs_exists p) (\<lambda>_. P) P"
  unfolding fs_exists_def
  by (rule triple_match [OF keeps_look]) (auto intro: triple_return)

lemma keeps_sync_all: "stable P \<Longrightarrow> triple P (fs_sync_all h) (\<lambda>_. P) P"
  unfolding fs_sync_all_def by (rule keeps_look) simp_all

lemma keeps_port_call: "stable P \<Longrightarrow> triple P port_call (\<lambda>_. P) P"
  unfolding port_call_def by (rule keeps_look) (simp_all add: return_io_def)

lemma keeps_port_read: "stable P \<Longrightarrow> triple P port_read (\<lambda>_. P) P"
  unfolding keeps_triple [symmetric] keeps_def
  by (auto simp: port_read_def stable_def split: option.splits fault.splits)

lemma keeps_now: "triple P now (\<lambda>_. P) P"
  unfolding now_def by (rule triple_get)

lemma keeps_sleep: "stable P \<Longrightarrow> triple P (sleep d) (\<lambda>_. P) P"
  by (rule tripleI) (simp add: sleep_def stable_def)

lemma triple_port_write:
  assumes "stable P" "\<And>w. E w \<Longrightarrow> E (w\<lparr>w_crashed := True\<rparr>)"
    and "\<And>w n. P w \<Longrightarrow> E (w\<lparr>w_wire := w_wire w @ [(bs, n)]\<rparr>)"
    and "\<And>w. P w \<Longrightarrow> Q () (w\<lparr>w_wire := w_wire w @ [(bs, length bs)]\<rparr>)"
  shows "triple P (port_write_all bs) Q E"
  unfolding port_write_all_def
  by (rule triple_syscall) (use assms in \<open>auto intro!: tripleI\<close>)

lemma stable_const [simp]: "stable (\<lambda>_. b)"
  by (simp add: stable_def)

lemma stable_time [simp]: "stable (\<lambda>w. t \<le> w_now w)"
  by (auto simp: stable_def step_world_def)

lemma stable_conj: "stable P \<Longrightarrow> stable Q \<Longrightarrow> stable (\<lambda>w. P w \<and> Q w)"
  by (simp add: stable_def)

lemmas keeps_calls = keeps_metadata keeps_symlink_metadata keeps_read keeps_exists keeps_sync_all
  keeps_port_call keeps_port_read keeps_now keeps_sleep

section \<open>The environment is the same throughout\<close>

lemma stable_env [simp]: "stable (\<lambda>w. X (w_env w))"
  by (simp add: stable_def step_world_def)

lemma atomic_env:
  "(\<And>w. w_env (snd (full w)) = w_env w) \<Longrightarrow>
     triple (\<lambda>w. X (w_env w)) (atomic_call full) (\<lambda>_ w. X (w_env w)) (\<lambda>w. X (w_env w))"
  by (intro triple_atomic stable_env) (simp add: keeps_triple [symmetric] keeps_def)

lemma set_fs_env [simp]: "w_env (set_fs f w) = w_env w"
  by (simp add: set_fs_def)

lemma write_at_env [simp]: "w_env (write_at q off bs w) = w_env w"
  by (simp add: write_at_def split: option.splits node.splits)

lemma file_calls_env:
  "triple (\<lambda>w. X (w_env w)) (fs_create_dir_all p) (\<lambda>_ w. X (w_env w)) (\<lambda>w. X (w_env w))"
  "triple (\<lambda>w. X (w_env w)) (fs_set_permissions p m) (\<lambda>_ w. X (w_env w)) (\<lambda>w. X (w_env w))"
  "triple (\<lambda>w. X (w_env w)) (fs_open_truncate p m) (\<lambda>_ w. X (w_env w)) (\<lambda>w. X (w_env w))"
  "triple (\<lambda>w. X (w_env w)) (fs_rename p q) (\<lambda>_ w. X (w_env w)) (\<lambda>w. X (w_env w))"
  unfolding fs_create_dir_all_def fs_set_permissions_def fs_open_truncate_def fs_rename_def
  by (rule atomic_env; simp split: option.splits result.splits node.splits)+

lemma write_all_env:
  "triple (\<lambda>w. X (w_env w)) (fs_write_all h bs) (\<lambda>_ w. X (w_env w)) (\<lambda>w. X (w_env w))"
  unfolding fs_write_all_def
  by (rule triple_syscall [OF stable_env]) (simp_all add: keeps_triple [symmetric] keeps_def)

end
