(* ===== verification/Replace_File.thy ===== *)
theory Replace_File
  imports World
begin

text \<open>
  Replacing a file: four modules (\<open>state.rs\<close>, \<open>storage.rs\<close>, and \<open>keystore.rs\<close> twice) write a
  temporary file next to the real one, sync it and rename it. This theory says what is known of the
  directory, the temporary and the real file around such a sequence, and proves the rule of every
  call in it once, in the locale \<open>replaced_file\<close>; each module interprets the locale on its paths.
\<close>

section \<open>What is known of the files\<close>

text \<open>
  \<open>private_paths\<close>: the directory is the daemon's own (root, mode 0700), so nobody else changes these
  names; and the umask leaves the owner's bits alone. \<open>rf_pred\<close> is the form of every assertion:
  \<open>T\<close> of the temporary file, \<open>F\<close> of the real one and of the wire.
\<close>

definition private_paths :: "str list \<Rightarrow> env \<Rightarrow> bool" where
  "private_paths ps e \<longleftrightarrow> (\<forall>t fs. \<forall>p \<in> set ps. e_other e t fs p = fs p)
     \<and> o600 AND NOT (e_umask e) = o600"

definition rf_pred ::
  "str \<Rightarrow> str \<Rightarrow> str \<Rightarrow> (node option \<Rightarrow> bool) \<Rightarrow> (node option \<Rightarrow> (u8 list \<times> nat) list \<Rightarrow> bool)
    \<Rightarrow> world \<Rightarrow> bool"
where
  "rf_pred dir tmp path T F w \<longleftrightarrow> private_paths [dir, path, tmp] (w_env w)
     \<and> (\<forall>t. w_fs w dir \<noteq> Some (Link t)) \<and> T (w_fs w tmp) \<and> F (w_fs w path) (w_wire w)"

text \<open>A regular file of root's, of mode 0600, with these contents; such a file, or none.\<close>

definition mode_600 :: "u8 list \<Rightarrow> node option \<Rightarrow> bool" where
  "mode_600 d a \<longleftrightarrow> (\<exists>m. a = Some (File d m 0) \<and> m AND o777 = o600)"

definition file_secure :: "node option \<Rightarrow> bool" where
  "file_secure b \<longleftrightarrow> b = None \<or> (\<exists>d. mode_600 d b)"

lemma mode_600_secure: "mode_600 d b \<Longrightarrow> file_secure b"
  by (auto simp: file_secure_def)

lemma stable_rf_pred [simp]: "stable (rf_pred dir tmp path T F)"
  by (auto simp: stable_def rf_pred_def private_paths_def step_world_def)

lemma rf_pred_mono:
  "rf_pred dir tmp path T F w \<Longrightarrow> (\<And>b. T b \<Longrightarrow> T' b) \<Longrightarrow> (\<And>a wr. F a wr \<Longrightarrow> F' a wr)
     \<Longrightarrow> rf_pred dir tmp path T' F' w"
  by (simp add: rf_pred_def)

lemma resolve_plain: "(\<And>t. fs p \<noteq> Some (Link t)) \<Longrightarrow> resolve (Suc n) fs p = Ok p"
  by (auto split: option.splits node.splits)

lemma follow_plain: "(\<And>t. fs p \<noteq> Some (Link t)) \<Longrightarrow> follow fs p = Ok p"
  unfolding follow_def by (rule resolve_plain)

lemma file_secure_follow: "file_secure (fs p) \<Longrightarrow> follow fs p = Ok p"
  by (rule follow_plain) (auto simp: file_secure_def mode_600_def)

text \<open>When no call fails, a call is what it does after the other processes had their turn.\<close>

definition no_faults :: "env \<Rightarrow> bool" where
  "no_faults e \<longleftrightarrow> (\<forall>t. e_fault e t = None)"

lemma atomic_quiet: "no_faults (w_env w) \<Longrightarrow> atomic_call full w = full (step_world 0 w)"
  by (simp add: atomic_call_def syscall_def no_faults_def)

lemma step_world_simps [simp]:
  "w_env (step_world k w) = w_env w" "w_wire (step_world k w) = w_wire w"
  "w_crashed (step_world k w) = w_crashed w"
  "w_fs (step_world k w) = e_other (w_env w) (w_tick w) (w_fs w)"
  by (simp_all add: step_world_def)

section \<open>The calls\<close>

locale replaced_file =
  fixes dir :: str and tmp :: str and path :: str
  assumes distinct_paths: "distinct [dir, tmp, path]"
begin

lemma paths [simp]: "dir \<noteq> tmp" "dir \<noteq> path" "tmp \<noteq> path" "tmp \<noteq> dir" "path \<noteq> dir" "path \<noteq> tmp"
  using distinct_paths by auto

lemma keeps_create_dir:
  "triple (rf_pred dir tmp path T F) (fs_create_dir_all dir)
     (\<lambda>_. rf_pred dir tmp path T F) (rf_pred dir tmp path T F)"
  unfolding fs_create_dir_all_def
proof (rule triple_atomic [OF stable_rf_pred], rule tripleI)
  fix w assume p: "rf_pred dir tmp path T F w"
  have q: "rf_pred dir tmp path T F (set_fs ((w_fs w)(dir \<mapsto> Dir m u)) w)" for m u
    using p by (simp add: rf_pred_def set_fs_def)
  show "post (\<lambda>_. rf_pred dir tmp path T F) (rf_pred dir tmp path T F)
     (fst (case fs_lookup (w_fs w) dir of
       Ok (Dir _ _) \<Rightarrow> (Ok (), w)
     | Ok _ \<Rightarrow> (Err (Io_error AlreadyExists []), w)
     | _ \<Rightarrow> if w_fs w dir = None
           then (Ok (), set_fs ((w_fs w)(dir \<mapsto> Dir (o777 AND NOT (e_umask (w_env w))) 0)) w)
           else (Err (Io_error AlreadyExists []), w)))
     (snd (case fs_lookup (w_fs w) dir of
       Ok (Dir _ _) \<Rightarrow> (Ok (), w)
     | Ok _ \<Rightarrow> (Err (Io_error AlreadyExists []), w)
     | _ \<Rightarrow> if w_fs w dir = None
           then (Ok (), set_fs ((w_fs w)(dir \<mapsto> Dir (o777 AND NOT (e_umask (w_env w))) 0)) w)
           else (Err (Io_error AlreadyExists []), w)))"
    using p q by (simp split: result.splits node.splits)
qed

lemma keeps_dir_mode:
  "triple (rf_pred dir tmp path T F) (fs_set_permissions dir m)
     (\<lambda>_. rf_pred dir tmp path T F) (rf_pred dir tmp path T F)"
  unfolding fs_set_permissions_def
proof (rule triple_atomic [OF stable_rf_pred], rule tripleI, goal_cases)
  case (1 w)
  then have f: "follow (w_fs w) dir = Ok dir"
    by (intro follow_plain) (simp add: rf_pred_def)
  have "rf_pred dir tmp path T F (set_fs ((w_fs w)(dir \<mapsto> set_mode m nd)) w)"
    if "w_fs w dir = Some nd" for nd
    using 1 that by (cases nd) (auto simp: rf_pred_def set_fs_def)
  with 1 f show ?case by (simp split: option.splits)
qed

lemma open_tmp:
  "triple (rf_pred dir tmp path file_secure F) (fs_open_truncate tmp o600)
     (\<lambda>h w. h = (tmp, 0) \<and> rf_pred dir tmp path (mode_600 []) F w) (rf_pred dir tmp path file_secure F)"
  unfolding fs_open_truncate_def
proof (rule triple_atomic [OF stable_rf_pred], rule tripleI, goal_cases)
  case (1 w)
  then have t: "file_secure (w_fs w tmp)" and "o600 AND NOT (e_umask (w_env w)) = o600"
    by (auto simp: rf_pred_def private_paths_def)
  moreover have "(o600 :: u32) AND o777 = o600" by code_simp
  ultimately show ?case
    using 1 file_secure_follow [of "w_fs w", OF t]
    by (auto simp: rf_pred_def set_fs_def file_secure_def mode_600_def split: option.splits node.splits)
qed

lemma write_tmp:
  "triple (rf_pred dir tmp path (mode_600 d) F) (fs_write_all (tmp, length d) bs)
     (\<lambda>h w. h = (tmp, length (d @ bs)) \<and> rf_pred dir tmp path (mode_600 (d @ bs)) F w)
     (rf_pred dir tmp path file_secure F)"
proof -
  have w: "rf_pred dir tmp path (mode_600 (d @ cs)) F (write_at tmp (length d) cs w)"
    if "rf_pred dir tmp path (mode_600 d) F w" for cs w
    using that by (auto simp: rf_pred_def mode_600_def write_at_def set_fs_def overwrite_def)
  show ?thesis
    unfolding fs_write_all_def
  proof (rule triple_syscall [OF stable_rf_pred], goal_cases)
    case (1 w)
    then show ?case using stable_rf_pred [of dir tmp path file_secure F] by (simp add: stable_def)
  next
    case (2 w n)
    then have "rf_pred dir tmp path (mode_600 (d @ take n bs)) F (write_at tmp (length d) (take n bs) w)"
      by (rule w)
    then have "rf_pred dir tmp path file_secure F (write_at tmp (length d) (take n bs) w)"
      by (rule rf_pred_mono) (auto intro: mode_600_secure)
    then show ?case by simp
  next
    case 3
    show ?case by (rule tripleI) (simp add: w)
  qed
qed

lemma sync_tmp:
  "triple (rf_pred dir tmp path (mode_600 d) F) (fs_sync_all h)
     (\<lambda>_. rf_pred dir tmp path (mode_600 d) F) (rf_pred dir tmp path file_secure F)"
  by (rule triple_conseq [OF keeps_sync_all [OF stable_rf_pred [of dir tmp path "mode_600 d" F]]])
    (auto simp: file_secure_def rf_pred_def)

lemma rename_tmp:
  "triple (rf_pred dir tmp path (mode_600 d) (\<lambda>a wr. a = A \<and> wr = W)) (fs_rename tmp path)
     (\<lambda>_. rf_pred dir tmp path file_secure (\<lambda>a wr. mode_600 d a \<and> wr = W))
     (rf_pred dir tmp path file_secure (\<lambda>a wr. a = A \<and> wr = W))"
proof -
  have "triple (rf_pred dir tmp path (mode_600 d) (\<lambda>a wr. a = A \<and> wr = W)) (fs_rename tmp path)
     (\<lambda>_. rf_pred dir tmp path file_secure (\<lambda>a wr. mode_600 d a \<and> wr = W))
     (rf_pred dir tmp path (mode_600 d) (\<lambda>a wr. a = A \<and> wr = W))"
    unfolding fs_rename_def
  proof (rule triple_atomic [OF stable_rf_pred], rule tripleI, goal_cases)
    case (1 w)
    then show ?case
      by (auto simp: rf_pred_def set_fs_def file_secure_def mode_600_def split: option.splits node.splits)
  qed
  then show ?thesis
    by (rule triple_conseq) (auto simp: file_secure_def rf_pred_def)
qed

text \<open>
  The whole sequence, with one write and with two, whatever the module makes of the errors: at the
  end the real file holds what was written, wherever it stopped the real file is as it was.
\<close>

lemma replace_one:
  "triple (rf_pred dir tmp path file_secure (\<lambda>a wr. a = A \<and> wr = W))
     (bind_io (map_err_io g1 (fs_open_truncate tmp o600)) (\<lambda>f.
      bind_io (map_err_io g2 (fs_write_all f bs)) (\<lambda>f.
      bind_io (map_err_io g3 (fs_sync_all f)) (\<lambda>_.
      map_err_io g4 (fs_rename tmp path)))))
     (\<lambda>_. rf_pred dir tmp path file_secure (\<lambda>a wr. mode_600 bs a \<and> wr = W))
     (rf_pred dir tmp path file_secure (\<lambda>a wr. a = A \<and> wr = W))"
  by (rule triple_bind [OF triple_map_err [OF open_tmp]] triple_pure
      triple_bind [OF triple_map_err [OF write_tmp [of "[]", simplified]]]
      triple_bind [OF triple_map_err [OF sync_tmp]]
      triple_map_err [OF rename_tmp] | simp only: list.size append_Nil)+

lemma replace_two:
  "triple (rf_pred dir tmp path file_secure (\<lambda>a wr. a = A \<and> wr = W))
     (bind_io (map_err_io g1 (fs_open_truncate tmp o600)) (\<lambda>f.
      bind_io (map_err_io g2 (fs_write_all f bs)) (\<lambda>f.
      bind_io (map_err_io g2 (fs_write_all f cs)) (\<lambda>f.
      bind_io (map_err_io g3 (fs_sync_all f)) (\<lambda>_.
      map_err_io g4 (fs_rename tmp path))))))
     (\<lambda>_. rf_pred dir tmp path file_secure (\<lambda>a wr. mode_600 (bs @ cs) a \<and> wr = W))
     (rf_pred dir tmp path file_secure (\<lambda>a wr. a = A \<and> wr = W))"
  by (rule triple_bind [OF triple_map_err [OF open_tmp]] triple_pure
      triple_bind [OF triple_map_err [OF write_tmp [of "[]", simplified]]]
      triple_bind [OF triple_map_err [OF write_tmp [of bs]]]
      triple_bind [OF triple_map_err [OF sync_tmp]]
      triple_map_err [OF rename_tmp] | simp only: list.size append_Nil)+

end

section \<open>Other files\<close>

text \<open>
  A path no other process changes, with no symbolic link at it: none of the calls above makes one.
\<close>

definition plain_at :: "str \<Rightarrow> world \<Rightarrow> bool" where
  "plain_at q w \<longleftrightarrow> (\<forall>t fs. e_other (w_env w) t fs q = fs q) \<and> (\<forall>t. w_fs w q \<noteq> Some (Link t))"

lemma stable_plain_at [simp]: "stable (plain_at q)"
  by (auto simp: stable_def plain_at_def step_world_def)

lemma plain_follow: "plain_at q w \<Longrightarrow> follow (w_fs w) q = Ok q"
  by (rule follow_plain) (simp add: plain_at_def)

lemma set_mode_link: "set_mode m nd = Link t \<longleftrightarrow> nd = Link t"
  by (cases nd) auto

lemma plain_write_at: "plain_at q w \<Longrightarrow> plain_at q (write_at p off bs w)"
  by (auto simp: plain_at_def write_at_def set_fs_def split: option.splits node.splits)

lemma plain_calls:
  "triple (plain_at q) (fs_create_dir_all p) (\<lambda>_. plain_at q) (plain_at q)"
  "triple (plain_at q) (fs_set_permissions p m) (\<lambda>_. plain_at q) (plain_at q)"
  "triple (plain_at q) (fs_open_truncate p m) (\<lambda>_. plain_at q) (plain_at q)"
  unfolding fs_create_dir_all_def fs_set_permissions_def fs_open_truncate_def
  by (rule triple_atomic [OF stable_plain_at], rule tripleI,
      auto simp: plain_at_def set_fs_def set_mode_link split: option.splits result.splits node.splits)+

lemma plain_write_all: "triple (plain_at q) (fs_write_all h bs) (\<lambda>_. plain_at q) (plain_at q)"
  unfolding fs_write_all_def
  by (rule triple_syscall [OF stable_plain_at], simp add: plain_at_def, rule plain_write_at, assumption,
      rule tripleI, simp add: plain_write_at)

lemma plain_rename: "p' \<noteq> q \<Longrightarrow> triple (plain_at q) (fs_rename p p') (\<lambda>_. plain_at q) (plain_at q)"
  unfolding fs_rename_def
  by (rule triple_atomic [OF stable_plain_at], rule tripleI,
      auto simp: plain_at_def set_fs_def split: option.splits node.splits)

lemma triple_conj:
  assumes "triple P m Q E" "triple P' m Q' E'"
  shows "triple (\<lambda>s. P s \<and> P' s) m (\<lambda>x s. Q x s \<and> Q' x s) (\<lambda>s. E s \<and> E' s)"
proof (rule tripleI, goal_cases)
  case (1 s)
  then show ?case using assms by (cases "fst (m s)") (auto simp: triple_def)
qed

lemmas plain_rules = triple_map_err triple_with_context triple_ignore plain_calls plain_write_all
  plain_rename keeps_sync_all [OF stable_plain_at] keeps_read [OF stable_plain_at]
  keeps_metadata [OF stable_plain_at]

context replaced_file
begin

text \<open>Calls on a path that is none of the three, and not a link to one.\<close>

lemma other_file:
  assumes "q \<notin> {dir, tmp, path}" "rf_pred dir tmp path T F w" "plain_at q w" "nd \<noteq> Link t"
  shows "rf_pred dir tmp path T F (set_fs ((w_fs w)(q \<mapsto> nd)) w)"
  using assms by (auto simp: rf_pred_def set_fs_def)

lemma other_calls:
  assumes q: "q \<notin> {dir, tmp, path}"
  shows "triple (\<lambda>w. rf_pred dir tmp path T F w \<and> plain_at q w) (fs_set_permissions q m)
       (\<lambda>_ w. rf_pred dir tmp path T F w \<and> plain_at q w) (\<lambda>w. rf_pred dir tmp path T F w \<and> plain_at q w)"
    and "triple (\<lambda>w. rf_pred dir tmp path T F w \<and> plain_at q w) (fs_open_truncate q m)
       (\<lambda>h w. h = (q, 0) \<and> rf_pred dir tmp path T F w \<and> plain_at q w)
       (\<lambda>w. rf_pred dir tmp path T F w \<and> plain_at q w)"
proof -
  note call = triple_atomic [OF stable_conj [OF stable_rf_pred stable_plain_at]]
  show "triple (\<lambda>w. rf_pred dir tmp path T F w \<and> plain_at q w) (fs_set_permissions q m)
       (\<lambda>_ w. rf_pred dir tmp path T F w \<and> plain_at q w) (\<lambda>w. rf_pred dir tmp path T F w \<and> plain_at q w)"
    unfolding fs_set_permissions_def
  proof (rule call, rule tripleI, goal_cases)
    case (1 w)
    then show ?case using q plain_follow [of q w]
      by (auto simp: rf_pred_def plain_at_def set_fs_def set_mode_link split: option.splits)
  qed
  show "triple (\<lambda>w. rf_pred dir tmp path T F w \<and> plain_at q w) (fs_open_truncate q m)
       (\<lambda>h w. h = (q, 0) \<and> rf_pred dir tmp path T F w \<and> plain_at q w)
       (\<lambda>w. rf_pred dir tmp path T F w \<and> plain_at q w)"
    unfolding fs_open_truncate_def
  proof (rule call, rule tripleI, goal_cases)
    case (1 w)
    then show ?case using q plain_follow [of q w]
      by (auto simp: rf_pred_def plain_at_def set_fs_def split: option.splits node.splits)
  qed
qed

lemma other_write:
  assumes q: "q \<notin> {dir, tmp, path}"
  shows "triple (\<lambda>w. rf_pred dir tmp path T F w \<and> plain_at q w) (fs_write_all (q, n) bs)
       (\<lambda>_ w. rf_pred dir tmp path T F w \<and> plain_at q w) (\<lambda>w. rf_pred dir tmp path T F w \<and> plain_at q w)"
proof -
  have w: "rf_pred dir tmp path T F (write_at q n cs w) \<and> plain_at q (write_at q n cs w)"
    if "rf_pred dir tmp path T F w \<and> plain_at q w" for cs w
    using that q by (auto simp: rf_pred_def plain_at_def write_at_def set_fs_def split: option.splits node.splits)
  show ?thesis
    unfolding fs_write_all_def
  proof (rule triple_syscall [OF stable_conj [OF stable_rf_pred stable_plain_at]], goal_cases)
    case (1 w)
    then show ?case by (simp add: rf_pred_def plain_at_def)
  qed (use w in \<open>auto intro!: tripleI\<close>)
qed

end

section \<open>An environment to evaluate in\<close>

text \<open>No call fails, no other process changes a file, every call takes a nanosecond.\<close>

definition demo_env :: env where
  "demo_env = \<lparr>e_dur = \<lambda>_. 1, e_fault = \<lambda>_. None, e_other = \<lambda>_ fs. fs,
     e_read = \<lambda>_. Err (Io_error TimedOut []), e_dev = \<lambda>_. [], e_umask = 18\<rparr>"

definition demo_world :: "fs \<Rightarrow> world" where
  "demo_world fs = \<lparr>w_env = demo_env, w_tick = 0, w_now = 0, w_fs = fs, w_wire = [],
     w_progress = [], w_crashed = False\<rparr>"

lemma demo_no_faults: "no_faults demo_env"
  by (simp add: no_faults_def demo_env_def)

lemma demo_private_paths: "private_paths ps demo_env"
proof -
  have "(384 :: u32) AND NOT 18 = 384" by code_simp
  then show ?thesis by (simp add: private_paths_def demo_env_def)
qed

end
