(* ===== verification/State_File.thy ===== *)
theory State_File
  imports Replace_File Siphash
begin

text \<open>
  \<open>state.rs\<close>: the command counter on disk (SPEC 13.4). The file holds the counter of the next
  framed command; it is replaced by writing a temporary file and renaming it.

  The encoding is that of the crate \<open>serde_json\<close>, a parameter (\<open>json\<close>); \<open>json_law\<close> is what its
  documentation promises: what was written is read back, white space behind it included.

  The theorems: \<open>save\<close> is all or nothing at every point it may be interrupted, and what it
  completes is what \<open>load\<close> returns; \<open>load\<close> refuses a file of any mode but 0600.
\<close>

section \<open>JSON as a parameter\<close>

record 'a json =
  to_vec_pretty :: "'a \<Rightarrow> u8 list option"
  from_slice :: "u8 list \<Rightarrow> 'a option"

definition json_law :: "'a json \<Rightarrow> bool" where
  "json_law J \<longleftrightarrow> (\<forall>x. \<exists>bs. to_vec_pretty J x = Some bs
     \<and> from_slice J bs = Some x \<and> from_slice J (bs @ [10]) = Some x)"

section \<open>The module\<close>

definition STATE_DIR :: str where
  "STATE_DIR = ''/var/lib/r503d''"

definition STATE_PATH :: str where
  "STATE_PATH = ''/var/lib/r503d/state.json''"

definition STATE_TMP :: str where
  "STATE_TMP = STATE_PATH @ ''.tmp''"

record state =
  next_cmd_counter :: u64

definition state_fresh :: state where
  "state_fresh = \<lparr>next_cmd_counter = 1\<rparr>"

definition state_load :: "state json \<Rightarrow> (world, state option, any_error) io" where
  "state_load J =
     bind_io (fs_exists STATE_PATH) (\<lambda>there.
       if \<not> there then return_io None
       else bind_io (with_context ''stat'' (fs_metadata STATE_PATH)) (\<lambda>nd.
         if node_mode nd AND o777 \<noteq> o600 then fail_io (Msg ''insecure mode'')
         else bind_io (with_context ''reading'' (fs_read STATE_PATH)) (\<lambda>bytes.
           case from_slice J bytes of
             None \<Rightarrow> fail_io (Context ''parsing'' From_json)
           | Some st \<Rightarrow> return_io (Some st))))"

definition state_save :: "state json \<Rightarrow> state \<Rightarrow> (world, unit, any_error) io" where
  "state_save J st =
     bind_io (with_context ''creating'' (fs_create_dir_all STATE_DIR)) (\<lambda>_.
     bind_io (ignore_io (fs_set_permissions STATE_DIR o700)) (\<lambda>_.
     bind_io (result_io (ok_or (to_vec_pretty J st) (Context ''serializing state'' From_json))) (\<lambda>json.
     bind_io (with_context ''creating'' (fs_open_truncate STATE_TMP o600)) (\<lambda>f.
     bind_io (map_err_io From_io (fs_write_all f json)) (\<lambda>f.
     bind_io (map_err_io From_io (fs_write_all f [10])) (\<lambda>f.
     bind_io (map_err_io From_io (fs_sync_all f)) (\<lambda>_.
     with_context ''renaming'' (fs_rename STATE_TMP STATE_PATH))))))))"

definition state_delete :: "(world, unit, any_error) io" where
  "state_delete =
     match_io (fs_remove_file STATE_PATH)
       (\<lambda>_. return_io ())
       (\<lambda>e. if err_kind e = NotFound then return_io ()
            else fail_io (Context ''removing'' (From_io e)))"

section \<open>What is known of the files\<close>

text \<open>
  The three names are private to the daemon; the assertions are those of \<open>replaced_file\<close> on them.
\<close>

abbreviation private_env :: "env \<Rightarrow> bool" where
  "private_env \<equiv> private_paths [STATE_DIR, STATE_PATH, STATE_TMP]"

abbreviation st_pred ::
  "(node option \<Rightarrow> bool) \<Rightarrow> (node option \<Rightarrow> (u8 list \<times> nat) list \<Rightarrow> bool) \<Rightarrow> world \<Rightarrow> bool"
where
  "st_pred \<equiv> rf_pred STATE_DIR STATE_TMP STATE_PATH"

interpretation state_json: replaced_file STATE_DIR STATE_TMP STATE_PATH
  by unfold_locales (simp add: STATE_DIR_def STATE_PATH_def STATE_TMP_def)

lemmas st_pred_def = rf_pred_def [of STATE_DIR STATE_TMP STATE_PATH]
lemmas private_env_def = private_paths_def [of "[STATE_DIR, STATE_PATH, STATE_TMP]"]

text \<open>Everything \<open>save\<close> may leave behind, wherever it stops.\<close>

lemma state_save_triple:
  assumes "json_law J"
  shows "triple (st_pred file_secure (\<lambda>a wr. a = A \<and> wr = W)) (state_save J st)
    (\<lambda>_. st_pred file_secure (\<lambda>a wr. (\<exists>d. mode_600 d a \<and> from_slice J d = Some st) \<and> wr = W))
    (st_pred file_secure (\<lambda>a wr. a = A \<and> wr = W))"
proof -
  obtain bs where bs: "to_vec_pretty J st = Some bs" "from_slice J (bs @ [10]) = Some st"
    using assms unfolding json_law_def by blast
  let ?F = "\<lambda>a wr. a = A \<and> wr = W"
  have json: "triple (st_pred file_secure ?F) (result_io (ok_or (to_vec_pretty J st) e))
      (\<lambda>x w. x = bs \<and> st_pred file_secure ?F w) (st_pred file_secure ?F)" for e :: any_error
    by (rule triple_result) (simp_all add: bs)
  have "triple (st_pred file_secure ?F) (state_save J st)
     (\<lambda>_. st_pred file_secure (\<lambda>a wr. mode_600 (bs @ [10]) a \<and> wr = W)) (st_pred file_secure ?F)"
    unfolding state_save_def with_context_def
    by (rule triple_bind [OF triple_map_err [OF state_json.keeps_create_dir]]
        triple_bind [OF triple_ignore [OF state_json.keeps_dir_mode]]
        triple_bind [OF json] triple_pure | simp only:, rule state_json.replace_two)+
  then show ?thesis
    by (rule triple_conseq) (use bs in \<open>auto simp: st_pred_def\<close>)
qed

section \<open>The properties of the file\<close>

definition node_counter :: "state json \<Rightarrow> node option \<Rightarrow> u64 option" where
  "node_counter J a =
     (case a of Some (File d _ _) \<Rightarrow> map_option next_cmd_counter (from_slice J d) | _ \<Rightarrow> None)"

text \<open>The counter a restart would read.\<close>

definition disk_counter :: "state json \<Rightarrow> world \<Rightarrow> u64 option" where
  "disk_counter J w = node_counter J (w_fs w STATE_PATH)"

text \<open>The state the files are in between two calls of the module.\<close>

definition state_dir_ok :: "world \<Rightarrow> bool" where
  "state_dir_ok w \<longleftrightarrow> st_pred file_secure (\<lambda>a wr. \<forall>t. a \<noteq> Some (Link t)) w"

text \<open>
  Claim C27. \<open>save\<close> is atomic: whatever call fails, and wherever the process dies, the state file
  afterwards either is what it was, and then \<open>save\<close> did not report success, or holds the new
  counter, and then with mode 0600; nothing is sent.
\<close>

theorem state_save_atomic:
  assumes "json_law J" "state_dir_ok w" "state_save J st w = (r, w')"
  shows "state_dir_ok w' \<and> w_wire w' = w_wire w
    \<and> (if is_ok r then disk_counter J w' = Some (next_cmd_counter st)
          \<and> (\<exists>d. mode_600 d (w_fs w' STATE_PATH))
        else w_fs w' STATE_PATH = w_fs w STATE_PATH)"
proof -
  have pre: "st_pred file_secure (\<lambda>a wr. a = w_fs w STATE_PATH \<and> wr = w_wire w) w"
    using assms(2) by (simp add: state_dir_ok_def st_pred_def)
  have "post (\<lambda>_. st_pred file_secure (\<lambda>a wr. (\<exists>d. mode_600 d a \<and> from_slice J d = Some st) \<and> wr = w_wire w))
      (st_pred file_secure (\<lambda>a wr. a = w_fs w STATE_PATH \<and> wr = w_wire w)) r w'"
    by (rule tripleD [OF state_save_triple [OF assms(1)] pre assms(3)])
  with assms(2) show ?thesis
    by (cases r) (auto simp: state_dir_ok_def st_pred_def disk_counter_def node_counter_def mode_600_def)
qed

lemma state_load_quiet:
  assumes "state_dir_ok w" "no_faults (w_env w)"
  shows "fst (state_load J w) =
    (case w_fs w STATE_PATH of
       None \<Rightarrow> Ok None
     | Some nd \<Rightarrow>
         if node_mode nd AND o777 \<noteq> o600 then Err (Msg ''insecure mode'')
         else (case node_data nd of
             Ok d \<Rightarrow> (case from_slice J d of
                 None \<Rightarrow> Err (Context ''parsing'' From_json)
               | Some st \<Rightarrow> Ok (Some st))
           | Err e \<Rightarrow> Err (Context ''reading'' (From_io e))
           | Panic \<Rightarrow> Panic))"
proof -
  have priv: "e_other (w_env w) t fs STATE_PATH = fs STATE_PATH" for t fs
    using assms(1) by (simp add: state_dir_ok_def st_pred_def private_env_def)
  have nl: "w_fs w STATE_PATH \<noteq> Some (Link t)" for t
    using assms(1) by (simp add: state_dir_ok_def st_pred_def)
  have f: "follow fs STATE_PATH = Ok STATE_PATH" if "fs STATE_PATH = w_fs w STATE_PATH" for fs
    by (rule follow_plain) (use that nl in simp)
  show ?thesis
    using assms(2) nl
    by (cases "w_fs w STATE_PATH")
      (auto simp: state_load_def bind_io_def fs_exists_def match_io_def atomic_quiet return_io_def
        f priv with_context_def map_err_io_def fs_metadata_def fs_lookup_def fs_read_def fail_io_def
        split: node.splits option.splits result.splits)
qed

text \<open>
  What \<open>load\<close> returns, when no call fails: nothing for a missing file, an error for any
  mode but 0600, an error for contents the decoder refuses, and otherwise what the file holds.
\<close>

theorem state_load_result:
  assumes "state_dir_ok w" "no_faults (w_env w)"
  shows "fst (state_load J w) =
    (case w_fs w STATE_PATH of
       None \<Rightarrow> Ok None
     | Some nd \<Rightarrow>
         if node_mode nd AND o777 \<noteq> o600 then Err (Msg ''insecure mode'')
         else (case node_data nd of
             Ok d \<Rightarrow> (case from_slice J d of
                 None \<Rightarrow> Err (Context ''parsing'' From_json)
               | Some st \<Rightarrow> Ok (Some st))
           | Err e \<Rightarrow> Err (Context ''reading'' (From_io e))
           | Panic \<Rightarrow> Panic))"
  by (rule state_load_quiet [OF assms])

text \<open>
  A restart continues where the last completed \<open>save\<close> left off: \<open>load\<close> returns exactly the
  state that was saved.
\<close>

theorem state_save_load:
  assumes "json_law J" "state_dir_ok w" "state_save J st w = (Ok (), w')" "no_faults (w_env w')"
  shows "fst (state_load J w') = Ok (Some st)"
proof -
  have pre: "st_pred file_secure (\<lambda>a wr. a = w_fs w STATE_PATH \<and> wr = w_wire w) w"
    using assms(2) by (simp add: state_dir_ok_def st_pred_def)
  have p: "st_pred file_secure (\<lambda>a wr. (\<exists>d. mode_600 d a \<and> from_slice J d = Some st) \<and> wr = w_wire w) w'"
    using tripleD [OF state_save_triple [OF assms(1)] pre assms(3)] by simp
  then have "state_dir_ok w'" by (auto simp: state_dir_ok_def st_pred_def mode_600_def)
  with p show ?thesis
    by (auto simp: state_load_quiet assms(4) st_pred_def mode_600_def)
qed

lemma state_save_env:
  "triple (\<lambda>w. X (w_env w)) (state_save J st) (\<lambda>_ w. X (w_env w)) (\<lambda>w. X (w_env w))"
  unfolding state_save_def
  by (intro keeps_bind triple_with_context triple_map_err triple_ignore file_calls_env write_all_env
      keeps_sync_all stable_env triple_result) simp_all

lemma state_load_keeps: "stable P \<Longrightarrow> triple P (state_load J) (\<lambda>_. P) P"
  unfolding state_load_def
  by (intro keeps_bind keeps_exists)
    (auto intro!: triple_return triple_fail keeps_bind triple_with_context keeps_metadata keeps_read
      split: option.splits)

text \<open>A codec to evaluate with.\<close>

definition demo_json :: "state json" where
  "demo_json = \<lparr>to_vec_pretty = \<lambda>st. Some (u64_to_le_bytes (next_cmd_counter st)),
     from_slice = \<lambda>bs. if length bs \<in> {8, 9}
       then Some \<lparr>next_cmd_counter = u64_from_le_bytes (take 8 bs)\<rparr> else None\<rparr>"

lemma demo_json_law: "json_law demo_json"
  by (auto simp: json_law_def demo_json_def)

lemma demo_private: "private_env demo_env"
  using demo_private_paths [of "[STATE_DIR, STATE_PATH, STATE_TMP]"] by (simp add: private_env_def)

lemma demo_world_ok: "state_dir_ok (demo_world Map.empty)"
  using demo_private by (simp add: state_dir_ok_def st_pred_def demo_world_def file_secure_def)

theorem state_save_atomic_witness:
  "\<exists>r w'. state_save demo_json state_fresh (demo_world Map.empty) = (r, w')
    \<and> state_dir_ok w' \<and> w_wire w' = w_wire (demo_world Map.empty)
    \<and> (if is_ok r then disk_counter demo_json w' = Some (next_cmd_counter state_fresh)
          \<and> (\<exists>d. mode_600 d (w_fs w' STATE_PATH))
        else w_fs w' STATE_PATH = w_fs (demo_world Map.empty) STATE_PATH)"
  using state_save_atomic [OF demo_json_law demo_world_ok, of state_fresh]
  by (metis surj_pair)

theorem state_save_load_witness:
  "fst (state_load demo_json (snd (state_save demo_json state_fresh (demo_world Map.empty))))
     = Ok (Some state_fresh)"
proof (rule state_save_load [OF demo_json_law demo_world_ok])
  have "fst (state_save demo_json state_fresh (demo_world Map.empty)) = Ok ()
      \<and> w_env (snd (state_save demo_json state_fresh (demo_world Map.empty))) = demo_env"
    by (simp add: state_save_def bind_io_def with_context_def map_err_io_def ignore_io_def match_io_def
        return_io_def result_io_def fs_create_dir_all_def fs_set_permissions_def fs_open_truncate_def
        fs_write_all_def fs_sync_all_def fs_rename_def atomic_call_def syscall_def demo_world_def
        demo_env_def fs_lookup_def follow_plain set_fs_def demo_json_def write_at_def)
  then show "state_save demo_json state_fresh (demo_world Map.empty)
      = (Ok (), snd (state_save demo_json state_fresh (demo_world Map.empty)))"
    and "no_faults (w_env (snd (state_save demo_json state_fresh (demo_world Map.empty))))"
    using demo_no_faults by (simp_all add: prod_eq_iff)
qed

theorem state_load_result_witness:
  "fst (state_load demo_json (demo_world (Map.empty(STATE_PATH \<mapsto> File (u64_to_le_bytes 7) 420 0))))
     = Err (Msg ''insecure mode'')"
proof -
  let ?w = "demo_world (Map.empty(STATE_PATH \<mapsto> File (u64_to_le_bytes 7) 420 0))"
  have ok: "state_dir_ok ?w"
    using demo_private by (simp add: state_dir_ok_def st_pred_def demo_world_def file_secure_def)
  have nf: "no_faults (w_env ?w)" using demo_no_faults by (simp add: demo_world_def)
  have m: "(420 :: u32) AND o777 \<noteq> o600" by code_simp
  show ?thesis
    using m by (simp only: state_load_result [OF ok nf]) (simp add: demo_world_def)
qed

end
