(* ===== verification/Sensor.thy ===== *)
theory Sensor
  imports State_File Framing "HOL-Library.List_Lexorder" "HOL-Library.Char_ord"
begin

text \<open>
  \<open>sensor.rs\<close>: the driver of the sensor, a client of the line protocol over the serial port. The
  struct \<open>R503\<close> is the record \<open>r503\<close> (the port itself is in the world); a method is an \<open>io\<close> over
  the pair of the struct and the world. The loops that wait for input are functions of their own,
  total because every read takes time and every line consumed shortens the buffer.

  The progress callback is one of three the program installs: a debug log, a trace log, or the
  sender of a channel, whose messages are kept in \<open>w_progress\<close>.
\<close>

section \<open>Types and constants\<close>

definition TIMEOUT_INFO_MS :: nat where "TIMEOUT_INFO_MS = 2000"
definition TIMEOUT_ENROLL_MS :: nat where "TIMEOUT_ENROLL_MS = 45000"
definition TIMEOUT_VERIFY_MS :: nat where "TIMEOUT_VERIFY_MS = 15000"
definition TIMEOUT_DELETE_MS :: nat where "TIMEOUT_DELETE_MS = 2000"
definition TIMEOUT_CLEAR_MS :: nat where "TIMEOUT_CLEAR_MS = 3000"
definition TIMEOUT_LED_MS :: nat where "TIMEOUT_LED_MS = 2000"
definition TIMEOUT_WAKE_MS :: nat where "TIMEOUT_WAKE_MS = 2000"
definition TIMEOUT_PING_MS :: nat where "TIMEOUT_PING_MS = 2000"

definition MAX_LINE_LEN :: nat where
  "MAX_LINE_LEN = 4096"

datatype sensor_error =
    NoDevice
  | OpenFailed str io_error
  | Sensor_Io io_error
  | Timeout str
  | Command str "str option"
  | Protocol str
  | CounterExhausted

record sensor_info =
  info_fw :: str
  info_capacity :: u16
  info_enrolled :: u16

record match_result =
  match_slot :: u8
  match_confidence :: u16

datatype progress_fn = Debug_log | Trace_log | To_channel nat

record r503 =
  port_path :: str
  rx_buf :: "u8 list"
  on_progress :: progress_fn
  auth_key :: "u8 list option"
  client_counter :: u64

text \<open>The crates the driver relies on.\<close>

record libs =
  ct_eq :: "u64 \<Rightarrow> u64 \<Rightarrow> bool"
  state_json :: "state json"

type_synonym ('a) sensor_io = "(r503 \<times> world, 'a, sensor_error) io"

section \<open>The counter\<close>

definition advance_counter :: "u64 \<Rightarrow> (u64, sensor_error) result" where
  "advance_counter counter =
     (if COUNTER_CEILING \<le> counter then Err CounterExhausted else Ok (counter + 1))"

section \<open>Small operations\<close>

definition set_auth :: "u8 list \<Rightarrow> u64 \<Rightarrow> r503 \<Rightarrow> r503" where
  "set_auth k next_counter s = s\<lparr>auth_key := Some k, client_counter := next_counter\<rparr>"

definition set_progress :: "progress_fn \<Rightarrow> r503 \<Rightarrow> r503" where
  "set_progress f s = s\<lparr>on_progress := f\<rparr>"

definition report_progress :: "str \<Rightarrow> r503 \<times> world \<Rightarrow> r503 \<times> world" where
  "report_progress msg s =
     (case s of (r, w) \<Rightarrow>
        (r, case on_progress r of
              To_channel c \<Rightarrow> w\<lparr>w_progress := w_progress w @ [(c, msg)]\<rparr>
            | _ \<Rightarrow> w))"

definition on_port :: "(world, 'a, io_error) io \<Rightarrow> 'a sensor_io" where
  "on_port m = on_world (map_err_io Sensor_Io m)"

definition clear_rx_buf :: "unit sensor_io" where
  "clear_rx_buf = modify_io (\<lambda>(s, w). (s\<lparr>rx_buf := []\<rparr>, w))"

section \<open>Lines\<close>

fun position :: "'a \<Rightarrow> 'a list \<Rightarrow> nat option" where
  "position x [] = None"
| "position x (y # ys) = (if y = x then Some 0 else map_option Suc (position x ys))"

definition line_of_bytes :: "u8 list \<Rightarrow> str" where
  "line_of_bytes bs =
     (let line = from_utf8_lossy (of_bytes bs)
      in if line \<noteq> [] \<and> last line = CHR 0x0D then butlast line else line)"

lemma w_now_step [simp]: "w_now (step_world k w) = w_now w + k + e_dur (w_env w) (w_tick w)"
  by (simp add: step_world_def)

lemma port_call_now: "w_now w \<le> w_now (snd (port_call w))"
  by (simp add: port_call_def atomic_call_def syscall_def Let_def return_io_def
      split: option.splits fault.splits)

lemma port_read_now: "w_now w < w_now (snd (port_read w))"
  by (simp add: port_read_def split: option.splits fault.splits)

lemma port_call_nowD: "port_call w = (r, w') \<Longrightarrow> w_now w \<le> w_now w'"
  using port_call_now [of w] by simp

lemma port_read_nowD: "port_read w = (r, w') \<Longrightarrow> w_now w < w_now w'"
  using port_read_now [of w] by simp

text \<open>
  One read, with the timeout set before it: setting the timeout may fail and is ignored, and that
  the read timed out is no error (\<open>None\<close>).
\<close>

definition port_poll :: "(world, u8 list option, io_error) io" where
  "port_poll =
     bind_io (ignore_io port_call) (\<lambda>_.
       match_io port_read
         (\<lambda>bs. return_io (Some bs))
         (\<lambda>e. if err_kind e = TimedOut then return_io None else fail_io e))"

lemma port_poll_nowD:
  assumes "port_poll w = (r, w')" "r \<noteq> Panic"
  shows "w_now w < w_now w'"
proof -
  obtain r1 w1 where c: "port_call w = (r1, w1)" by (cases "port_call w")
  obtain r2 w2 where d: "port_read w1 = (r2, w2)" by (cases "port_read w1")
  have "w' = w2"
    using assms c d
    by (auto simp: port_poll_def bind_io_def ignore_io_def match_io_def return_io_def fail_io_def
        split: result.splits if_splits)
  then show ?thesis using port_call_nowD [OF c] port_read_nowD [OF d] by auto
qed

text \<open>\<open>read_line\<close>: a complete line from the buffer, or more input until the deadline.\<close>

function read_line :: "nat \<Rightarrow> str option sensor_io" where
  "read_line deadline (s, w) =
     (case position 10 (rx_buf s) of
        Some nl \<Rightarrow>
          (Ok (Some (line_of_bytes (take nl (rx_buf s)))),
           s\<lparr>rx_buf := drop (Suc nl) (rx_buf s)\<rparr>, w)
      | None \<Rightarrow>
          if MAX_LINE_LEN < length (rx_buf s)
          then bind_io (on_world (ignore_io port_call)) (\<lambda>_.
                 fail_io (Protocol ''line exceeded 4096 bytes without newline''))
                 (s\<lparr>rx_buf := []\<rparr>, w)
          else if deadline \<le> w_now w then (Ok None, s, w)
          else (case port_poll w of
                  (Ok None, w') \<Rightarrow> read_line deadline (s, w')
                | (Ok (Some bs), w') \<Rightarrow>
                    if 256 < length bs then (Panic, s, w')
                    else read_line deadline (s\<lparr>rx_buf := rx_buf s @ bs\<rparr>, w')
                | (Err e, w') \<Rightarrow> (Err (Sensor_Io e), s, w')
                | (Panic, w') \<Rightarrow> (Panic, s, w')))"
  by pat_completeness auto
termination
  by (relation "measure (\<lambda>(deadline, s, w). deadline - w_now w)")
    (auto dest!: port_poll_nowD [OF sym])

declare read_line.simps [simp del]

lemma position_Some_less: "position x xs = Some i \<Longrightarrow> i < length xs"
  by (induction xs arbitrary: i) (auto split: if_splits)

text \<open>The ways a call of \<open>read_line\<close> can go: a rule for proofs about it.\<close>

lemma read_line_cases:
  assumes "read_line deadline (s, w) = (r, s', w')"
  obtains (line) nl where "position 10 (rx_buf s) = Some nl"
      "r = Ok (Some (line_of_bytes (take nl (rx_buf s))))"
      "s' = s\<lparr>rx_buf := drop (Suc nl) (rx_buf s)\<rparr>" "w' = w"
    | (too_long) "position 10 (rx_buf s) = None" "s' = s\<lparr>rx_buf := []\<rparr>"
      "w' = snd (port_call w)" "MAX_LINE_LEN < length (rx_buf s)"
      "r = Panic \<or> r = Err (Protocol ''line exceeded 4096 bytes without newline'')"
    | (late) "position 10 (rx_buf s) = None" "deadline \<le> w_now w" "r = Ok None" "s' = s" "w' = w"
    | (more) bs w2 ob where "position 10 (rx_buf s) = None" "w_now w < deadline"
      "port_poll w = (Ok ob, w2)" "bs = (case ob of None \<Rightarrow> [] | Some b \<Rightarrow> b)"
      "length bs \<le> 256" "\<not> MAX_LINE_LEN < length (rx_buf s)"
      "read_line deadline (s\<lparr>rx_buf := rx_buf s @ bs\<rparr>, w2) = (r, s', w')"
    | (broken) "port_poll w = (Panic, w')" "r = Panic" "s' = s" | (overrun) bs
      where "port_poll w = (Ok (Some bs), w')" "r = Panic" "s' = s" | (io) e
      where "port_poll w = (Err e, w')" "r = Err (Sensor_Io e)" "s' = s"
proof (cases "position 10 (rx_buf s)")
  case (Some nl)
  then show ?thesis using assms by (intro line) (auto simp: read_line.simps [of _ s w])
next
  case None
  consider "MAX_LINE_LEN < length (rx_buf s)"
    | "\<not> MAX_LINE_LEN < length (rx_buf s)" "deadline \<le> w_now w"
    | "\<not> MAX_LINE_LEN < length (rx_buf s)" "\<not> deadline \<le> w_now w" by blast
  then show ?thesis
  proof cases
    case 1
    with None assms show ?thesis
      by (intro too_long)
        (auto simp: read_line.simps [of _ s w] bind_io_def fail_io_def on_world_def ignore_io_def
          match_io_def return_io_def split: prod.splits result.splits)
  next
    case 2
    with None assms show ?thesis by (intro late) (auto simp: read_line.simps [of _ s w])
  next
    case 3
    obtain rp w2 where p: "port_poll w = (rp, w2)" by (cases "port_poll w")
    show ?thesis
    proof (cases rp)
      case (Ok ob)
      show ?thesis
      proof (cases ob)
        case None': None
        have "s\<lparr>rx_buf := rx_buf s @ []\<rparr> = s" by simp
        with None None' 3 p Ok assms show ?thesis
          by (intro more [of ob w2 "[]"]) (auto simp: read_line.simps [of _ s w])
      next
        case (Some bs)
        with None 3 p Ok assms show ?thesis
          by (cases "256 < length bs")
            (auto simp: read_line.simps [of _ s w] intro: overrun more [of ob w2 bs])
      qed
    qed (use None 3 p assms in \<open>auto simp: read_line.simps [of _ s w] intro: io broken\<close>)
  qed
qed

text \<open>A line costs time or comes out of the buffer: the measure of the loops over lines.\<close>

lemma read_line_progress:
  "read_line deadline (s, w) = (Ok ol, s', w') \<Longrightarrow>
     (ol = None \<longrightarrow> deadline \<le> w_now w') \<and>
     (w_now w' = w_now w \<and> (ol \<noteq> None \<longrightarrow> length (rx_buf s') < length (rx_buf s))
      \<or> w_now w < w_now w' \<and> w_now w < deadline)"
proof (induction deadline "(s, w)" arbitrary: s w rule: read_line.induct)
  case (1 deadline s w)
  from "1.prems" show ?case
  proof (cases rule: read_line_cases)
    case (line nl)
    then show ?thesis using position_Some_less [OF line(1)] by auto
  next
    case (more bs w2 ob)
    have "(ol = None \<longrightarrow> deadline \<le> w_now w') \<and> w_now w2 \<le> w_now w'"
    proof (cases ob)
      case None
      have e: "s\<lparr>rx_buf := rx_buf s @ []\<rparr> = s" by simp
      show ?thesis
        using "1.hyps"(1) [OF more(1,6) _ more(3)[symmetric]] None more by auto
    next
      case (Some a)
      then show ?thesis
        using "1.hyps"(2) [OF more(1,6) _ more(3)[symmetric]] more by auto
    qed
    moreover have "w_now w < w_now w2" using port_poll_nowD [OF more(3)] by simp
    ultimately show ?thesis using more(2) by simp
  qed auto
qed

lemma read_line_measure:
  assumes "read_line deadline (s, w) = (Ok (Some l), s', w')"
  shows "((deadline, s', w'), (deadline, s, w)) \<in>
    measures [\<lambda>(d, s, w). d - w_now w, \<lambda>(d, s, w). length (rx_buf s)]"
  using read_line_progress [OF assms] by auto

section \<open>Loops over lines\<close>

text \<open>
  The three loops of the driver that consume lines until a deadline differ in what they do with a
  line: end with a result, go on, or hand a message to the callback and go on. \<open>q\<close> is what the loop
  carries from line to line, \<open>late\<close> the result at the deadline.
\<close>

datatype ('q, 'a) line_action =
    Finish "('a, sensor_error) result"
  | Skip 'q
  | Report str 'q

lemma report_progress_same [simp]:
  "fst (report_progress m s) = fst s" "w_now (snd (report_progress m s)) = w_now (snd s)"
  by (simp_all add: report_progress_def split: prod.splits progress_fn.splits)

lemma report_progress_pair:
  "report_progress m (s, w) = (s, snd (report_progress m (s, w)))"
  by (metis fst_conv prod.collapse report_progress_same(1))

function line_loop ::
  "('q \<Rightarrow> str \<Rightarrow> ('q, 'a) line_action) \<Rightarrow> ('a, sensor_error) result \<Rightarrow> nat \<Rightarrow> 'q \<Rightarrow> 'a sensor_io"
where
  "line_loop act late deadline q (s, w) =
     (case read_line deadline (s, w) of
        (Ok None, s', w') \<Rightarrow> (late, s', w')
      | (Ok (Some line), s', w') \<Rightarrow>
          (case act q line of
             Finish r \<Rightarrow> (r, s', w')
           | Skip q' \<Rightarrow> line_loop act late deadline q' (s', w')
           | Report msg q' \<Rightarrow>
               line_loop act late deadline q' (s', snd (report_progress msg (s', w'))))
      | (Err e, s', w') \<Rightarrow> (Err e, s', w')
      | (Panic, s', w') \<Rightarrow> (Panic, s', w'))"
  by pat_completeness auto
termination
  by (relation "measures [\<lambda>(a, l, d, q, s, w). d - w_now w, \<lambda>(a, l, d, q, s, w). length (rx_buf s)]")
    (auto dest!: read_line_progress [OF sym])

declare line_loop.simps [simp del]

text \<open>
  Proofs about the loop: an assertion on what is carried, the struct and the world that reading a
  line and reporting a message keep, holds where the loop ends.
\<close>

lemma line_loop_ends:
  assumes step: "\<And>q s w l s' w'. P q s w \<Longrightarrow> read_line deadline (s, w) = (Ok (Some l), s', w') \<Longrightarrow>
      (case act q l of
         Finish r \<Rightarrow> Q r s' w'
       | Skip q' \<Rightarrow> P q' s' w'
       | Report m q' \<Rightarrow> P q' s' (snd (report_progress m (s', w'))))"
    and lateQ: "\<And>q s w s' w'. P q s w \<Longrightarrow> read_line deadline (s, w) = (Ok None, s', w') \<Longrightarrow> Q late s' w'"
    and exc: "\<And>q s w r s' w'. P q s w \<Longrightarrow> read_line deadline (s, w) = (r, s', w') \<Longrightarrow>
      (\<And>x. r \<noteq> Ok x) \<Longrightarrow> Q (case r of Err e \<Rightarrow> Err e | _ \<Rightarrow> Panic) s' w'"
  shows "P q s w \<Longrightarrow> line_loop act late deadline q (s, w) = (r, s', w') \<Longrightarrow> Q r s' w'"
  using step lateQ exc
proof (induction act late deadline q "(s, w)" arbitrary: s w rule: line_loop.induct)
  case (1 act late deadline q s w)
  obtain r1 s1 w1 where l: "read_line deadline (s, w) = (r1, s1, w1)"
    by (cases "read_line deadline (s, w)")
  show ?case
  proof (cases r1)
    case (Ok ol)
    show ?thesis
    proof (cases ol)
      case None
      then show ?thesis
        using l Ok 1(3,4) 1(6) [OF 1(3)] by (simp add: line_loop.simps [of _ _ _ _ s w])
    next
      case (Some line)
      note l' = l [unfolded Ok Some]
      note st = 1(5) [OF 1(3) l']
      show ?thesis
      proof (cases "act q line")
        case (Finish r')
        then show ?thesis using st l' 1(4) by (simp add: line_loop.simps [of _ _ _ _ s w])
      next
        case (Skip q')
        then show ?thesis
          using st 1(1) [OF l'[symmetric] refl refl refl, of q'] 1(4-7) l'
          by (simp add: line_loop.simps [of _ _ _ _ s w])
      next
        case (Report m q')
        then show ?thesis
          using st 1(2) [OF l'[symmetric] refl refl refl, of m q'] 1(4-7) l'
          by (simp add: line_loop.simps [of _ _ _ _ s w])
      qed
    qed
  next
    case (Err e)
    then show ?thesis using l 1(4) 1(7) [OF 1(3) l] by (simp add: line_loop.simps [of _ _ _ _ s w])
  next
    case Panic
    then show ?thesis using l 1(4) 1(7) [OF 1(3) l] by (simp add: line_loop.simps [of _ _ _ _ s w])
  qed
qed

section \<open>The handshake\<close>

text \<open>Phase 1 of \<open>sync\<close>: drain the boot output.\<close>

function drain_loop :: "nat \<Rightarrow> nat \<Rightarrow> nat option \<Rightarrow> (world, unit, io_error) io" where
  "drain_loop deadline drain_start last_byte_at w =
     (if deadline \<le> w_now w then (Ok (), w)
      else if last_byte_at = None \<and> from_millis 800 < w_now w - drain_start then (Ok (), w)
      else (case port_poll w of
              (Ok (Some bs), w') \<Rightarrow>
                drain_loop deadline drain_start
                  (if bs = [] then last_byte_at else Some (w_now w')) w'
            | (Ok None, w') \<Rightarrow>
                (case last_byte_at of
                   Some t \<Rightarrow> if from_millis 300 < w_now w' - t then (Ok (), w')
                             else drain_loop deadline drain_start last_byte_at w'
                 | None \<Rightarrow> drain_loop deadline drain_start last_byte_at w')
            | (Err e, w') \<Rightarrow> (Err e, w')
            | (Panic, w') \<Rightarrow> (Panic, w')))"
  by pat_completeness auto
termination
  by (relation "measure (\<lambda>(deadline, st, l, w). deadline - w_now w)")
    (auto dest!: port_poll_nowD [OF sym])

declare drain_loop.simps [simp del]

text \<open>Phase 2: wait for a pong; whether it came before the deadline.\<close>

definition pong_action :: "unit \<Rightarrow> str \<Rightarrow> (unit, bool) line_action" where
  "pong_action q l = (if l = ''OK pong'' then Finish (Ok True) else Skip ())"

definition await_pong :: "nat \<Rightarrow> bool sensor_io" where
  "await_pong deadline =
     bind_io (line_loop pong_action (Ok False) deadline ()) (\<lambda>pong.
       if pong
       then bind_io clear_rx_buf (\<lambda>_. bind_io (on_world (ignore_io port_call)) (\<lambda>_. return_io True))
       else return_io False)"

definition ping_attempt :: "nat \<Rightarrow> bool sensor_io" where
  "ping_attempt deadline =
     bind_io clear_rx_buf (\<lambda>_.
     bind_io (on_port port_call) (\<lambda>_.
     bind_io (on_port (port_write_all (as_bytes ''ping'' @ [10]))) (\<lambda>_.
     bind_io (on_port port_call) (\<lambda>_.
     bind_io (on_world now) (\<lambda>t.
     await_pong (min (t + from_millis 1000) deadline))))))"

text \<open>A ping that is not answered costs time.\<close>

lemma await_pong_False:
  assumes "await_pong deadline (s, w) = (Ok False, s', w')"
  shows "deadline \<le> w_now w'"
proof -
  obtain r s1 w1 where l: "line_loop pong_action (Ok False) deadline () (s, w) = (r, s1, w1)"
    by (cases "line_loop pong_action (Ok False) deadline () (s, w)")
  have "r = Ok False \<longrightarrow> deadline \<le> w_now w1"
    by (rule line_loop_ends [where P = "\<lambda>_ _ _. True"
          and Q = "\<lambda>r s w. r = Ok False \<longrightarrow> deadline \<le> w_now w", OF _ _ _ TrueI l])
      (auto simp: pong_action_def dest: read_line_progress split: result.splits)
  with assms l show ?thesis
    by (auto simp: await_pong_def bind_io_def return_io_def split: result.splits prod.splits if_splits)
qed

lemma ping_attempt_False:
  assumes "ping_attempt deadline (s, w) = (Ok False, s', w')" "w_now w < deadline"
  shows "w_now w < w_now w'"
proof -
  have "triple (\<lambda>(_, v). w_now w \<le> w_now v) (ping_attempt deadline)
      (\<lambda>b (_, v). \<not> b \<longrightarrow> w_now w < w_now v) (\<lambda>_. True)"
    unfolding ping_attempt_def
  proof (intro triple_bind)
    show "triple (\<lambda>(_, v). w_now w \<le> w_now v) clear_rx_buf (\<lambda>_ (_, v). w_now w \<le> w_now v)
        (\<lambda>_. True)"
      unfolding clear_rx_buf_def by (rule triple_modify) auto
    show "triple (\<lambda>(_, v). w_now w \<le> w_now v) (on_port port_call) (\<lambda>_ (_, v). w_now w \<le> w_now v)
        (\<lambda>_. True)" for u :: unit
      unfolding on_port_def
      by (intro triple_on_world triple_map_err triple_conseq [OF keeps_port_call [OF stable_time]]) auto
    then show "triple (\<lambda>(_, v). w_now w \<le> w_now v) (on_port port_call)
        (\<lambda>_ (_, v). w_now w \<le> w_now v) (\<lambda>_. True)" for u u' u'' :: unit .
    show "triple (\<lambda>(_, v). w_now w \<le> w_now v) (on_port (port_write_all bs))
        (\<lambda>_ (_, v). w_now w \<le> w_now v) (\<lambda>_. True)" for u u' :: unit and bs
      unfolding on_port_def by (intro triple_on_world triple_map_err triple_port_write) simp_all
    show "triple (\<lambda>(_, v). w_now w \<le> w_now v) (on_world now)
        (\<lambda>t (_, v). w_now w \<le> t \<and> t \<le> w_now v) (\<lambda>_. True)" for u u' u'' u3 :: unit
      unfolding now_def by (intro triple_on_world triple_get) simp
    show "triple (\<lambda>(_, v). w_now w \<le> t \<and> t \<le> w_now v) (await_pong (min (t + from_millis 1000) deadline))
        (\<lambda>b (_, v). \<not> b \<longrightarrow> w_now w < w_now v) (\<lambda>_. True)" for t
    proof (rule tripleI)
      fix sw :: "r503 \<times> world"
      assume p: "case sw of (_, v) \<Rightarrow> w_now w \<le> t \<and> t \<le> w_now v"
      obtain s1 w1 where sw: "sw = (s1, w1)" by (cases sw)
      define d where "d = min (t + from_millis 1000) deadline"
      have d: "w_now w < d" using p assms(2) by (simp add: d_def sw from_millis_def)
      obtain r s2 w2 where l: "await_pong d (s1, w1) = (r, s2, w2)" by (cases "await_pong d (s1, w1)")
      have "r = Ok False \<Longrightarrow> d \<le> w_now w2" using await_pong_False l by blast
      then show "post (\<lambda>b (_, v). \<not> b \<longrightarrow> w_now w < w_now v) (\<lambda>_. True)
          (fst (await_pong (min (t + from_millis 1000) deadline) sw))
          (snd (await_pong (min (t + from_millis 1000) deadline) sw))"
        using d unfolding d_def [symmetric] by (cases r) (auto simp: sw l)
    qed
  qed
  from tripleD [OF this _ assms(1)] show ?thesis by simp
qed

function ping_loop :: "nat \<Rightarrow> bool sensor_io" where
  "ping_loop deadline (s, w) =
     (if deadline \<le> w_now w then (Ok False, s, w)
      else (case ping_attempt deadline (s, w) of
              (Ok True, s', w') \<Rightarrow> (Ok True, s', w')
            | (Ok False, s', w') \<Rightarrow> ping_loop deadline (s', w')
            | (Err e, s', w') \<Rightarrow> (Err e, s', w')
            | (Panic, s', w') \<Rightarrow> (Panic, s', w')))"
  by pat_completeness auto
termination
  by (relation "measure (\<lambda>(deadline, s, w). deadline - w_now w)")
    (auto dest!: ping_attempt_False [OF sym])

declare ping_loop.simps [simp del]

definition sync :: "nat \<Rightarrow> unit sensor_io" where
  "sync timeout =
     bind_io (on_world now) (\<lambda>t0.
     bind_io (on_world now) (\<lambda>drain_start.
     bind_io (on_port (drain_loop (t0 + timeout) drain_start None)) (\<lambda>_.
     bind_io (ping_loop (t0 + timeout)) (\<lambda>pong.
       if pong then return_io () else fail_io (Timeout ''could not synchronize with firmware'')))))"

section \<open>Executing a command\<close>

definition send :: "str \<Rightarrow> unit sensor_io" where
  "send cmd =
     bind_io (on_port (port_write_all (as_bytes cmd))) (\<lambda>_.
     bind_io (on_port (port_write_all [10])) (\<lambda>_.
     on_port port_call))"

definition unframed_action :: "unit \<Rightarrow> str \<Rightarrow> (unit, str) line_action" where
  "unframed_action q line =
     (if line = [] then Skip ()
      else (case strip_prefix line ''PROGRESS '' of
              Some rest \<Rightarrow> Report rest ()
            | None \<Rightarrow>
                if starts_with line ''OK'' \<or> starts_with line ''ERR'' then Finish (Ok line)
                else Report (''[unhandled] '' @ line) ()))"

definition execute_unframed :: "str \<Rightarrow> nat \<Rightarrow> str sensor_io" where
  "execute_unframed cmd timeout_ms =
     bind_io clear_rx_buf (\<lambda>_.
     bind_io (on_port port_call) (\<lambda>_.
     bind_io (send cmd) (\<lambda>_.
     bind_io (on_world now) (\<lambda>t.
     line_loop unframed_action (Err (Timeout cmd)) (t + from_millis timeout_ms) ()))))"

text \<open>
  One line of a framed exchange, \<open>expected_seq\<close> carried along: it must be a response frame with the
  right MAC, counter and sequence number (a \<open>u32\<close> that wraps in a release build).
\<close>

definition framed_action ::
  "(u64 \<Rightarrow> u64 \<Rightarrow> bool) \<Rightarrow> u8 list \<Rightarrow> u64 \<Rightarrow> u32 \<Rightarrow> str \<Rightarrow> (u32, str) line_action"
where
  "framed_action ct key counter expected_seq line =
     (if line = [] then Skip expected_seq
      else if \<not> starts_with line ''R '' then Finish (Err (Command ''framing_rejected'' (Some line)))
      else (case verify_response ct key line of
              Err e \<Rightarrow> Finish (Err (Protocol ''response framing''))
            | Panic \<Rightarrow> Finish Panic
            | Ok (got_ctr, got_seq, body) \<Rightarrow>
                if got_ctr \<noteq> counter then Finish (Err (Protocol ''response counter mismatch''))
                else if got_seq \<noteq> expected_seq then Finish (Err (Protocol ''response seq mismatch''))
                else (case strip_prefix body ''PROGRESS '' of
                        Some rest \<Rightarrow> Report rest (expected_seq + 1)
                      | None \<Rightarrow>
                          if starts_with body ''OK'' \<or> starts_with body ''ERR'' then Finish (Ok body)
                          else Report (''[unhandled] '' @ body) (expected_seq + 1))))"

text \<open>
  The framed exchange. The next counter is on disk before anything is sent; the response must
  carry the counter of the command.
\<close>

definition execute_framed :: "libs \<Rightarrow> str \<Rightarrow> nat \<Rightarrow> str sensor_io" where
  "execute_framed L cmd timeout_ms =
     bind_io (get_io (\<lambda>(s, w). (auth_key s, client_counter s))) (\<lambda>(ok, counter).
       case ok of
         None \<Rightarrow> panic_io
       | Some key \<Rightarrow>
           bind_io (result_io (advance_counter counter)) (\<lambda>next.
           bind_io (on_world (map_err_io
               (\<lambda>_. Sensor_Io (Io_error Other ''persist client_counter''))
               (state_save (state_json L) \<lparr>next_cmd_counter = next\<rparr>))) (\<lambda>_.
           bind_io (modify_io (\<lambda>(s, w). (s\<lparr>client_counter := next\<rparr>, w))) (\<lambda>_.
           bind_io clear_rx_buf (\<lambda>_.
           bind_io (on_port port_call) (\<lambda>_.
           bind_io (on_port (port_write_all (as_bytes (encode_command key counter cmd)))) (\<lambda>_.
           bind_io (on_port (port_write_all [10])) (\<lambda>_.
           bind_io (on_port port_call) (\<lambda>_.
           bind_io (on_world now) (\<lambda>t.
           line_loop (framed_action (ct_eq L) key counter) (Err (Timeout cmd)) (t + from_millis timeout_ms) 0))))))))))"

definition execute :: "libs \<Rightarrow> str \<Rightarrow> nat \<Rightarrow> str sensor_io" where
  "execute L cmd timeout_ms =
     bind_io (get_io (\<lambda>(s, w). auth_key s)) (\<lambda>k.
       if k \<noteq> None then execute_framed L cmd timeout_ms else execute_unframed cmd timeout_ms)"

section \<open>Reading the answers\<close>

text \<open>\<open>OK <rest>\<close>, or \<open>ERR <code> [<detail>]\<close>.\<close>

definition expect_ok :: "str \<Rightarrow> (str, sensor_error) result" where
  "expect_ok line =
     (case strip_prefix line ''OK'' of
        Some rest \<Rightarrow> Ok (trim rest)
      | None \<Rightarrow>
          let parts = splitn_ws 3 line
          in Err (Command (if 1 < length parts then parts ! 1 else ''unknown'')
               (if 2 < length parts then Some (parts ! 2) else None)))"

definition parse_kv :: "str \<Rightarrow> str \<rightharpoonup> str" where
  "parse_kv body = map_of (rev (List.map_filter (split_once CHR ''='') (split_whitespace body)))"

definition parse_field :: "nat \<Rightarrow> (str \<rightharpoonup> str) \<Rightarrow> str \<Rightarrow> (nat, sensor_error) result" where
  "parse_field width kv k =
     (case kv k of
        None \<Rightarrow> Err (Protocol (''missing '' @ k))
      | Some v \<Rightarrow>
          (case parse_uint width v of
             None \<Rightarrow> Err (Protocol (''bad '' @ k))
           | Some n \<Rightarrow> Ok n))"

definition parse_u8 :: "(str \<rightharpoonup> str) \<Rightarrow> str \<Rightarrow> (u8, sensor_error) result" where
  "parse_u8 kv k = map_r of_nat (parse_field 8 kv k)"

definition parse_u16 :: "(str \<rightharpoonup> str) \<Rightarrow> str \<Rightarrow> (u16, sensor_error) result" where
  "parse_u16 kv k = map_r of_nat (parse_field 16 kv k)"

section \<open>Commands\<close>

definition R503_DATASHEET_CAPACITY :: u16 where
  "R503_DATASHEET_CAPACITY = 200"

definition show_u8 :: "u8 \<Rightarrow> str" where
  "show_u8 v = show_nat (unat v)"

definition command_body :: "libs \<Rightarrow> str \<Rightarrow> nat \<Rightarrow> str sensor_io" where
  "command_body L cmd t = bind_io (execute L cmd t) (\<lambda>line. result_io (expect_ok line))"

definition info_of_body :: "str \<Rightarrow> sensor_info" where
  "info_of_body body =
     (let kv = parse_kv body
      in \<lparr>info_fw = (case kv ''fw'' of None \<Rightarrow> [] | Some v \<Rightarrow> v),
          info_capacity = (case parse_u16 kv ''capacity'' of Ok c \<Rightarrow> c | _ \<Rightarrow> R503_DATASHEET_CAPACITY),
          info_enrolled = (case parse_u16 kv ''enrolled'' of Ok c \<Rightarrow> c | _ \<Rightarrow> 0)\<rparr>)"

definition sensor_get_info :: "libs \<Rightarrow> sensor_info sensor_io" where
  "sensor_get_info L =
     bind_io (command_body L ''info'' TIMEOUT_INFO_MS) (\<lambda>body. return_io (info_of_body body))"

definition sensor_enroll :: "libs \<Rightarrow> u8 \<Rightarrow> u8 sensor_io" where
  "sensor_enroll L sl =
     bind_io (command_body L (''enroll '' @ show_u8 sl) TIMEOUT_ENROLL_MS) (\<lambda>body.
       result_io (parse_u8 (parse_kv body) ''enrolled''))"

definition match_of_body :: "str \<Rightarrow> (match_result, sensor_error) result" where
  "match_of_body body =
     (let kv = parse_kv body
      in bind_r (parse_u8 kv ''match'') (\<lambda>sl.
         bind_r (parse_u16 kv ''confidence'') (\<lambda>c. Ok \<lparr>match_slot = sl, match_confidence = c\<rparr>)))"

definition sensor_verify :: "libs \<Rightarrow> match_result sensor_io" where
  "sensor_verify L =
     bind_io (command_body L ''verify'' TIMEOUT_VERIFY_MS) (\<lambda>body. result_io (match_of_body body))"

definition sensor_identify :: "libs \<Rightarrow> match_result sensor_io" where
  "sensor_identify L =
     bind_io (command_body L ''identify'' TIMEOUT_VERIFY_MS) (\<lambda>body. result_io (match_of_body body))"

definition sensor_delete :: "libs \<Rightarrow> u8 \<Rightarrow> u8 sensor_io" where
  "sensor_delete L sl =
     bind_io (command_body L (''delete '' @ show_u8 sl) TIMEOUT_DELETE_MS) (\<lambda>body.
       result_io (parse_u8 (parse_kv body) ''deleted''))"

definition sensor_clear :: "libs \<Rightarrow> unit sensor_io" where
  "sensor_clear L = bind_io (command_body L ''clear confirm'' TIMEOUT_CLEAR_MS) (\<lambda>_. return_io ())"

definition sensor_wake :: "libs \<Rightarrow> bool sensor_io" where
  "sensor_wake L =
     bind_io (command_body L ''wake'' TIMEOUT_WAKE_MS) (\<lambda>body.
       return_io (parse_kv body ''wake'' = Some ''1''))"

definition sensor_ping :: "libs \<Rightarrow> bool sensor_io" where
  "sensor_ping L =
     bind_io (execute L ''ping'' TIMEOUT_PING_MS) (\<lambda>line.
       return_io (starts_with line ''OK pong''))"

definition sensor_led_off :: "libs \<Rightarrow> unit sensor_io" where
  "sensor_led_off L = bind_io (command_body L ''led off'' TIMEOUT_LED_MS) (\<lambda>_. return_io ())"

section \<open>Opening the device\<close>

definition dev_matches :: "str \<Rightarrow> str list \<Rightarrow> str list" where
  "dev_matches pattern names =
     sort (map (\<lambda>n. ''/dev/'' @ n) (filter (\<lambda>n. utf8_valid n \<and> starts_with n pattern) names))"

fun find_pattern :: "str list \<Rightarrow> (world, str, sensor_error) io" where
  "find_pattern [] = fail_io NoDevice"
| "find_pattern (p # ps) =
     bind_io (ok_io fs_read_dev) (\<lambda>ons.
       case dev_matches p (case ons of Some ns \<Rightarrow> ns | None \<Rightarrow> []) of
         first # _ \<Rightarrow> return_io first
       | [] \<Rightarrow> find_pattern ps)"

definition find_port :: "(world, str, sensor_error) io" where
  "find_port =
     bind_io (fs_exists ''/dev/r503'') (\<lambda>there.
       if there then return_io ''/dev/r503'' else find_pattern [''ttyACM'', ''ttyUSB''])"

text \<open>\<open>R503::open\<close>: the new struct is the value; before the handshake there is none.\<close>

definition fresh_r503 :: "str \<Rightarrow> r503" where
  "fresh_r503 path =
     \<lparr>port_path = path, rx_buf = [], on_progress = Debug_log, auth_key = None, client_counter = 0\<rparr>"

definition r503_open :: "str option \<Rightarrow> nat \<Rightarrow> (world, r503, sensor_error) io" where
  "r503_open port sync_timeout =
     bind_io (case port of Some p \<Rightarrow> return_io p | None \<Rightarrow> find_port) (\<lambda>path.
     bind_io (map_err_io (OpenFailed path) port_call) (\<lambda>_.
     (\<lambda>w. case sync sync_timeout (fresh_r503 path, w) of
            (Ok _, s, w') \<Rightarrow> (Ok s, w')
          | (Err e, s, w') \<Rightarrow> (Err e, w')
          | (Panic, s, w') \<Rightarrow> (Panic, w'))))"

end
