(* ===== verification/Sensor_Lines.thy ===== *)
theory Sensor_Lines
  imports Sensor
begin

text \<open>
  The receiving side of \<open>Sensor\<close>: what \<open>read_line\<close> and the loops built on it leave alone, the bound
  on the receive buffer, and that lines are the input cut at its newlines.
\<close>

section \<open>Assertions the receiving side cannot break\<close>

definition rx_free :: "(r503 \<times> world \<Rightarrow> bool) \<Rightarrow> bool" where
  "rx_free P \<longleftrightarrow> (\<forall>s w b. P (s, w) \<longrightarrow> P (s\<lparr>rx_buf := b\<rparr>, w)) \<and> (\<forall>s. stable (\<lambda>w. P (s, w)))
     \<and> (\<forall>s w l. P (s, w) \<longrightarrow> P (s, w\<lparr>w_progress := l\<rparr>))"

lemma rx_free_buf: "rx_free P \<Longrightarrow> P (s, w) \<Longrightarrow> P (s\<lparr>rx_buf := b\<rparr>, w)"
  and rx_free_stable: "rx_free P \<Longrightarrow> stable (\<lambda>w. P (s, w))"
  and rx_free_progress: "rx_free P \<Longrightarrow> P (s, w) \<Longrightarrow> P (s, w\<lparr>w_progress := l\<rparr>)"
  by (auto simp: rx_free_def)

lemma rx_free_report: "rx_free P \<Longrightarrow> P (s, w) \<Longrightarrow> P (report_progress m (s, w))"
  by (simp add: report_progress_def rx_free_progress split: progress_fn.splits)

lemma keeps_call: "stable P \<Longrightarrow> P w \<Longrightarrow> P (snd (port_call w))"
  using keeps_port_call [of P] unfolding keeps_triple [symmetric] keeps_def by blast

lemma keeps_poll_triple: "stable P \<Longrightarrow> triple P port_poll (\<lambda>_. P) P"
  unfolding port_poll_def
  by (rule triple_bind [OF triple_ignore [OF keeps_port_call]], assumption)
    (rule triple_match [OF keeps_port_read]; auto intro: triple_return triple_fail)

lemma keeps_poll: "stable P \<Longrightarrow> P w \<Longrightarrow> port_poll w = (r, w') \<Longrightarrow> P w'"
  using keeps_poll_triple [of P] unfolding keeps_triple [symmetric] keeps_def by fastforce

lemma keeps_on_port_call:
  assumes "rx_free P"
  shows "triple P (on_port port_call) (\<lambda>_. P) P"
  unfolding on_port_def
  by (intro triple_on_world triple_map_err keeps_port_call rx_free_stable [OF assms])

lemma keeps_clear_rx_buf:
  assumes "rx_free P"
  shows "triple P clear_rx_buf (\<lambda>_. P) P"
  unfolding clear_rx_buf_def by (rule triple_modify) (auto simp: rx_free_buf [OF assms])

lemma keeps_read_line:
  assumes "rx_free P"
  shows "P (s, w) \<Longrightarrow> read_line deadline (s, w) = (r, s', w') \<Longrightarrow> P (s', w')"
proof (induction deadline "(s, w)" arbitrary: s w rule: read_line.induct)
  case (1 deadline s w)
  from "1.prems"(2) show ?case
  proof (cases rule: read_line_cases)
    case (line nl)
    then show ?thesis using rx_free_buf [OF assms "1.prems"(1)] by simp
  next
    case too_long
    then show ?thesis
      using keeps_call [OF rx_free_stable [OF assms] rx_free_buf [OF assms "1.prems"(1)], of "[]"]
      by simp
  next
    case late
    then show ?thesis using "1.prems"(1) by simp
  next
    case (more bs w2 ob)
    have p2: "P (s, w2)" using keeps_poll [OF rx_free_stable [OF assms] "1.prems"(1) more(3)] .
    have ne: "\<not> deadline \<le> w_now w" using more(2) by simp
    show ?thesis
    proof (cases ob)
      case None
      have e: "s\<lparr>rx_buf := rx_buf s @ []\<rparr> = s" by simp
      show ?thesis
        using "1.hyps"(1) [OF more(1,6) ne more(3)[symmetric]] None p2 more(4,7) e by simp
    next
      case (Some a)
      have "P (s\<lparr>rx_buf := rx_buf s @ a\<rparr>, w2)" using rx_free_buf [OF assms p2] .
      then show ?thesis
        using "1.hyps"(2) [OF more(1,6) ne more(3)[symmetric]] Some more(4,5,7) by auto
    qed
  next
    case broken
    then show ?thesis
      using keeps_poll [OF rx_free_stable [OF assms] "1.prems"(1) broken(1)] by simp
  next
    case (overrun bs)
    then show ?thesis
      using keeps_poll [OF rx_free_stable [OF assms] "1.prems"(1) overrun(1)] by simp
  next
    case (io e)
    then show ?thesis
      using keeps_poll [OF rx_free_stable [OF assms] "1.prems"(1) io(1)] by simp
  qed
qed

lemma keeps_line_loop:
  assumes "rx_free P"
  shows "triple P (line_loop act late deadline q) (\<lambda>_. P) P"
proof -
  have "P (s', w')" if "P (s, w)" "line_loop act late deadline q (s, w) = (r, s', w')" for s w r s' w'
  proof (rule line_loop_ends [where P = "\<lambda>_ s w. P (s, w)" and Q = "\<lambda>_ s w. P (s, w)", OF _ _ _ that])
    fix q s w l s' w'
    assume "P (s, w)" "read_line deadline (s, w) = (Ok (Some l), s', w')"
    then have p: "P (s', w')" by (rule keeps_read_line [OF assms])
    have "P (s', snd (report_progress m (s', w')))" for m
      using rx_free_report [OF assms p, of m] by (metis report_progress_pair)
    with p show "case act q l of Finish r \<Rightarrow> P (s', w') | Skip q' \<Rightarrow> P (s', w')
        | Report m q' \<Rightarrow> P (s', snd (report_progress m (s', w')))"
      by (simp split: line_action.splits)
  qed (blast intro: keeps_read_line [OF assms])+
  then show ?thesis
    unfolding keeps_triple [symmetric] keeps_def by (metis prod.collapse)
qed

lemma keeps_now_world: "rx_free P \<Longrightarrow> triple P (on_world now) (\<lambda>_. P) P"
  by (intro triple_on_world keeps_now)

lemma drain_keeps:
  assumes "stable P"
  shows "P w \<Longrightarrow> drain_loop deadline st lb w = (r, w') \<Longrightarrow> P w'"
proof (induction deadline st lb w rule: drain_loop.induct)
  case (1 deadline st lb w)
  obtain rp w1 where p: "port_poll w = (rp, w1)" by (cases "port_poll w")
  have p1: "P w1" by (rule keeps_poll [OF assms "1.prems"(1) p])
  show ?case
  proof (cases "deadline \<le> w_now w \<or> (lb = None \<and> from_millis 800 < w_now w - st)")
    case True
    with "1.prems" show ?thesis by (auto simp: drain_loop.simps [of _ _ _ w] split: if_splits)
  next
    case F: False
    then have ne: "\<not> deadline \<le> w_now w" "\<not> (lb = None \<and> from_millis 800 < w_now w - st)" by auto
    note IH = "1.IH" [OF ne p [symmetric]]
    show ?thesis
    proof (cases rp)
      case (Ok ob)
      then show ?thesis
        using "1.prems"(2) ne p p1 IH
        by (cases ob; cases lb)
          (auto simp: drain_loop.simps [of _ _ _ w] split: if_splits)
    qed (use "1.prems"(2) ne p p1 in \<open>auto simp: drain_loop.simps [of _ _ _ w]\<close>)
  qed
qed

section \<open>Lines and the receive buffer\<close>

lemma position_Some: "position x xs = Some i \<Longrightarrow> xs = take i xs @ x # drop (Suc i) xs \<and> x \<notin> set (take i xs)"
  by (induction xs arbitrary: i) (auto split: if_splits)

lemma read_line_stream:
  "read_line deadline (s, w) = (Ok (Some l), s', w') \<Longrightarrow> length (rx_buf s) \<le> MAX_LINE_LEN + 256 \<Longrightarrow>
     \<exists>input bytes. rx_buf s @ input = bytes @ [10] @ rx_buf s' \<and> 10 \<notin> set bytes
       \<and> l = line_of_bytes bytes \<and> length bytes < MAX_LINE_LEN + 256"
proof (induction deadline "(s, w)" arbitrary: s w rule: read_line.induct)
  case (1 deadline s w)
  from "1.prems"(1) show ?case
  proof (cases rule: read_line_cases)
    case (line nl)
    have c: "rx_buf s = take nl (rx_buf s) @ 10 # drop (Suc nl) (rx_buf s)" "10 \<notin> set (take nl (rx_buf s))"
      using position_Some [OF line(1)] by auto
    have "length (take nl (rx_buf s)) < MAX_LINE_LEN + 256"
      using position_Some_less [OF line(1)] "1.prems"(2) by simp
    then show ?thesis
      using c line(2,3) by (intro exI [of _ "[]"] exI [of _ "take nl (rx_buf s)"]) simp
  next
    case (more bs w2 ob)
    have ne: "\<not> deadline \<le> w_now w" using more(2) by simp
    have len: "length (rx_buf s @ bs) \<le> MAX_LINE_LEN + 256" using more(5,6) by simp
    have "\<exists>input bytes. (rx_buf s @ bs) @ input = bytes @ [10] @ rx_buf s' \<and> 10 \<notin> set bytes
        \<and> l = line_of_bytes bytes \<and> length bytes < MAX_LINE_LEN + 256"
    proof (cases ob)
      case None
      have e: "s\<lparr>rx_buf := rx_buf s @ []\<rparr> = s" by simp
      show ?thesis
        using "1.hyps"(1) [OF more(1,6) ne more(3)[symmetric]] None more(4,7) len e by simp
    next
      case (Some a)
      then show ?thesis
        using "1.hyps"(2) [OF more(1,6) ne more(3)[symmetric]] more(4,5,7) len by auto
    qed
    then show ?thesis by (metis append_assoc)
  qed simp_all
qed

lemma read_line_buffer:
  "read_line deadline (s, w) = (r, s', w') \<Longrightarrow> length (rx_buf s) \<le> MAX_LINE_LEN + 256 \<Longrightarrow>
     length (rx_buf s') \<le> MAX_LINE_LEN + 256"
proof (induction deadline "(s, w)" arbitrary: s w rule: read_line.induct)
  case (1 deadline s w)
  from "1.prems"(1) show ?case
  proof (cases rule: read_line_cases)
    case (more bs w2 ob)
    have ne: "\<not> deadline \<le> w_now w" using more(2) by simp
    have len: "length (rx_buf s @ bs) \<le> MAX_LINE_LEN + 256" using more(5,6) by simp
    show ?thesis
    proof (cases ob)
      case None
      have e: "s\<lparr>rx_buf := rx_buf s @ []\<rparr> = s" by simp
      show ?thesis
        using "1.hyps"(1) [OF more(1,6) ne more(3)[symmetric]] None more(4,7) len e by simp
    next
      case (Some a)
      then show ?thesis
        using "1.hyps"(2) [OF more(1,6) ne more(3)[symmetric]] more(4,5,7) len by auto
    qed
  qed (use "1.prems"(2) in auto)
qed

section \<open>The property\<close>

text \<open>
  Lines are the input cut at its newlines: a line the driver returns is the decoded text of
  the bytes up to the first newline of the buffered bytes followed by what was read, and the rest
  stays in the buffer, which never holds more than the cap and one read.
\<close>

theorem read_line_cuts_input:
  assumes "read_line deadline (s, w) = (r, s', w')" "length (rx_buf s) \<le> MAX_LINE_LEN + 256"
  shows "length (rx_buf s') \<le> MAX_LINE_LEN + 256
    \<and> (\<forall>l. r = Ok (Some l) \<longrightarrow>
        (\<exists>input bytes. rx_buf s @ input = bytes @ [10] @ rx_buf s' \<and> 10 \<notin> set bytes
           \<and> l = line_of_bytes bytes \<and> length bytes < MAX_LINE_LEN + 256))"
  using read_line_buffer [OF assms] read_line_stream [of deadline s w _ s' w'] assms by blast

theorem read_line_cuts_input_witness:
  "\<exists>input bytes. [79, 75, 10, 65] @ input = bytes @ [10] @ [65 :: u8] \<and> 10 \<notin> set bytes
     \<and> ''OK'' = line_of_bytes bytes \<and> length bytes < MAX_LINE_LEN + 256"
proof -
  let ?s = "(fresh_r503 [])\<lparr>rx_buf := [79, 75, 10, 65]\<rparr>"
  have l: "line_of_bytes [79, 75] = ''OK''" by code_simp
  have "read_line 5 (?s, demo_world Map.empty) = (Ok (Some ''OK''), ?s\<lparr>rx_buf := [65]\<rparr>, demo_world Map.empty)"
    by (subst read_line.simps) (simp add: l)
  from read_line_cuts_input [OF this] show ?thesis by (simp add: MAX_LINE_LEN_def)
qed

end
