(* ===== verification/Sensor_Safety.thy ===== *)
theory Sensor_Safety
  imports Sensor_Lines
begin

text \<open>
  The monotonic counter: no counter is used twice or ahead of the disk, whatever fails and wherever
  the process dies. The locale \<open>driver_invariant\<close> says what an assertion must satisfy to survive every
  method of the driver; the counters are an interpretation.
\<close>

section \<open>The counters on the wire\<close>

text \<open>The counter of what was handed to the port in one call, if it is a command frame.\<close>

definition frame_counter :: "u8 list \<Rightarrow> u64 option" where
  "frame_counter bs = (case parse_command (of_bytes bs) of Ok (c, _, _) \<Rightarrow> Some c | _ \<Rightarrow> None)"

definition frame_counters :: "(u8 list \<times> nat) list \<Rightarrow> u64 list" where
  "frame_counters wire = List.map_filter (\<lambda>(bs, n). frame_counter bs) wire"

lemma frame_counters_Nil [simp]: "frame_counters [] = []"
  by (simp add: frame_counters_def List.map_filter_def)

lemma frame_counters_append:
  "frame_counters (wr @ [(bs, n)])
     = frame_counters wr @ (case frame_counter bs of Some c \<Rightarrow> [c] | None \<Rightarrow> [])"
  by (simp add: frame_counters_def List.map_filter_def split: option.splits)

lemma frame_counter_encode:
  assumes "utf8_valid cmd"
  shows "frame_counter (as_bytes (encode_command k c cmd)) = Some c"
  using cmd.parse_encode [OF assms, of k c] by (simp add: frame_counter_def)

lemma frame_counter_plain:
  assumes "\<not> starts_with (of_bytes bs) ''C ''"
  shows "frame_counter bs = None"
  using assms by (simp add: frame_counter_def parse_command_def strip_prefix_def)

lemma frame_counter_newline [simp]: "frame_counter [10] = None"
  by (rule frame_counter_plain) (simp add: starts_with_def of_bytes_def)

text \<open>
  What holds between any two calls of the driver, and wherever one is interrupted: the counters
  sent are strictly increasing and below the reserved band; each is below the counter a restart
  would read, and below the next one this struct would use.
\<close>

definition counters_ok :: "libs \<Rightarrow> u64 option \<Rightarrow> node option \<Rightarrow> (u8 list \<times> nat) list \<Rightarrow> bool" where
  "counters_ok L next a wr \<longleftrightarrow>
     file_secure a
     \<and> sorted_wrt (<) (frame_counters wr)
     \<and> (\<forall>c \<in> set (frame_counters wr). c < COUNTER_CEILING
          \<and> (\<exists>d. node_counter (state_json L) a = Some d \<and> c < d)
          \<and> (\<forall>n. next = Some n \<longrightarrow> c < n))"

definition next_counter :: "r503 \<Rightarrow> u64 option" where
  "next_counter s = (if auth_key s = None then None else Some (client_counter s))"

definition counter_inv :: "libs \<Rightarrow> r503 \<times> world \<Rightarrow> bool" where
  "counter_inv L = (\<lambda>(s, w). st_pred file_secure (counters_ok L (next_counter s)) w)"

lemma unat_counter_Suc: "c < COUNTER_CEILING \<Longrightarrow> unat (c + 1) = Suc (unat c)"
  by (simp add: COUNTER_CEILING_def word_less_nat_alt unat_word_ariths)

lemma counter_less_Suc: "c < COUNTER_CEILING \<Longrightarrow> c < c + 1"
  by (simp add: word_less_nat_alt unat_counter_Suc)

lemma counters_ok_next:
  assumes "counters_ok L (Some c) a wr" "c < COUNTER_CEILING" "file_secure a'"
    and "node_counter (state_json L) a' = Some (c + 1)"
  shows "counters_ok L (Some (c + 1)) a' wr"
  using assms counter_less_Suc [OF assms(2)] by (auto simp: counters_ok_def intro: less_trans)

lemma counters_ok_send:
  assumes "counters_ok L (Some c) a wr" "c < COUNTER_CEILING" "file_secure a'"
    and "node_counter (state_json L) a' = Some (c + 1)" "frame_counter bs = Some c"
  shows "counters_ok L (Some (c + 1)) a' (wr @ [(bs, n)])"
  using assms counter_less_Suc [OF assms(2)]
  by (auto simp: counters_ok_def frame_counters_append sorted_wrt_append intro: less_trans)

lemma counters_ok_quiet:
  "counters_ok L k a wr \<Longrightarrow> frame_counter bs = None \<Longrightarrow> counters_ok L k a (wr @ [(bs, n)])"
  by (simp add: counters_ok_def frame_counters_append)

text \<open>The assertions of the proof: the struct's key and counter, the files and the wire.\<close>

definition at_counter ::
  "u8 list option \<Rightarrow> u64 \<Rightarrow> (node option \<Rightarrow> (u8 list \<times> nat) list \<Rightarrow> bool) \<Rightarrow> r503 \<times> world \<Rightarrow> bool"
where
  "at_counter k n F = (\<lambda>(s, w). auth_key s = k \<and> client_counter s = n \<and> st_pred file_secure F w)"

lemma rx_free_at_counter [simp]: "rx_free (at_counter k n F)"
  by (auto simp: rx_free_def at_counter_def stable_conj) (simp add: st_pred_def)

lemma at_counter_mono:
  "at_counter k n F sw \<Longrightarrow> (\<And>a wr. F a wr \<Longrightarrow> G a wr) \<Longrightarrow> at_counter k n G sw"
  by (auto simp: at_counter_def st_pred_def)

lemma write_at_counter:
  assumes "\<And>a wr m. F a wr \<Longrightarrow> G a (wr @ [(bs, m)])"
  shows "triple (at_counter k n F) (on_port (port_write_all bs)) (\<lambda>_. at_counter k n G)
    (at_counter k n G)"
  unfolding on_port_def
  by (intro triple_on_world triple_map_err triple_port_write rx_free_stable [OF rx_free_at_counter])
    (auto simp: at_counter_def st_pred_def assms)

lemma save_at_counter:
  assumes "json_law (state_json L)"
  shows "triple (at_counter k n (\<lambda>a wr. a = A \<and> wr = W))
    (on_world (map_err_io g (state_save (state_json L) st)))
    (\<lambda>_. at_counter k n (\<lambda>a wr. file_secure a
        \<and> node_counter (state_json L) a = Some (next_cmd_counter st) \<and> wr = W))
    (at_counter k n (\<lambda>a wr. a = A \<and> wr = W))"
proof (rule triple_on_world, rule triple_map_err)
  fix s
  show "triple (\<lambda>w. at_counter k n (\<lambda>a wr. a = A \<and> wr = W) (s, w)) (state_save (state_json L) st)
    (\<lambda>_ w. at_counter k n (\<lambda>a wr. file_secure a
        \<and> node_counter (state_json L) a = Some (next_cmd_counter st) \<and> wr = W) (s, w))
    (\<lambda>w. at_counter k n (\<lambda>a wr. a = A \<and> wr = W) (s, w))"
  proof (cases "auth_key s = k \<and> client_counter s = n")
    case True
    then show ?thesis
      by (intro triple_conseq [OF state_save_triple [OF assms, of A W st]])
        (auto simp: at_counter_def st_pred_def node_counter_def mode_600_def file_secure_def)
  qed (auto simp: at_counter_def triple_def)
qed

text \<open>One framed exchange: at most one frame, with the struct's counter.\<close>

definition after_send :: "libs \<Rightarrow> u64 \<Rightarrow> u64 list \<Rightarrow> r503 \<times> world \<Rightarrow> bool" where
  "after_send L c sent = (\<lambda>(s, w). st_pred file_secure (\<lambda>a wr. counters_ok L (next_counter s) a wr
     \<and> (frame_counters wr = sent \<or> frame_counters wr = sent @ [c])) w)"

lemma at_counter_after_send:
  assumes "at_counter (Some k) n F sw" "\<And>a wr. F a wr \<Longrightarrow> counters_ok L (Some n) a wr
    \<and> (frame_counters wr = sent \<or> frame_counters wr = sent @ [c])"
  shows "after_send L c sent sw"
  using assms by (auto simp: at_counter_def after_send_def st_pred_def next_counter_def)

lemma execute_framed_triple:
  assumes J: "json_law (state_json L)" and ok: "counters_ok L (Some c) A W" and v: "utf8_valid cmd"
  shows "triple (at_counter (Some k) c (\<lambda>a wr. a = A \<and> wr = W)) (execute_framed L cmd t)
    (\<lambda>_. after_send L c (frame_counters W)) (after_send L c (frame_counters W))"
proof -
  let ?I = "after_send L c (frame_counters W)"
  let ?a = "\<lambda>a wr. file_secure a \<and> node_counter (state_json L) a = Some (c + 1) \<and> wr = W"
  let ?b = "\<lambda>a wr. counters_ok L (Some (c + 1)) a wr \<and> frame_counters wr = frame_counters W @ [c]"
  have pre: "?I sw" if "at_counter (Some k) c (\<lambda>a wr. a = A \<and> wr = W) sw" for sw
    using that by (rule at_counter_after_send) (simp add: ok)
  have key: "triple (at_counter (Some k) c (\<lambda>a wr. a = A \<and> wr = W))
      (get_io (\<lambda>(s, w). (auth_key s, client_counter s)))
      (\<lambda>x s. x = (Some k, c) \<and> at_counter (Some k) c (\<lambda>a wr. a = A \<and> wr = W) s) ?I"
    by (rule triple_get) (auto simp: at_counter_def)
  have adv: "triple (at_counter (Some k) c (\<lambda>a wr. a = A \<and> wr = W)) (result_io (advance_counter c))
      (\<lambda>x s. (x = c + 1 \<and> c < COUNTER_CEILING) \<and> at_counter (Some k) c (\<lambda>a wr. a = A \<and> wr = W) s) ?I"
    by (rule triple_result) (auto simp: advance_counter_def pre split: if_splits)
  have sent: "?I sw" if "at_counter (Some k) (c + 1) ?b sw" for sw
    using that by (rule at_counter_after_send) simp
  show ?thesis
    unfolding execute_framed_def
  proof (rule triple_bind [OF key], clarify, rule triple_pure, simp only: prod.inject option.inject,
      elim conjE, hypsubst, unfold prod.case option.case, rule triple_bind [OF adv], rule triple_pure,
      elim conjE, hypsubst)
    assume lt: "c < COUNTER_CEILING"
    have a: "?I sw" if "at_counter (Some k) (c + 1) ?a sw" for sw
      using that by (rule at_counter_after_send) (use counters_ok_next [OF ok lt] in auto)
    have keep: "triple (at_counter (Some k) (c + 1) F) m (\<lambda>_. at_counter (Some k) (c + 1) F) ?I"
      if "\<And>P. rx_free P \<Longrightarrow> triple P m (\<lambda>_. P) P" "\<And>sw. at_counter (Some k) (c + 1) F sw \<Longrightarrow> ?I sw"
      for m :: "'z sensor_io" and F
      by (rule triple_conseq [OF that(1) [OF rx_free_at_counter]]) (use that(2) in auto)
    have save: "triple (at_counter (Some k) c (\<lambda>a wr. a = A \<and> wr = W))
        (on_world (map_err_io g (state_save (state_json L) \<lparr>next_cmd_counter = c + 1\<rparr>)))
        (\<lambda>_. at_counter (Some k) c ?a) ?I" for g :: "any_error \<Rightarrow> sensor_error"
      by (rule triple_conseq [OF save_at_counter [OF J]]) (auto intro: pre)
    have set: "triple (at_counter (Some k) c ?a)
        (modify_io (\<lambda>(s, w). (s\<lparr>client_counter := c + 1\<rparr>, w))) (\<lambda>_. at_counter (Some k) (c + 1) ?a) ?I"
      by (rule triple_modify) (auto simp: at_counter_def)
    have frame: "triple (at_counter (Some k) (c + 1) ?a)
        (on_port (port_write_all (as_bytes (encode_command k c cmd)))) (\<lambda>_. at_counter (Some k) (c + 1) ?b) ?I"
      by (rule triple_conseq [OF write_at_counter [where F = ?a and G = ?b]])
        (use counters_ok_send [OF ok lt _ _ frame_counter_encode [OF v]] in
          \<open>auto simp: frame_counters_append frame_counter_encode [OF v] intro: sent\<close>)
    have nl: "triple (at_counter (Some k) (c + 1) ?b) (on_port (port_write_all [10]))
        (\<lambda>_. at_counter (Some k) (c + 1) ?b) ?I"
      by (rule triple_conseq [OF write_at_counter [where F = ?b and G = ?b]])
        (auto simp: frame_counters_append counters_ok_quiet intro: sent)
    show "triple (at_counter (Some k) c (\<lambda>a wr. a = A \<and> wr = W))
        (bind_io (on_world (map_err_io (\<lambda>_. Sensor_Io (Io_error Other ''persist client_counter''))
            (state_save (state_json L) \<lparr>next_cmd_counter = c + 1\<rparr>))) (\<lambda>_.
         bind_io (modify_io (\<lambda>(s, w). (s\<lparr>client_counter := c + 1\<rparr>, w))) (\<lambda>_.
         bind_io clear_rx_buf (\<lambda>_.
         bind_io (on_port port_call) (\<lambda>_.
         bind_io (on_port (port_write_all (as_bytes (encode_command k c cmd)))) (\<lambda>_.
         bind_io (on_port (port_write_all [10])) (\<lambda>_.
         bind_io (on_port port_call) (\<lambda>_.
         bind_io (on_world now) (\<lambda>u.
         line_loop (framed_action (ct_eq L) k c) (Err (Timeout cmd)) (u + from_millis t) 0)))))))))
       (\<lambda>_. ?I) ?I"
      by (rule triple_bind [OF save] triple_bind [OF set]
          triple_bind [OF keep [OF keeps_clear_rx_buf a]] triple_bind [OF keep [OF keeps_on_port_call a]]
          triple_bind [OF frame] triple_bind [OF nl]
          triple_bind [OF keep [OF keeps_on_port_call sent]] triple_bind [OF keep [OF keeps_now_world sent]]
          triple_conseq [OF keep [OF keeps_line_loop sent]] | assumption | erule sent)+
  qed
qed

lemma execute_framed_after:
  assumes "json_law (state_json L)" "counter_inv L (s, w)" "auth_key s = Some k" "utf8_valid cmd"
    and "execute_framed L cmd t (s, w) = (r, s', w')"
  shows "after_send L (client_counter s) (frame_counters (w_wire w)) (s', w')"
proof -
  have ok: "counters_ok L (Some (client_counter s)) (w_fs w STATE_PATH) (w_wire w)"
    and pre: "at_counter (Some k) (client_counter s)
        (\<lambda>a wr. a = w_fs w STATE_PATH \<and> wr = w_wire w) (s, w)"
    using assms(2,3) by (auto simp: counter_inv_def st_pred_def next_counter_def at_counter_def)
  have "post (\<lambda>_. after_send L (client_counter s) (frame_counters (w_wire w)))
      (after_send L (client_counter s) (frame_counters (w_wire w))) r (s', w')"
    by (rule tripleD [OF execute_framed_triple [OF assms(1) ok assms(4)] pre assms(5)])
  then show ?thesis by (cases r) simp_all
qed

lemma after_send_inv: "after_send L c sent sw \<Longrightarrow> counter_inv L sw"
  by (auto simp: after_send_def counter_inv_def st_pred_def)

text \<open>A computation on the port that sends no frame keeps everything.\<close>

lemma write_quiet:
  assumes "frame_counter bs = None"
  shows "triple (counter_inv L) (on_port (port_write_all bs)) (\<lambda>_. counter_inv L) (counter_inv L)"
proof -
  have st: "stable (\<lambda>w. counter_inv L (s, w))" for s by (simp add: counter_inv_def)
  show ?thesis
    unfolding on_port_def
    by (intro triple_on_world triple_map_err triple_port_write st)
      (use assms in \<open>auto simp: counter_inv_def st_pred_def counters_ok_quiet\<close>)
qed

lemma next_counter_buf [simp]: "next_counter (s\<lparr>rx_buf := b\<rparr>) = next_counter s"
  by (simp add: next_counter_def)

lemma rx_free_counter_inv [simp]: "rx_free (counter_inv L)"
  by (auto simp: rx_free_def counter_inv_def) (simp add: st_pred_def)

section \<open>What every method keeps\<close>

lemma result_keeps: "triple P (result_io r) (\<lambda>_. P) P"
  by (rule triple_result)

lemma show_u8_ascii: "list_all is_ascii (show_u8 v)"
  using show_nat_digits [of "unat v"]
  by (auto simp: show_u8_def list_all_iff is_ascii_digit_def is_ascii_def)

lemma of_bytes_append: "of_bytes (a @ b) = of_bytes a @ of_bytes b"
  by (simp add: of_bytes_def)

text \<open>
  An assertion on the struct and the world survives every method of the driver when it does not
  depend on the receiving side, when sending what is no command frame keeps it, and when the framed
  exchange does.
\<close>

locale driver_steps =
  fixes L :: libs
    and P :: "r503 \<times> world \<Rightarrow> bool"
  assumes free: "rx_free P"
    and quiet_write: "frame_counter bs = None \<Longrightarrow> triple P (on_port (port_write_all bs)) (\<lambda>_. P) P"
    and framed: "utf8_valid cmd \<Longrightarrow> triple P (execute_framed L cmd t) (\<lambda>_. P) P"
begin

lemma execute_unframed_keeps:
  assumes "\<not> starts_with cmd ''C ''"
  shows "triple P (execute_unframed cmd t) (\<lambda>_. P) P"
proof -
  have "frame_counter (as_bytes cmd) = None" using assms by (simp add: frame_counter_plain)
  then show ?thesis
    unfolding execute_unframed_def send_def
    by (intro keeps_bind keeps_clear_rx_buf keeps_on_port_call quiet_write keeps_now_world
        keeps_line_loop free) simp_all
qed

lemma execute_keeps:
  assumes "utf8_valid cmd" "\<not> starts_with cmd ''C ''"
  shows "triple P (execute L cmd t) (\<lambda>_. P) P"
  unfolding execute_def
proof (intro keeps_bind)
  show "triple P (get_io (\<lambda>(s, w). auth_key s)) (\<lambda>_. P) P" by (rule triple_get)
  show "triple P (if k \<noteq> None then execute_framed L cmd t else execute_unframed cmd t) (\<lambda>_. P) P"
    for k :: "u8 list option"
    using framed [OF assms(1)] execute_unframed_keeps [OF assms(2)] by simp
qed

lemma command_body_keeps:
  assumes "list_all is_ascii cmd" "\<not> starts_with cmd ''C ''"
  shows "triple P (command_body L cmd t) (\<lambda>_. P) P"
  unfolding command_body_def
  by (intro keeps_bind execute_keeps ascii_utf8_valid assms result_keeps)

lemma methods_keep:
  "triple P (sensor_get_info L) (\<lambda>_. P) P"
  "triple P (sensor_enroll L sl) (\<lambda>_. P) P"
  "triple P (sensor_verify L) (\<lambda>_. P) P"
  "triple P (sensor_identify L) (\<lambda>_. P) P"
  "triple P (sensor_delete L sl) (\<lambda>_. P) P"
  "triple P (sensor_clear L) (\<lambda>_. P) P"
  "triple P (sensor_wake L) (\<lambda>_. P) P"
  "triple P (sensor_ping L) (\<lambda>_. P) P"
  "triple P (sensor_led_off L) (\<lambda>_. P) P"
  unfolding sensor_get_info_def sensor_enroll_def sensor_verify_def sensor_identify_def
    sensor_delete_def sensor_clear_def sensor_wake_def sensor_ping_def sensor_led_off_def
  by (intro keeps_bind command_body_keeps execute_keeps result_keeps triple_return ascii_utf8_valid;
      simp add: show_u8_ascii starts_with_def is_ascii_def ord_def)+

lemma ping_attempt_keeps: "triple P (ping_attempt d) (\<lambda>_. P) P"
proof -
  have "frame_counter (as_bytes ''ping'' @ [10]) = None"
    using of_bytes_as_bytes [of "''ping''"]
    by (intro frame_counter_plain) (simp add: starts_with_def of_bytes_append del: of_bytes_as_bytes)
  then show ?thesis
    unfolding ping_attempt_def await_pong_def
    by (intro keeps_bind keeps_clear_rx_buf keeps_on_port_call quiet_write keeps_now_world
        keeps_line_loop free)
      (auto intro!: keeps_bind keeps_clear_rx_buf triple_return triple_on_world triple_ignore
        keeps_port_call rx_free_stable free)
qed

lemma ping_loop_keeps:
  "P (s, w) \<Longrightarrow> ping_loop d (s, w) = (r, s', w') \<Longrightarrow> P (s', w')"
proof (induction d "(s, w)" arbitrary: s w rule: ping_loop.induct)
  case (1 d s w)
  obtain rp s1 w1 where p: "ping_attempt d (s, w) = (rp, s1, w1)" by (cases "ping_attempt d (s, w)")
  have p1: "P (s1, w1)"
    using ping_attempt_keeps [of d] "1.prems"(1) p unfolding keeps_triple [symmetric] keeps_def
    by (metis snd_conv)
  show ?case
  proof (cases "d \<le> w_now w")
    case True
    with "1.prems" show ?thesis by (simp add: ping_loop.simps [of _ s w])
  next
    case False
    note IH = "1.hyps" [OF False p [symmetric]]
    show ?thesis
    proof (cases rp)
      case (Ok b)
      then show ?thesis
        using "1.prems"(2) False p p1 IH by (cases b) (auto simp: ping_loop.simps [of _ s w])
    qed (use "1.prems"(2) False p p1 in \<open>auto simp: ping_loop.simps [of _ s w]\<close>)
  qed
qed

lemma sync_keeps: "triple P (sync t) (\<lambda>_. P) P"
proof -
  have d: "triple P (on_port (drain_loop x y z)) (\<lambda>_. P) P" for x y z
    unfolding on_port_def
  proof (intro triple_on_world triple_map_err)
    fix s
    have st: "stable (\<lambda>w. P (s, w))" by (rule rx_free_stable [OF free])
    show "triple (\<lambda>w. P (s, w)) (drain_loop x y z) (\<lambda>_ w. P (s, w)) (\<lambda>w. P (s, w))"
      unfolding keeps_triple [symmetric] keeps_def
      using drain_keeps [OF st] by (metis prod.collapse)
  qed
  have p: "triple P (ping_loop x) (\<lambda>_. P) P" for x
    unfolding keeps_triple [symmetric] keeps_def using ping_loop_keeps by (metis prod.collapse)
  show ?thesis
    unfolding sync_def
    by (intro keeps_bind keeps_now_world free d p) (auto intro: triple_return triple_fail)
qed

end

text \<open>
  Opening, from the world alone to the new struct: \<open>W\<close> is what the assertion says of the world while no
  struct is open.
\<close>

locale driver_invariant = driver_steps +
  fixes W :: "world \<Rightarrow> bool"
  assumes world: "P (s, w) \<Longrightarrow> W w"
    and world_stable: "stable W"
    and opened: "W w \<Longrightarrow> P (fresh_r503 path, w)"
begin

lemma find_pattern_keeps: "triple W (find_pattern ps) (\<lambda>_. W) W"
proof (induction ps)
  case Nil
  then show ?case by (auto intro: triple_fail)
next
  case (Cons p ps)
  have "triple W fs_read_dev (\<lambda>_. W) W"
  proof (rule tripleI)
    fix w assume "W w"
    then show "post (\<lambda>_. W) W (fst (fs_read_dev w)) (snd (fs_read_dev w))"
      using keeps_look [OF world_stable, of "return_io (e_dev (w_env w) (w_tick w))"]
      by (simp add: fs_read_dev_def triple_def return_io_def)
  qed
  then have d: "triple W (ok_io fs_read_dev) (\<lambda>_. W) W" by (rule triple_ok)
  show ?case
    unfolding find_pattern.simps
    by (intro keeps_bind d) (auto split: list.splits intro: triple_return Cons.IH)
qed

lemma open_keeps: "triple W (r503_open port t) (\<lambda>s w. P (s, w)) W"
  unfolding r503_open_def
proof (rule triple_bind)
  show "triple W (case port of Some p \<Rightarrow> return_io p | None \<Rightarrow> find_port) (\<lambda>_. W) W"
  proof (cases port)
    case None
    have "triple W (if there then return_io ''/dev/r503'' else find_pattern [''ttyACM'', ''ttyUSB''])
        (\<lambda>_. W) W" for there
      by (cases there) (simp_all only: if_True if_False find_pattern_keeps triple_return)
    then show ?thesis
      unfolding None find_port_def option.case by (intro keeps_bind keeps_exists world_stable)
  qed (auto intro: triple_return)
  fix path
  show "triple W (bind_io (map_err_io (OpenFailed path) port_call) (\<lambda>_ w.
      case sync t (fresh_r503 path, w) of (Ok _, s, w') \<Rightarrow> (Ok s, w')
        | (Err e, s, w') \<Rightarrow> (Err e, w') | (Panic, s, w') \<Rightarrow> (Panic, w'))) (\<lambda>s w. P (s, w)) W"
  proof (rule triple_bind [OF triple_map_err [OF keeps_port_call [OF world_stable]]], rule tripleI)
    fix w assume "W w"
    then have p: "P (fresh_r503 path, w)" by (rule opened)
    obtain r s w' where s: "sync t (fresh_r503 path, w) = (r, s, w')" by (cases "sync t (fresh_r503 path, w)")
    have p': "P (s, w')"
      using sync_keeps [of t] p s unfolding keeps_triple [symmetric] keeps_def by (metis snd_conv)
    have "W w'" by (rule world [OF p'])
    with p' show "post (\<lambda>s w. P (s, w)) W
        (fst (case sync t (fresh_r503 path, w) of (Ok _, s, w') \<Rightarrow> (Ok s, w')
          | (Err e, s, w') \<Rightarrow> (Err e, w') | (Panic, s, w') \<Rightarrow> (Panic, w')))
        (snd (case sync t (fresh_r503 path, w) of (Ok _, s, w') \<Rightarrow> (Ok s, w')
          | (Err e, s, w') \<Rightarrow> (Err e, w') | (Panic, s, w') \<Rightarrow> (Panic, w')))"
      by (cases r) (simp_all add: s)
  qed
qed

end

text \<open>The counters are such an invariant, with the law of the encoder.\<close>

definition world_inv :: "libs \<Rightarrow> world \<Rightarrow> bool" where
  "world_inv L = st_pred file_secure (counters_ok L None)"

lemma counter_inv_world: "counter_inv L (s, w) \<Longrightarrow> world_inv L w"
  by (auto simp: counter_inv_def world_inv_def st_pred_def counters_ok_def)

lemma counter_inv_fresh: "world_inv L w \<Longrightarrow> counter_inv L (fresh_r503 path, w)"
  by (simp add: counter_inv_def world_inv_def next_counter_def fresh_r503_def)

lemma triple_with_fact:
  "(A \<Longrightarrow> triple P m Q E) \<Longrightarrow> triple (\<lambda>s. A \<and> P s) m (\<lambda>x s. A \<and> Q x s) (\<lambda>s. A \<and> E s)"
  unfolding triple_def by (auto elim!: post_mono)

lemma execute_framed_keeps:
  assumes "json_law (state_json L)" "utf8_valid cmd"
  shows "triple (counter_inv L) (execute_framed L cmd t) (\<lambda>_. counter_inv L) (counter_inv L)"
  unfolding keeps_triple [symmetric] keeps_def
proof (intro allI impI)
  fix sw assume I: "counter_inv L sw"
  obtain s w where sw: "sw = (s, w)" by (cases sw)
  obtain r s' w' where e: "execute_framed L cmd t (s, w) = (r, s', w')"
    by (cases "execute_framed L cmd t (s, w)")
  show "counter_inv L (snd (execute_framed L cmd t sw))"
  proof (cases "auth_key s")
    case None
    then show ?thesis
      using I by (simp add: execute_framed_def bind_io_def get_io_def panic_io_def sw)
  next
    case (Some k)
    then show ?thesis
      using execute_framed_after [OF assms(1) _ Some assms(2) e] I after_send_inv by (simp add: sw e)
  qed
qed

interpretation counters: driver_invariant L "\<lambda>sw. json_law (state_json L) \<and> counter_inv L sw"
  "\<lambda>w. json_law (state_json L) \<and> world_inv L w" for L
proof
  show "rx_free (\<lambda>sw. json_law (state_json L) \<and> counter_inv L sw)"
    using rx_free_counter_inv [of L] by (auto simp: rx_free_def stable_conj)
  show "stable (\<lambda>w. json_law (state_json L) \<and> world_inv L w)"
    by (simp add: stable_conj world_inv_def)
qed (auto intro!: triple_with_fact write_quiet execute_framed_keeps counter_inv_fresh
    dest: counter_inv_world)

text \<open>So is any assertion on the environment, which nothing changes.\<close>

lemma execute_framed_env:
  "triple (\<lambda>(s, w). X (w_env w)) (execute_framed L cmd t) (\<lambda>_ (s, w). X (w_env w))
     (\<lambda>(s, w). X (w_env w))"
proof -
  let ?P = "\<lambda>(s, w). X (w_env w)"
  have free: "rx_free ?P" by (simp add: rx_free_def)
  have wr: "triple ?P (on_port (port_write_all bs)) (\<lambda>_. ?P) ?P" for bs
    unfolding on_port_def by (intro triple_on_world triple_map_err triple_port_write) simp_all
  have body: "triple ?P (case ok of None \<Rightarrow> panic_io | Some key \<Rightarrow>
           bind_io (result_io (advance_counter counter)) (\<lambda>next.
           bind_io (on_world (map_err_io
               (\<lambda>_. Sensor_Io (Io_error Other ''persist client_counter''))
               (state_save (state_json L) \<lparr>next_cmd_counter = next\<rparr>))) (\<lambda>_.
           bind_io (modify_io (\<lambda>(s, w). (s\<lparr>client_counter := next\<rparr>, w))) (\<lambda>_.
           bind_io clear_rx_buf (\<lambda>_.
           bind_io (on_port port_call) (\<lambda>_.
           bind_io (on_port (port_write_all (as_bytes (encode_command key counter cmd)))) (\<lambda>_.
           bind_io (on_port (port_write_all [10])) (\<lambda>_.
           bind_io (on_port port_call) (\<lambda>_.
           bind_io (on_world now) (\<lambda>u.
           line_loop (framed_action (ct_eq L) key counter) (Err (Timeout cmd)) (u + from_millis t) 0))))))))))
     (\<lambda>_. ?P) ?P" for ok counter
    by (cases ok)
      (auto intro!: triple_panic keeps_bind result_keeps triple_on_world triple_map_err state_save_env
        triple_modify keeps_clear_rx_buf keeps_on_port_call wr keeps_now_world keeps_line_loop free
        simp: split_beta intro: free)
  show ?thesis
    unfolding execute_framed_def
    by (rule keeps_bind) (use body in \<open>auto intro!: triple_get\<close>)
qed

lemma execute_framed_key:
  "triple (\<lambda>(s, w). auth_key s = K) (execute_framed L cmd t) (\<lambda>_ (s, w). auth_key s = K)
     (\<lambda>(s, w). auth_key s = K)"
proof -
  let ?P = "\<lambda>(s, w). auth_key s = K"
  have free: "rx_free ?P" by (simp add: rx_free_def)
  have wr: "triple ?P (on_port (port_write_all bs)) (\<lambda>_. ?P) ?P" for bs
    unfolding on_port_def by (intro triple_on_world triple_map_err triple_port_write) simp_all
  have body: "triple ?P (case ok of None \<Rightarrow> panic_io | Some key \<Rightarrow>
           bind_io (result_io (advance_counter counter)) (\<lambda>next.
           bind_io (on_world (map_err_io
               (\<lambda>_. Sensor_Io (Io_error Other ''persist client_counter''))
               (state_save (state_json L) \<lparr>next_cmd_counter = next\<rparr>))) (\<lambda>_.
           bind_io (modify_io (\<lambda>(s, w). (s\<lparr>client_counter := next\<rparr>, w))) (\<lambda>_.
           bind_io clear_rx_buf (\<lambda>_.
           bind_io (on_port port_call) (\<lambda>_.
           bind_io (on_port (port_write_all (as_bytes (encode_command key counter cmd)))) (\<lambda>_.
           bind_io (on_port (port_write_all [10])) (\<lambda>_.
           bind_io (on_port port_call) (\<lambda>_.
           bind_io (on_world now) (\<lambda>u.
           line_loop (framed_action (ct_eq L) key counter) (Err (Timeout cmd)) (u + from_millis t) 0))))))))))
     (\<lambda>_. ?P) ?P" for ok counter
    by (cases ok)
      (auto intro!: triple_panic keeps_bind result_keeps triple_on_world triple_map_err triple_const
        triple_modify keeps_clear_rx_buf keeps_on_port_call wr keeps_now_world keeps_line_loop free
        simp: split_beta intro: free)
  show ?thesis
    unfolding execute_framed_def
    by (rule keeps_bind) (use body in \<open>auto intro!: triple_get\<close>)
qed

interpretation environment: driver_invariant L "\<lambda>(s, w). X (w_env w)" "\<lambda>w. X (w_env w)" for L X
proof
  show "rx_free (\<lambda>(s, w). X (w_env w))" by (simp add: rx_free_def)
  show "triple (\<lambda>(s, w). X (w_env w)) (on_port (port_write_all bs)) (\<lambda>_ (s, w). X (w_env w))
      (\<lambda>(s, w). X (w_env w))" for bs
    unfolding on_port_def by (intro triple_on_world triple_map_err triple_port_write) simp_all
qed (auto intro: execute_framed_env)

text \<open>And the key the driver was given.\<close>

interpretation key_kept: driver_steps L "\<lambda>(s, w). auth_key s = K" for L K
proof
  show "rx_free (\<lambda>(s, w). auth_key s = K)" by (simp add: rx_free_def)
  show "triple (\<lambda>(s, w). auth_key s = K) (on_port (port_write_all bs)) (\<lambda>_ (s, w). auth_key s = K)
      (\<lambda>(s, w). auth_key s = K)" for bs
    unfolding on_port_def by (intro triple_on_world triple_map_err triple_port_write) simp_all
qed (rule execute_framed_key)

section \<open>The properties\<close>

text \<open>
  Claim C5. The monotonic counter. Take any environment, with faults and a crash at any call, in
  which nobody else touches the daemon's files; let the counters sent so far be strictly increasing,
  below the reserved band, and each below the counter on disk and the struct's next one. Then the
  same holds after a framed command, however it ended, and it sent at most one frame, with the
  struct's counter. So a counter is on disk as used before it is on the wire, and no restart reuses
  one.
\<close>

theorem counter_never_reused:
  assumes "json_law (state_json L)" "counter_inv L (s, w)" "auth_key s = Some k" "utf8_valid cmd"
    and "execute L cmd timeout (s, w) = (r, s', w')"
  shows "counter_inv L (s', w')
    \<and> (frame_counters (w_wire w') = frame_counters (w_wire w)
       \<or> frame_counters (w_wire w') = frame_counters (w_wire w) @ [client_counter s])"
proof -
  have e: "execute_framed L cmd timeout (s, w) = (r, s', w')"
    using assms(3,5) by (simp add: execute_def bind_io_def get_io_def)
  have a: "after_send L (client_counter s) (frame_counters (w_wire w)) (s', w')"
    by (rule execute_framed_after [OF assms(1-4) e])
  with after_send_inv [OF a] show ?thesis by (auto simp: after_send_def st_pred_def)
qed

definition demo_libs :: libs where
  "demo_libs = \<lparr>ct_eq = (=), state_json = demo_json\<rparr>"

definition demo_r503 :: r503 where
  "demo_r503 = set_auth (replicate 16 7) 1 (fresh_r503 ''/dev/r503'')"

lemma demo_counter_inv: "counter_inv demo_libs (demo_r503, demo_world Map.empty)"
  using demo_private
  by (simp add: counter_inv_def st_pred_def demo_world_def file_secure_def counters_ok_def)

theorem counter_never_reused_witness:
  "\<exists>r s' w'. execute demo_libs ''verify'' 15000 (demo_r503, demo_world Map.empty) = (r, s', w')
    \<and> counter_inv demo_libs (s', w')
    \<and> (frame_counters (w_wire w') = frame_counters (w_wire (demo_world Map.empty))
       \<or> frame_counters (w_wire w')
            = frame_counters (w_wire (demo_world Map.empty)) @ [client_counter demo_r503])"
proof -
  obtain r s' w' where e:
    "execute demo_libs ''verify'' 15000 (demo_r503, demo_world Map.empty) = (r, s', w')"
    by (cases "execute demo_libs ''verify'' 15000 (demo_r503, demo_world Map.empty)")
  have "utf8_valid ''verify''" by (simp add: ascii_utf8_valid is_ascii_def ord_def)
  then show ?thesis
    using counter_never_reused [OF _ demo_counter_inv _ _ e] demo_json_law e
    by (simp add: demo_libs_def demo_r503_def set_auth_def)
qed

text \<open>
  The reserved band: at the ceiling a framed command fails with \<open>CounterExhausted\<close> before
  anything is written or sent, and below it the counter advances by one without wrapping.
\<close>

theorem counter_ceiling:
  "advance_counter c = (if c < COUNTER_CEILING then Ok (c + 1) else Err CounterExhausted)
    \<and> (c < COUNTER_CEILING \<longrightarrow> unat (c + 1) = Suc (unat c) \<and> c + 1 \<le> COUNTER_CEILING)
    \<and> (auth_key s = Some k \<longrightarrow> COUNTER_CEILING \<le> client_counter s \<longrightarrow>
         execute L cmd timeout (s, w) = (Err CounterExhausted, s, w))"
proof (intro conjI impI)
  assume "c < COUNTER_CEILING"
  then show "unat (c + 1) = Suc (unat c)" by (rule unat_counter_Suc)
  with \<open>c < COUNTER_CEILING\<close> show "c + 1 \<le> COUNTER_CEILING"
    by (simp add: word_le_nat_alt word_less_nat_alt)
qed (auto simp: advance_counter_def execute_def execute_framed_def bind_io_def get_io_def result_io_def
    not_le)

theorem counter_ceiling_witness:
  "execute demo_libs ''info'' 2000 (demo_r503\<lparr>client_counter := COUNTER_CEILING\<rparr>, demo_world Map.empty)
     = (Err CounterExhausted, demo_r503\<lparr>client_counter := COUNTER_CEILING\<rparr>, demo_world Map.empty)
   \<and> unat ((41 :: u64) + 1) = Suc (unat (41 :: u64))"
  using counter_ceiling [of 41 "demo_r503\<lparr>client_counter := COUNTER_CEILING\<rparr>" "replicate 16 7"
      demo_libs "''info''" 2000 "demo_world Map.empty"]
  by (simp add: demo_r503_def set_auth_def COUNTER_CEILING_def)

end
