(* ===== verification/Sensor_Peer.thy ===== *)
theory Sensor_Peer
  imports Sensor_Safety
begin

text \<open>
  The framed exchange of \<open>Sensor\<close> and its peer: an answer is accepted only with the MAC, the counter
  and the sequence number of this exchange, and a genuine one is accepted.
\<close>

section \<open>The accepted exchange\<close>

text \<open>
  What a framed exchange accepts: response frames with the sequence numbers from \<open>q\<close> on, all under
  this counter and with the right MAC.
\<close>

definition accepted_frames ::
  "(u64 \<Rightarrow> u64 \<Rightarrow> bool) \<Rightarrow> u8 list \<Rightarrow> u64 \<Rightarrow> str list \<Rightarrow> bool"
where
  "accepted_frames ct key c lines \<longleftrightarrow>
     (\<forall>i < length lines. \<exists>body. verify_response ct key (lines ! i) = Ok (c, of_nat i, body))"

lemma accepted_frames_snoc:
  "accepted_frames ct key c ls \<Longrightarrow> verify_response ct key l = Ok (c, of_nat (length ls), b) \<Longrightarrow>
     accepted_frames ct key c (ls @ [l])"
  by (auto simp: accepted_frames_def nth_append less_Suc_eq)

lemma framed_loop_accepts:
  assumes "line_loop (framed_action ct key c) (Err e) deadline 0 (s, w) = (r, s', w')" "r = Ok body"
  shows "\<exists>lines final. accepted_frames ct key c lines
    \<and> verify_response ct key final = Ok (c, of_nat (length lines), body)
    \<and> (starts_with body ''OK'' \<or> starts_with body ''ERR'')"
proof -
  let ?P = "\<lambda>q s w. \<exists>lines. q = of_nat (length lines) \<and> accepted_frames ct key c lines"
  let ?Q = "\<lambda>r s w. \<forall>body. r = Ok body \<longrightarrow> (\<exists>lines final. accepted_frames ct key c lines
    \<and> verify_response ct key final = Ok (c, of_nat (length lines), body)
    \<and> (starts_with body ''OK'' \<or> starts_with body ''ERR''))"
  have "?Q r s' w'"
  proof (rule line_loop_ends [where P = ?P and Q = ?Q, OF _ _ _ _ assms(1)])
    fix q :: u32 and s w l s' w'
    assume "?P q s w"
    then obtain ls where q: "q = of_nat (length ls)" and acc: "accepted_frames ct key c ls" by blast
    have more: "?P (q + 1) s w" if "verify_response ct key l = Ok (c, q, b)" for b
      using accepted_frames_snoc [OF acc] that q by (intro exI [of _ "ls @ [l]"]) simp
    show "case framed_action ct key c q l of Finish r \<Rightarrow> ?Q r s' w' | Skip q' \<Rightarrow> ?P q' s' w'
        | Report m q' \<Rightarrow> ?P q' s' (snd (report_progress m (s', w')))"
      using more acc q
      by (auto simp: framed_action_def split: result.splits option.splits)
  next
    show "?P 0 s w" by (intro exI [of _ "[]"]) (simp add: accepted_frames_def)
  qed (auto split: result.splits)
  with assms(2) show ?thesis by blast
qed


text \<open>Characters that are ASCII and no control characters.\<close>

definition printable :: "str \<Rightarrow> bool" where
  "printable s \<longleftrightarrow> list_all (\<lambda>c. 32 \<le> ord c \<and> ord c < 128) s"

lemma printable_Nil [simp]: "printable []"
  and printable_Cons: "printable (c # s) \<longleftrightarrow> 32 \<le> ord c \<and> ord c < 128 \<and> printable s"
  by (simp_all add: printable_def)

lemma printable_append [simp]: "printable (a @ b) \<longleftrightarrow> printable a \<and> printable b"
  by (simp add: printable_def)

lemma printable_show_nat [simp]: "printable (show_nat n)"
  using show_nat_digits [of n] by (auto simp: printable_def list_all_iff is_ascii_digit_def)

lemma printable_hex: "printable (hex_bytes bs)"
proof (induction bs)
  case (Cons b bs)
  have "unat b div 16 < 16" "unat b mod 16 < 16" using unat_lt_2p8 [of b] by simp_all
  with Cons show ?case by (auto simp: printable_def hex_bytes_def hex_byte_def ord_hex_digit)
qed (simp add: printable_def hex_bytes_def)

lemma printable_mac [simp]: "printable (mac_to_hex m)"
  by (simp add: mac_to_hex_def printable_hex)

lemma printable_no_control: "printable s \<Longrightarrow> ord c < 32 \<Longrightarrow> c \<notin> set s"
  by (auto simp: printable_def list_all_iff)

lemma printable_utf8: "printable s \<Longrightarrow> utf8_valid s"
  by (rule ascii_utf8_valid) (auto simp: printable_def list_all_iff is_ascii_def)

section \<open>A peer that answers\<close>

lemma port_call_quiet: "no_faults (w_env w) \<Longrightarrow> port_call w = (Ok (), step_world 0 w)"
  by (simp add: port_call_def atomic_quiet return_io_def)

lemma port_write_quiet:
  "no_faults (w_env w) \<Longrightarrow> port_write_all bs w
     = (Ok (), (step_world 0 w)\<lparr>w_wire := w_wire w @ [(bs, length bs)]\<rparr>)"
  by (simp add: port_write_all_def syscall_def no_faults_def)

lemma port_read_quiet:
  "no_faults (w_env w) \<Longrightarrow> port_read w = (e_read (w_env w) (w_tick w), step_world 1 w)"
  by (simp add: port_read_def no_faults_def)

lemma port_poll_quiet:
  assumes "no_faults (w_env w)" "e_read (w_env w) (Suc (w_tick w)) = Ok bs"
  shows "port_poll w = (Ok (Some bs), step_world 1 (step_world 0 w))"
  using assms
  by (simp add: port_poll_def bind_io_def ignore_io_def match_io_def port_call_quiet port_read_quiet
      return_io_def step_world_def)

lemma position_first: "x \<notin> set a \<Longrightarrow> position x (a @ x # b) = Some (length a)"
  by (induction a) auto

lemma newline_free_bytes: "CHR 0x0A \<notin> set l \<Longrightarrow> 10 \<notin> set (as_bytes l)"
proof
  assume "CHR 0x0A \<notin> set l" "10 \<in> set (as_bytes l)"
  then obtain c where c: "c \<in> set l" "(of_char c :: u8) = 10" by (auto simp: as_bytes_def)
  then have "ord c = 10" using unat_of_char [of c] by simp
  then have "c = char_of (10 :: nat)" by (metis char_of_ord)
  also have "char_of (10 :: nat) = CHR 0x0A" by code_simp
  finally have "c = CHR 0x0A" .
  with c(1) \<open>CHR 0x0A \<notin> set l\<close> show False by simp
qed

lemma line_of_bytes_plain:
  assumes "utf8_valid l" "l = [] \<or> last l \<noteq> CHR 0x0D"
  shows "line_of_bytes (as_bytes l) = l"
  using assms by (auto simp: line_of_bytes_def from_utf8_lossy_id)

text \<open>With an empty buffer, a read that delivers one whole line yields that line.\<close>

lemma read_line_one:
  assumes "rx_buf s = []" "w_now w < deadline" "no_faults (w_env w)"
    and "e_read (w_env w) (Suc (w_tick w)) = Ok (as_bytes l @ [10])" "length l < 256"
    and "CHR 0x0A \<notin> set l" "utf8_valid l" "l = [] \<or> last l \<noteq> CHR 0x0D"
  shows "read_line deadline (s, w) = (Ok (Some l), s\<lparr>rx_buf := []\<rparr>, step_world 1 (step_world 0 w))"
proof -
  have p: "position 10 (as_bytes l @ [10]) = Some (length l)"
    using position_first [OF newline_free_bytes [OF assms(6)], of "[]"] by simp
  have "read_line deadline (s, w)
      = read_line deadline (s\<lparr>rx_buf := as_bytes l @ [10]\<rparr>, step_world 1 (step_world 0 w))"
    using assms(1,2,5) port_poll_quiet [OF assms(3,4)]
    by (subst read_line.simps) (simp add: MAX_LINE_LEN_def)
  also have "\<dots> = (Ok (Some l), s\<lparr>rx_buf := []\<rparr>, step_world 1 (step_world 0 w))"
    by (subst read_line.simps) (simp add: p line_of_bytes_plain [OF assms(7,8)])
  finally show ?thesis .
qed

lemma encode_response_line:
  assumes "utf8_valid body" "CHR 0x0A \<notin> set body"
  shows "utf8_valid (encode_response k c q body)" "CHR 0x0A \<notin> set (encode_response k c q body)"
    "last (encode_response k c q body) \<noteq> CHR 0x0D"
proof -
  let ?m = "siphash24 k (as_bytes (rsp_mac_input c q body))"
  let ?p = "''R '' @ show_u64 c @ '' '' @ show_u32 q @ '' ''" and ?s = "'' M '' @ mac_to_hex ?m"
  have e: "encode_response k c q body = ?p @ body @ ?s" by (simp add: encode_response_def)
  have p: "printable ?p" "printable ?s"
    by (simp_all add: show_u64_def show_u32_def printable_Cons) (simp_all add: ord_def)
  show "utf8_valid (encode_response k c q body)"
    unfolding e by (intro utf8_valid_concat printable_utf8 p assms(1))
  have "CHR 0x0A \<notin> set ?p" by (rule printable_no_control [OF p(1)]) (simp add: ord_def)
  moreover have "CHR 0x0A \<notin> set ?s" by (rule printable_no_control [OF p(2)]) (simp add: ord_def)
  moreover have "CHR 0x0D \<notin> set ?s" by (rule printable_no_control [OF p(2)]) (simp add: ord_def)
  moreover have "last (encode_response k c q body) = last ?s" unfolding e by simp
  moreover have "last ?s \<in> set ?s" by (rule last_in_set) simp
  ultimately show "CHR 0x0A \<notin> set (encode_response k c q body)"
    "last (encode_response k c q body) \<noteq> CHR 0x0D"
    unfolding e using assms(2) by (simp, metis)
qed

lemma framed_answer_received_aux:
  assumes "auth_key s = Some k" "client_counter s < COUNTER_CEILING" "0 < timeout" "ct_eq_law (ct_eq L)"
    and "state_save (state_json L) \<lparr>next_cmd_counter = client_counter s + 1\<rparr> w = (Ok (), w1)"
    and "no_faults (w_env w1)"
    and "e_read (w_env w1) (w_tick w1 + 5)
          = Ok (as_bytes (encode_response k (client_counter s) 0 body) @ [10])"
    and "utf8_valid body" "CHR 0x0A \<notin> set body" "length (encode_response k (client_counter s) 0 body) < 256"
    and "starts_with body ''OK'' \<or> starts_with body ''ERR''"
  shows "fst (execute L cmd timeout (s, w)) = Ok body"
proof -
  let ?c = "client_counter s"
  let ?l = "encode_response k ?c 0 body"
  note line = encode_response_line [OF assms(8,9), of k ?c 0]
  have v: "verify_response (ct_eq L) k ?l = Ok (?c, 0, body)"
    using rsp.verify_encode [OF assms(8,4), of k "(?c, 0)"] by (auto simp: result_simps)
  have act: "framed_action (ct_eq L) k ?c 0 ?l = Finish (Ok body)"
  proof -
    have "starts_with ?l ''R ''" "?l \<noteq> []" by (simp_all add: encode_response_def starts_with_def)
    moreover have "strip_prefix body ''PROGRESS '' = None"
      using assms(11) by (cases body) (auto simp: strip_prefix_def starts_with_def)
    ultimately show ?thesis using assms(11) v by (auto simp: framed_action_def)
  qed
  have "line_loop (framed_action (ct_eq L) k ?c) (Err (Timeout cmd)) d 0 (s2, w2) = (Ok body, s2\<lparr>rx_buf := []\<rparr>, step_world 1 (step_world 0 w2))"
    if "rx_buf s2 = []" "w_now w2 < d" "no_faults (w_env w2)" 
      "e_read (w_env w2) (Suc (w_tick w2)) = Ok (as_bytes ?l @ [10])" for s2 w2 d
    using read_line_one [OF that assms(10) line(2,1)] line(3)
    by (subst line_loop.simps) (simp add: act)
  moreover have "e_read (w_env w1) (Suc (Suc (Suc (Suc (Suc (w_tick w1)))))) = Ok (as_bytes ?l @ [10])"
    using assms(7) by (simp add: eval_nat_numeral)
  ultimately show ?thesis
    using assms(1-6)
    by (simp add: execute_def execute_framed_def bind_io_def get_io_def advance_counter_def result_io_def
        on_world_def map_err_io_def modify_io_def clear_rx_buf_def on_port_def port_call_quiet
        port_write_quiet now_def from_millis_def step_world_def)
qed

section \<open>The properties\<close>

definition demo_peer :: world where
  "demo_peer = (demo_world Map.empty)\<lparr>w_env := demo_env\<lparr>e_read := \<lambda>t.
     if t = 12 then Ok (as_bytes (encode_response (replicate 16 7) 1 0 ''OK pong'') @ [10])
     else Err (Io_error TimedOut [])\<rparr>\<rparr>"

lemma demo_peer_saved:
  "\<exists>w1. state_save demo_json \<lparr>next_cmd_counter = 2\<rparr> demo_peer = (Ok (), w1)
    \<and> w_tick w1 = 7 \<and> w_env w1 = w_env demo_peer"
  by (simp add: state_save_def bind_io_def with_context_def map_err_io_def ignore_io_def match_io_def
      return_io_def result_io_def fs_create_dir_all_def fs_set_permissions_def fs_open_truncate_def
      fs_write_all_def fs_sync_all_def fs_rename_def atomic_call_def syscall_def demo_world_def
      demo_env_def fs_lookup_def follow_plain set_fs_def demo_json_def write_at_def demo_peer_def
      step_world_def)

lemma demo_answer: "fst (execute demo_libs ''ping'' 2000 (demo_r503, demo_peer)) = Ok ''OK pong''"
proof -
  obtain w1 where w1: "state_save demo_json \<lparr>next_cmd_counter = 2\<rparr> demo_peer = (Ok (), w1)"
    "w_tick w1 = 7" "w_env w1 = w_env demo_peer"
    using demo_peer_saved by blast
  show ?thesis
    by (rule framed_answer_received_aux [of demo_r503 "replicate 16 7" 2000 demo_libs demo_peer w1])
      (use w1 in \<open>simp_all add: demo_r503_def set_auth_def demo_libs_def COUNTER_CEILING_def ct_eq_law_def
        demo_peer_def no_faults_def demo_env_def printable_utf8 printable_Cons ord_def encode_response_def
        show_u64_def show_u32_def show_nat.simps starts_with_def\<close>)
qed




end
