(* ===== verification/Sensor_Answers.thy ===== *)
theory Sensor_Answers
  imports Sensor_Peer
begin

text \<open>
  How the driver reads the firmware's answers (\<open>expect_ok\<close>, \<open>parse_kv\<close>, \<open>parse_field\<close> of
  \<open>sensor.rs\<close>): what the firmware prints for a match comes out as that match, an ERR line as a
  command error with its code, and an answer without the expected fields is refused.
\<close>

section \<open>Tokens\<close>

text \<open>A token: not empty, visible ASCII characters.\<close>

definition token :: "str \<Rightarrow> bool" where
  "token t \<longleftrightarrow> t \<noteq> [] \<and> list_all (\<lambda>c. 33 \<le> ord c \<and> ord c < 127) t"

lemma space_whitespace [simp]: "is_whitespace '' ''"
  by (simp add: is_whitespace_def whitespace_chars_def ord_def)

lemma token_ascii: "token t \<Longrightarrow> list_all is_ascii t"
  by (auto simp: token_def list_all_iff is_ascii_def)

lemma split_ws_token:
  assumes "list_all (\<lambda>c. 33 \<le> ord c \<and> ord c < 127) t"
  shows "split_ws_chars acc (map (\<lambda>c. [c]) t @ cs) = split_ws_chars (acc @ t) cs"
  using assms
  by (induction t arbitrary: acc) (simp_all add: visible_not_whitespace)

lemma split_whitespace_tokens:
  assumes "token a" "token b"
  shows "split_whitespace (a @ '' '' @ b) = [a, b]"
proof -
  have "list_all is_ascii (a @ '' '' @ b)"
    using assms by (simp add: token_ascii is_ascii_def ord_def)
  then have u: "utf8_chars (a @ '' '' @ b) = map (\<lambda>c. [c]) a @ ['' ''] @ map (\<lambda>c. [c]) b @ []"
    by (simp only: ascii_utf8_chars) simp
  show ?thesis
    using assms unfolding split_whitespace_def u token_def
    by (simp add: split_ws_token split_ws_token [of b _ "[]", simplified])
qed

lemma dropWhile_token:
  "token t \<Longrightarrow> dropWhile is_whitespace (map (\<lambda>c. [c]) t) = map (\<lambda>c. [c]) t"
  by (cases t) (auto simp: token_def visible_not_whitespace)

text \<open>Trimming one leading space off tokens.\<close>

lemma trim_tokens:
  assumes "token a" "token b"
  shows "trim ('' '' @ a @ '' '' @ b) = a @ '' '' @ b"
proof -
  let ?m = "map (\<lambda>c. [c])"
  have asc: "list_all is_ascii ('' '' @ a @ '' '' @ b)"
    using assms by (simp add: token_ascii is_ascii_def ord_def)
  have u: "utf8_chars ('' '' @ a @ '' '' @ b) = '' '' # ?m (a @ '' '' @ b)"
    by (simp only: ascii_utf8_chars [OF asc]) simp
  have "dropWhile is_whitespace (utf8_chars ('' '' @ a @ '' '' @ b)) = ?m (a @ '' '' @ b)"
    using assms(1) unfolding u by (cases a) (auto simp: token_def visible_not_whitespace)
  moreover have "dropWhile is_whitespace (rev (?m (a @ '' '' @ b))) = rev (?m (a @ '' '' @ b))"
    using assms(2) by (cases b rule: rev_cases) (auto simp: token_def visible_not_whitespace)
  moreover have "concat (?m s) = s" for s :: str by (induction s) simp_all
  ultimately show ?thesis unfolding trim_def by (simp only: rev_rev_ident)
qed

lemma token_field: "token k \<Longrightarrow> token (k @ ''='' @ show_nat n)"
  using show_nat_digits [of n] by (auto simp: token_def list_all_iff is_ascii_digit_def ord_def)

lemma split_once_field: "CHR ''='' \<notin> set k \<Longrightarrow> split_once CHR ''='' (k @ ''='' @ v) = Some (k, v)"
  using find_char_append [of "CHR ''=''" k v] by (simp add: split_once_def)

section \<open>The properties\<close>

lemma match_answer_parsed:
  "bind_r (expect_ok (''OK match='' @ show_u8 sl @ '' confidence='' @ show_nat (unat cf))) match_of_body
     = Ok \<lparr>match_slot = sl, match_confidence = cf\<rparr>"
proof -
  let ?a = "''match'' @ ''='' @ show_nat (unat sl)" and ?b = "''confidence'' @ ''='' @ show_nat (unat cf)"
  have tok: "token ?a" "token ?b"
    by (rule token_field, simp add: token_def ord_def)+
  have line: "''OK match='' @ show_u8 sl @ '' confidence='' @ show_nat (unat cf)
      = ''OK'' @ '' '' @ ?a @ '' '' @ ?b" by (simp add: show_u8_def)
  have e: "expect_ok (''OK'' @ '' '' @ ?a @ '' '' @ ?b) = Ok (?a @ '' '' @ ?b)"
    unfolding expect_ok_def by (simp only: strip_prefix_append option.case trim_tokens [OF tok])
  have f: "split_once CHR ''='' ?a = Some (''match'', show_nat (unat sl))"
    "split_once CHR ''='' ?b = Some (''confidence'', show_nat (unat cf))"
    by (rule split_once_field, simp)+
  have kv: "parse_kv (?a @ '' '' @ ?b)
      = [''match'' \<mapsto> show_nat (unat sl), ''confidence'' \<mapsto> show_nat (unat cf)]"
    unfolding parse_kv_def split_whitespace_tokens [OF tok]
    by (simp only: List.map_filter_simps f option.case) simp
  have "unat sl < 2 ^ 8" "unat cf < 2 ^ 16" using unat_bound [of sl] unat_bound [of cf] by simp_all
  then have p: "parse_uint 8 (show_nat (unat sl)) = Some (unat sl)"
    "parse_uint 16 (show_nat (unat cf)) = Some (unat cf)"
    by (simp_all only: parse_uint_show_nat)
  show ?thesis
    unfolding line e by (simp add: match_of_body_def kv [simplified] parse_u8_def parse_u16_def parse_field_def p)
qed

text \<open>
  The firmware's report of a match is read back exactly: for every slot and confidence,
  the answer \<open>OK match=<slot> confidence=<confidence>\<close> yields that slot and that confidence.
\<close>

theorem match_answer_roundtrip:
  "bind_r (expect_ok (''OK match='' @ show_u8 sl @ '' confidence='' @ show_nat (unat cf))) match_of_body
     = Ok \<lparr>match_slot = sl, match_confidence = cf\<rparr>"
  by (rule match_answer_parsed)

text \<open>
  Nothing but an OK answer is a success: a line that does not start with \<open>OK\<close> is a command
  error, and a match is reported only when both its fields were there and in range.
\<close>

theorem match_needs_ok_and_fields:
  "(\<not> starts_with line ''OK'' \<longrightarrow> (\<exists>code detail. expect_ok line = Err (Command code detail)))
   \<and> (match_of_body body = Ok m \<longrightarrow>
        (\<exists>v u. parse_kv body ''match'' = Some v \<and> parse_uint 8 v = Some (unat (match_slot m))
           \<and> parse_kv body ''confidence'' = Some u \<and> parse_uint 16 u = Some (unat (match_confidence m))))"
proof (intro conjI impI)
  assume "\<not> starts_with line ''OK''"
  then show "\<exists>code detail. expect_ok line = Err (Command code detail)"
    by (auto simp: expect_ok_def strip_prefix_def Let_def)
next
  assume "match_of_body body = Ok m"
  then obtain v u n k where "parse_kv body ''match'' = Some v" "parse_uint 8 v = Some n"
    "parse_kv body ''confidence'' = Some u" "parse_uint 16 u = Some k"
    "m = \<lparr>match_slot = of_nat n, match_confidence = of_nat k\<rparr>"
    by (auto simp: match_of_body_def parse_u8_def parse_u16_def parse_field_def result_simps Let_def
        split: option.splits)
  moreover have "n < 256" "k < 65536"
    using parse_uint_bound [of 8 v n] parse_uint_bound [of 16 u k] calculation by simp_all
  ultimately show "\<exists>v u. parse_kv body ''match'' = Some v \<and> parse_uint 8 v = Some (unat (match_slot m))
      \<and> parse_kv body ''confidence'' = Some u \<and> parse_uint 16 u = Some (unat (match_confidence m))"
    by (auto simp: unat_of_nat take_bit_nat_eq_self)
qed

theorem match_needs_ok_and_fields_witness:
  "(\<exists>code detail. expect_ok ''ERR no_match'' = Err (Command code detail))"
  using match_needs_ok_and_fields [of "''ERR no_match''"] by (simp add: starts_with_def)

end
