(* ===== verification/Sensor_Actor.thy ===== *)
theory Sensor_Actor
  imports Sensor_Safety
begin

text \<open>
  \<open>sensor_actor.rs\<close>: the worker thread that owns the driver. Requests come one at a time over a
  channel; each carries the sender of its reply, here a number, and the replies are kept in the
  order they are sent. The worker reopens the device after a fatal I/O error and retries a request
  once, except an enrolment, whose error it reports.

  The records: \<open>worker\<close> is the local state of the thread (the open driver, or none), the replies and
  the world. A method is an \<open>io\<close> over it.
\<close>

section \<open>Requests and replies\<close>

datatype sensor_request =
    Info_req nat
  | Enroll_req u8 "nat option" nat
  | Verify_req "nat option" nat
  | Identify_req "nat option" nat
  | Delete_req u8 nat
  | Clear_req nat
  | Wake_req nat
  | Ping_req nat
  | LedOff_req nat

fun req_done :: "sensor_request \<Rightarrow> nat" where
  "req_done (Info_req d) = d"
| "req_done (Enroll_req _ _ d) = d"
| "req_done (Verify_req _ d) = d"
| "req_done (Identify_req _ d) = d"
| "req_done (Delete_req _ d) = d"
| "req_done (Clear_req d) = d"
| "req_done (Wake_req d) = d"
| "req_done (Ping_req d) = d"
| "req_done (LedOff_req d) = d"

fun is_enroll :: "sensor_request \<Rightarrow> bool" where
  "is_enroll (Enroll_req _ _ _) \<longleftrightarrow> True"
| "is_enroll _ \<longleftrightarrow> False"

datatype reply = R_info sensor_info | R_slot u8 | R_match match_result | R_unit | R_bool bool

datatype handle_outcome = Done | NeedsReopen sensor_request | DoneAfterFatal

record worker =
  wk_sensor :: "r503 option"
  wk_replies :: "(nat \<times> (reply, sensor_error) result) list"
  wk_world :: world

section \<open>Errors that end the connection\<close>

definition is_fatal_io :: "sensor_error \<Rightarrow> bool" where
  "is_fatal_io err =
     (case err of
        Sensor_Io e \<Rightarrow>
          err_kind e \<in> {BrokenPipe, NotFound, NotConnected, UnexpectedEof, PermissionDenied, Other}
      | _ \<Rightarrow> False)"

fun is_fatal :: "('a, sensor_error) result \<Rightarrow> bool" where
  "is_fatal (Err e) \<longleftrightarrow> is_fatal_io e"
| "is_fatal _ \<longleftrightarrow> False"

section \<open>Authentication after opening\<close>

definition apply_auth :: "libs \<Rightarrow> u8 list option \<Rightarrow> r503 \<Rightarrow> (world, r503, sensor_error) io" where
  "apply_auth L key s =
     (case key of
        None \<Rightarrow> return_io s
      | Some k \<Rightarrow>
          bind_io (ok_io (state_load (state_json L))) (\<lambda>loaded.
            let next = (case loaded of
                          Some (Some st) \<Rightarrow> next_cmd_counter st
                        | _ \<Rightarrow> next_cmd_counter state_fresh)
            in return_io (set_auth k next s)))"

section \<open>One request\<close>

definition install_progress :: "nat option \<Rightarrow> r503 \<Rightarrow> r503" where
  "install_progress progress s =
     (case progress of Some ch \<Rightarrow> set_progress (To_channel ch) s | None \<Rightarrow> s)"

fun req_progress :: "sensor_request \<Rightarrow> nat option" where
  "req_progress (Enroll_req _ p _) = p"
| "req_progress (Verify_req p _) = p"
| "req_progress (Identify_req p _) = p"
| "req_progress _ = None"

definition map_io :: "('a \<Rightarrow> 'b) \<Rightarrow> ('s, 'a, 'e) io \<Rightarrow> ('s, 'b, 'e) io" where
  "map_io f m = bind_io m (\<lambda>x. return_io (f x))"

fun run_request :: "libs \<Rightarrow> sensor_request \<Rightarrow> reply sensor_io" where
  "run_request L (Info_req _) = map_io R_info (sensor_get_info L)"
| "run_request L (Enroll_req sl _ _) = map_io R_slot (sensor_enroll L sl)"
| "run_request L (Verify_req _ _) = map_io R_match (sensor_verify L)"
| "run_request L (Identify_req _ _) = map_io R_match (sensor_identify L)"
| "run_request L (Delete_req sl _) = map_io R_slot (sensor_delete L sl)"
| "run_request L (Clear_req _) = map_io (\<lambda>_. R_unit) (sensor_clear L)"
| "run_request L (Wake_req _) = map_io R_bool (sensor_wake L)"
| "run_request L (Ping_req _) = map_io R_bool (sensor_ping L)"
| "run_request L (LedOff_req _) = map_io (\<lambda>_. R_unit) (sensor_led_off L)"

text \<open>
  \<open>handle_request\<close>: what is to be done next, and the reply, if one was sent. An enrolment is
  answered in any case; the others are handed back when the error is fatal.
\<close>

definition handle_request ::
  "libs \<Rightarrow> sensor_request \<Rightarrow>
    (r503 \<times> world, handle_outcome \<times> (reply, sensor_error) result option, unit) io"
where
  "handle_request L req sw =
     (case sw of (s, w) \<Rightarrow>
        let s1 = install_progress (req_progress req) (set_progress Trace_log s)
        in case run_request L req (s1, w) of
             (Panic, s', w') \<Rightarrow> (Panic, s', w')
           | (result, s', w') \<Rightarrow>
               if is_enroll req
               then (Ok (if is_fatal result then DoneAfterFatal else Done, Some result), s', w')
               else if is_fatal result then (Ok (NeedsReopen req, None), s', w')
               else (Ok (Done, Some result), s', w'))"

text \<open>The text of the error is kept by \<open>to_string\<close>; texts are not modelled.\<close>

definition respond_with_error :: "sensor_request \<Rightarrow> sensor_error \<Rightarrow> worker \<Rightarrow> worker" where
  "respond_with_error req err wk =
     (let e = (case req of Info_req _ \<Rightarrow> err | _ \<Rightarrow> Sensor_Io (Io_error NotConnected []))
      in wk\<lparr>wk_replies := wk_replies wk @ [(req_done req, Err e)]\<rparr>)"

definition send_reply ::
  "sensor_request \<Rightarrow> (reply, sensor_error) result option \<Rightarrow> worker \<Rightarrow> worker"
where
  "send_reply req answer wk =
     (case answer of
        Some r \<Rightarrow> wk\<lparr>wk_replies := wk_replies wk @ [(req_done req, r)]\<rparr>
      | None \<Rightarrow> wk)"

section \<open>Reopening\<close>

definition REOPEN_ATTEMPTS :: nat where
  "REOPEN_ATTEMPTS = 4"

definition SYNC_TIMEOUT :: nat where
  "SYNC_TIMEOUT = from_millis 8000"

definition reopen_delay :: "nat \<Rightarrow> nat" where
  "reopen_delay attempt = (if attempt = 0 then 0 else 150 * 2 ^ min (attempt - 1) 3)"

text \<open>The driver when an attempt succeeds, the last error when none does.\<close>

fun reopen_loop ::
  "libs \<Rightarrow> str option \<Rightarrow> u8 list option \<Rightarrow> nat list \<Rightarrow> sensor_error option \<Rightarrow>
    (world, r503 + sensor_error option, sensor_error) io"
where
  "reopen_loop L port key [] last_err = return_io (Inr last_err)"
| "reopen_loop L port key (attempt # rest) last_err =
     bind_io (if 0 < attempt then sleep (from_millis (reopen_delay attempt)) else return_io ()) (\<lambda>_.
       match_io (r503_open port SYNC_TIMEOUT)
         (\<lambda>s. bind_io (apply_auth L key s) (\<lambda>s'. return_io (Inl s')))
         (\<lambda>e. reopen_loop L port key rest (Some e)))"

text \<open>A computation on the worker's world.\<close>

definition worker_io :: "(world, 'a, 'e) io \<Rightarrow> (worker, 'a, 'f) io" where
  "worker_io m wk =
     (case m (wk_world wk) of
        (Ok x, w) \<Rightarrow> (Ok x, wk\<lparr>wk_world := w\<rparr>)
      | (_, w) \<Rightarrow> (Panic, wk\<lparr>wk_world := w\<rparr>))"

text \<open>
  The inner loop for one request, with at most one transparent retry. A panic ends the thread.
\<close>

definition ensure_open :: "libs \<Rightarrow> str option \<Rightarrow> u8 list option \<Rightarrow> (worker, sensor_error option, unit) io" where
  "ensure_open L port key wk =
     (if wk_sensor wk \<noteq> None then (Ok None, wk)
      else (case reopen_loop L port key [0..<REOPEN_ATTEMPTS] None (wk_world wk) of
              (Ok (Inl s), w) \<Rightarrow> (Ok None, wk\<lparr>wk_sensor := Some s, wk_world := w\<rparr>)
            | (Ok (Inr last_err), w) \<Rightarrow>
                (Ok (Some (case last_err of
                             Some e \<Rightarrow> e
                           | None \<Rightarrow> Sensor_Io (Io_error NotConnected ''sensor reopen failed after retries''))),
                 wk\<lparr>wk_world := w\<rparr>)
            | (_, w) \<Rightarrow> (Panic, wk\<lparr>wk_world := w\<rparr>)))"

definition serve_step ::
  "libs \<Rightarrow> str option \<Rightarrow> u8 list option \<Rightarrow> bool \<Rightarrow> sensor_request \<Rightarrow>
    (worker, sensor_request option, unit) io"
where
  "serve_step L port key already_retried req =
     bind_io (ensure_open L port key) (\<lambda>oe wk1.
       case oe of
         Some err \<Rightarrow> (Ok None, respond_with_error req err wk1)
       | None \<Rightarrow>
           (case wk_sensor wk1 of
              None \<Rightarrow> (Panic, wk1)
            | Some s \<Rightarrow>
                (case handle_request L req (s, wk_world wk1) of
                   (Ok (Done, answer), s', w') \<Rightarrow>
                     (Ok None, send_reply req answer (wk1\<lparr>wk_sensor := Some s', wk_world := w'\<rparr>))
                 | (Ok (DoneAfterFatal, answer), s', w') \<Rightarrow>
                     (Ok None, send_reply req answer (wk1\<lparr>wk_sensor := None, wk_world := w'\<rparr>))
                 | (Ok (NeedsReopen returned_req, answer), s', w') \<Rightarrow>
                     let wk2 = wk1\<lparr>wk_sensor := None, wk_world := w'\<rparr>
                     in if already_retried
                        then (Ok None, respond_with_error returned_req
                                (Sensor_Io (Io_error NotConnected ''sensor failed twice in a row'')) wk2)
                        else (Ok (Some returned_req), wk2)
                 | (_, s', w') \<Rightarrow> (Panic, wk1\<lparr>wk_sensor := Some s', wk_world := w'\<rparr>))))"

lemma serve_step_retried: "serve_step L port key True req wk \<noteq> (Ok (Some r), wk')"
  by (simp add: serve_step_def bind_io_def Let_def
      split: prod.splits result.splits option.splits handle_outcome.splits)

function serve ::
  "libs \<Rightarrow> str option \<Rightarrow> u8 list option \<Rightarrow> bool \<Rightarrow> sensor_request \<Rightarrow> (worker, unit, unit) io"
where
  "serve L port key already_retried req wk =
     (case serve_step L port key already_retried req wk of
        (Ok (Some returned_req), wk') \<Rightarrow> serve L port key True returned_req wk'
      | (Ok None, wk') \<Rightarrow> (Ok (), wk')
      | (_, wk') \<Rightarrow> (Panic, wk'))"
  by pat_completeness auto
termination
proof (relation "measure (\<lambda>(L, p, k, retried, r, wk). if retried then 0 else 1)", goal_cases)
  case (2 L port key retried req wk res wk' or r)
  then show ?case using serve_step_retried [of L port key req wk r wk'] by (cases retried) auto
qed simp

declare serve.simps [simp del]

text \<open>At most two rounds.\<close>

lemma serve_rounds:
  assumes "serve L port key False req wk = (r, wk')"
  shows "(serve_step L port key False req wk = (Ok None, wk') \<and> r = Ok ())
    \<or> (\<exists>r1 wk1. serve_step L port key False req wk = (Ok (Some r1), wk1)
        \<and> (serve_step L port key True r1 wk1 = (Ok None, wk') \<and> r = Ok ()
           \<or> (\<exists>x. serve_step L port key True r1 wk1 = (x, wk') \<and> (\<forall>y. x \<noteq> Ok y) \<and> r = Panic)))
    \<or> (\<exists>x. serve_step L port key False req wk = (x, wk') \<and> (\<forall>y. x \<noteq> Ok y) \<and> r = Panic)"
proof -
  obtain x wk1 where s: "serve_step L port key False req wk = (x, wk1)"
    by (cases "serve_step L port key False req wk")
  show ?thesis
  proof (cases x)
    case (Ok o1)
    show ?thesis
    proof (cases o1)
      case None
      with assms s Ok show ?thesis by (simp add: serve.simps [of _ _ _ False])
    next
      case (Some r1)
      obtain y wk2 where t: "serve_step L port key True r1 wk1 = (y, wk2)"
        by (cases "serve_step L port key True r1 wk1")
      have "serve L port key True r1 wk1 = (r, wk')"
        using assms s Ok Some by (simp add: serve.simps [of _ _ _ False])
      then show ?thesis
        using s Ok Some t serve_step_retried [of L port key r1 wk1]
        by (cases y) (auto simp: serve.simps [of _ _ _ True] split: option.splits)
    qed
  qed (use assms s in \<open>simp_all add: serve.simps [of _ _ _ False]\<close>)
qed

text \<open>The thread: the initial open, then the requests in the order they were sent.\<close>

fun serve_all ::
  "libs \<Rightarrow> str option \<Rightarrow> u8 list option \<Rightarrow> sensor_request list \<Rightarrow> (worker, unit, unit) io"
where
  "serve_all L port key [] = return_io ()"
| "serve_all L port key (req # reqs) =
     bind_io (serve L port key False req) (\<lambda>_. serve_all L port key reqs)"

definition worker_run ::
  "libs \<Rightarrow> str option \<Rightarrow> u8 list option \<Rightarrow> sensor_request list \<Rightarrow> world \<Rightarrow>
    (unit, sensor_error) result \<times> worker"
where
  "worker_run L port key reqs w =
     (case r503_open port SYNC_TIMEOUT w of
        (Ok s, w1) \<Rightarrow>
          (case apply_auth L key s w1 of
             (Ok s', w2) \<Rightarrow>
               (case serve_all L port key reqs \<lparr>wk_sensor = Some s', wk_replies = [], wk_world = w2\<rparr> of
                  (Ok _, wk) \<Rightarrow> (Ok (), wk)
                | (_, wk) \<Rightarrow> (Panic, wk))
           | (_, w2) \<Rightarrow> (Panic, \<lparr>wk_sensor = None, wk_replies = [], wk_world = w2\<rparr>))
      | (Err e, w1) \<Rightarrow> (Err e, \<lparr>wk_sensor = None, wk_replies = [], wk_world = w1\<rparr>)
      | (Panic, w1) \<Rightarrow> (Panic, \<lparr>wk_sensor = None, wk_replies = [], wk_world = w1\<rparr>))"

section \<open>Replies\<close>

lemma respond_replies [simp]:
  "\<exists>r. wk_replies (respond_with_error req err wk) = wk_replies wk @ [(req_done req, r)]"
  by (simp add: respond_with_error_def Let_def)

lemma ensure_open_replies: "ensure_open L port key wk = (r, wk1) \<Longrightarrow> wk_replies wk1 = wk_replies wk"
  by (auto simp: ensure_open_def split: if_splits prod.splits result.splits sum.splits)

lemma handle_request_outcome:
  assumes "handle_request L req sw = (Ok (outcome, answer), s', w')"
  shows "(answer = None \<longleftrightarrow> outcome = NeedsReopen req) \<and> (\<forall>r. outcome = NeedsReopen r \<longrightarrow> r = req)
    \<and> (is_enroll req \<longrightarrow> answer \<noteq> None)"
  using assms by (auto simp: handle_request_def Let_def split: prod.splits result.splits if_splits)

text \<open>A round sends exactly one reply, or asks for a retry of the same request and sends none.\<close>

lemma serve_step_cases:
  assumes "serve_step L port key retried req wk = (Ok again, wk')"
  obtains (no_device) err wk1 where "ensure_open L port key wk = (Ok (Some err), wk1)" "again = None"
      "wk' = respond_with_error req err wk1"
    | (answered) wk1 s r s' w' outcome where "ensure_open L port key wk = (Ok None, wk1)"
      "wk_sensor wk1 = Some s"
      "handle_request L req (s, wk_world wk1) = (Ok (outcome, Some r), s', w')" "again = None"
      "wk' = wk1\<lparr>wk_sensor := if outcome = Done then Some s' else None, wk_world := w',
        wk_replies := wk_replies wk1 @ [(req_done req, r)]\<rparr>"
      "outcome = Done \<or> outcome = DoneAfterFatal"
    | (twice) wk1 s s' w' where "ensure_open L port key wk = (Ok None, wk1)" "wk_sensor wk1 = Some s"
      "handle_request L req (s, wk_world wk1) = (Ok (NeedsReopen req, None), s', w')"
      "retried" "again = None" "\<not> is_enroll req"
      "wk' = respond_with_error req
        (Sensor_Io (Io_error NotConnected ''sensor failed twice in a row''))
        (wk1\<lparr>wk_sensor := None, wk_world := w'\<rparr>)"
    | (retry) wk1 s s' w' where "ensure_open L port key wk = (Ok None, wk1)" "wk_sensor wk1 = Some s"
      "handle_request L req (s, wk_world wk1) = (Ok (NeedsReopen req, None), s', w')"
      "\<not> retried" "again = Some req" "\<not> is_enroll req"
      "wk' = wk1\<lparr>wk_sensor := None, wk_world := w'\<rparr>"
proof -
  obtain oe wk1 where o: "ensure_open L port key wk = (Ok oe, wk1)"
    using assms by (auto simp: serve_step_def bind_io_def split: prod.splits result.splits)
  show ?thesis
  proof (cases oe)
    case (Some err)
    with assms o show ?thesis by (intro no_device) (auto simp: serve_step_def bind_io_def)
  next
    case None
    obtain s where s: "wk_sensor wk1 = Some s"
      using assms o None by (auto simp: serve_step_def bind_io_def split: option.splits)
    obtain rh s' w' where h: "handle_request L req (s, wk_world wk1) = (rh, s', w')"
      by (cases "handle_request L req (s, wk_world wk1)")
    obtain outcome answer where rh: "rh = Ok (outcome, answer)"
      using assms o None s h by (cases rh) (auto simp: serve_step_def bind_io_def)
    note out = handle_request_outcome [OF h [unfolded rh]]
    show ?thesis
    proof (cases outcome)
      case (NeedsReopen r)
      with out have "r = req" "answer = None" "\<not> is_enroll req" by auto
      with assms o None s h rh NeedsReopen show ?thesis
        by (cases retried) (auto simp: serve_step_def bind_io_def Let_def intro: twice retry)
    next
      case Done
      with out obtain r where "answer = Some r" by (cases answer) auto
      with assms o None s h rh Done show ?thesis
        by (intro answered [of wk1 s outcome r s' w'])
          (auto simp: serve_step_def bind_io_def send_reply_def)
    next
      case DoneAfterFatal
      with out obtain r where "answer = Some r" by (cases answer) auto
      with assms o None s h rh DoneAfterFatal show ?thesis
        by (intro answered [of wk1 s outcome r s' w'])
          (auto simp: serve_step_def bind_io_def send_reply_def)
    qed
  qed
qed

lemma serve_step_reply:
  assumes "serve_step L port key retried req wk = (Ok again, wk')"
  shows "(again = None \<longrightarrow> (\<exists>r. wk_replies wk' = wk_replies wk @ [(req_done req, r)]))
    \<and> (\<forall>r. again = Some r \<longrightarrow> r = req \<and> \<not> is_enroll req \<and> wk_replies wk' = wk_replies wk)"
  using assms
proof (cases rule: serve_step_cases)
  case (no_device err wk1)
  then show ?thesis
    using respond_replies [of req err wk1] ensure_open_replies [OF no_device(1)] by auto
next
  case (answered wk1 s r s' w' outcome)
  then show ?thesis using ensure_open_replies [OF answered(1)] by auto
next
  case (twice wk1 s s' w')
  then show ?thesis
    using respond_replies [of req _ "wk1\<lparr>wk_sensor := None, wk_world := w'\<rparr>"]
      ensure_open_replies [OF twice(1)] by auto
next
  case (retry wk1 s s' w')
  then show ?thesis using ensure_open_replies [OF retry(1)] by auto
qed

lemma serve_reply:
  assumes "serve L port key False req wk = (Ok u, wk')"
  shows "\<exists>r. wk_replies wk' = wk_replies wk @ [(req_done req, r)]"
  using serve_rounds [OF assms]
  by (elim disjE exE conjE) (auto dest!: serve_step_reply)

lemma serve_step_panic:
  assumes "serve_step L port key retried req wk = (x, wk')" "\<And>y. x \<noteq> Ok y"
  shows "wk_replies wk' = wk_replies wk"
proof -
  obtain r1 wk1 where o: "ensure_open L port key wk = (r1, wk1)" by (cases "ensure_open L port key wk")
  then show ?thesis
    using assms ensure_open_replies [OF o]
    by (auto simp: serve_step_def bind_io_def Let_def
        split: result.splits option.splits prod.splits handle_outcome.splits if_splits)
qed

lemma serve_panic:
  assumes "serve L port key False req wk = (x, wk')" "\<And>y. x \<noteq> Ok y"
  shows "wk_replies wk' = wk_replies wk"
  using serve_rounds [OF assms(1)] assms(2)
  by (elim disjE exE conjE) (auto dest!: serve_step_reply serve_step_panic)

lemma serve_all_replies:
  "serve_all L port key reqs wk = (r, wk') \<Longrightarrow>
     \<exists>rs n. wk_replies wk' = wk_replies wk @ rs \<and> map fst rs = take n (map req_done reqs)
       \<and> (is_ok r \<longrightarrow> n = length reqs)"
proof (induction reqs arbitrary: wk)
  case (Cons req reqs)
  obtain x wk1 where s: "serve L port key False req wk = (x, wk1)"
    by (cases "serve L port key False req wk")
  show ?case
  proof (cases x)
    case (Ok v)
    then have t: "serve_all L port key reqs wk1 = (r, wk')" using Cons.prems s by (simp add: bind_io_def)
    obtain q where "wk_replies wk1 = wk_replies wk @ [(req_done req, q)]"
      using serve_reply s Ok by blast
    moreover obtain rs n where "wk_replies wk' = wk_replies wk1 @ rs"
      "map fst rs = take n (map req_done reqs)" "is_ok r \<longrightarrow> n = length reqs"
      using Cons.IH [OF t] by blast
    ultimately show ?thesis
      by (intro exI [of _ "(req_done req, q) # rs"] exI [of _ "Suc n"]) simp
  next
    case (Err e)
    then have "wk' = wk1" "r = Err e" using Cons.prems s by (auto simp: bind_io_def)
    then show ?thesis using serve_panic [OF s] Err by (intro exI [of _ "[]"] exI [of _ 0]) simp
  next
    case Panic
    then have "wk' = wk1" "r = Panic" using Cons.prems s by (auto simp: bind_io_def)
    then show ?thesis using serve_panic [OF s] Panic by (intro exI [of _ "[]"] exI [of _ 0]) simp
  qed
qed (simp add: return_io_def)

lemma worker_run_serves:
  assumes "worker_run L port key reqs w = (r, wk)"
  shows "(wk_replies wk = [] \<and> \<not> is_ok r) \<or>
    (\<exists>s w2 r'. serve_all L port key reqs \<lparr>wk_sensor = Some s, wk_replies = [], wk_world = w2\<rparr> = (r', wk)
       \<and> is_ok r' = is_ok r)"
proof -
  obtain r1 w1 where o: "r503_open port SYNC_TIMEOUT w = (r1, w1)"
    by (cases "r503_open port SYNC_TIMEOUT w")
  show ?thesis
  proof (cases r1)
    case (Ok s)
    obtain r2 w2 where a: "apply_auth L key s w1 = (r2, w2)" by (cases "apply_auth L key s w1")
    show ?thesis
    proof (cases r2)
      case Ok': (Ok s')
      obtain r3 wk3 where t: "serve_all L port key reqs
          \<lparr>wk_sensor = Some s', wk_replies = [], wk_world = w2\<rparr> = (r3, wk3)"
        by (cases "serve_all L port key reqs \<lparr>wk_sensor = Some s', wk_replies = [], wk_world = w2\<rparr>")
      have "wk3 = wk \<and> is_ok r3 = is_ok r"
        using assms o Ok a Ok' t by (cases r3) (auto simp: worker_run_def)
      with t show ?thesis by blast
    qed (use assms o Ok a in \<open>auto simp: worker_run_def\<close>)
  qed (use assms o in \<open>auto simp: worker_run_def\<close>)
qed

text \<open>
  Claim C7. Every request gets exactly one reply, in the order of the requests, however often the
  device had to be reopened and a request retried in between: the replies answer an initial part of
  the queue one for one, and all of it unless the thread panicked or never opened the device.
\<close>

theorem one_reply_per_request:
  assumes "worker_run L port key reqs w = (r, wk)"
  shows "\<exists>n. map fst (wk_replies wk) = take n (map req_done reqs) \<and> (is_ok r \<longrightarrow> n = length reqs)"
  using worker_run_serves [OF assms]
proof (elim disjE exE conjE)
  assume "wk_replies wk = []" "\<not> is_ok r"
  then show ?thesis by (intro exI [of _ 0]) simp
next
  fix s w2 r'
  assume t: "serve_all L port key reqs \<lparr>wk_sensor = Some s, wk_replies = [], wk_world = w2\<rparr> = (r', wk)"
    and "is_ok r' = is_ok r"
  with serve_all_replies [OF t] show ?thesis by auto
qed

theorem one_reply_per_request_witness:
  "\<exists>r wk n. worker_run \<lparr>ct_eq = (=), state_json = demo_json\<rparr> None None [Wake_req 4, Verify_req None 9]
      (demo_world Map.empty) = (r, wk)
    \<and> map fst (wk_replies wk) = take n [4, 9] \<and> (is_ok r \<longrightarrow> n = 2)"
proof -
  obtain r wk where run: "worker_run \<lparr>ct_eq = (=), state_json = demo_json\<rparr> None None
      [Wake_req 4, Verify_req None 9] (demo_world Map.empty) = (r, wk)"
    by (cases "worker_run \<lparr>ct_eq = (=), state_json = demo_json\<rparr> None None
      [Wake_req 4, Verify_req None 9] (demo_world Map.empty)")
  from one_reply_per_request [OF run] run show ?thesis by auto
qed

text \<open>
  An enrolment is never restarted behind the user's back: it takes one round, and a fatal
  I/O error in it goes to the caller as it is, with the device marked for reopening.
\<close>

theorem enroll_not_retried:
  "serve L port key False (Enroll_req sl progress reply_to) wk =
     (case serve_step L port key False (Enroll_req sl progress reply_to) wk of
        (Ok _, wk') \<Rightarrow> (Ok (), wk')
      | (_, wk') \<Rightarrow> (Panic, wk'))"
proof -
  let ?req = "Enroll_req sl progress reply_to"
  obtain x wk1 where s: "serve_step L port key False ?req wk = (x, wk1)"
    by (cases "serve_step L port key False ?req wk")
  have "x \<noteq> Ok (Some r)" for r using serve_step_reply [of L port key False ?req wk "Some r" wk1] s by auto
  then show ?thesis
    using s by (cases x) (auto simp: serve.simps [of _ _ _ False] split: option.splits)
qed

section \<open>What the worker keeps\<close>

text \<open>A request keeps what the driver keeps.\<close>

context driver_steps
begin

lemma run_request_keeps: "triple P (run_request L req) (\<lambda>_. P) P"
  by (cases req) (auto simp: map_io_def intro!: keeps_bind methods_keep triple_return)

lemma handle_request_keeps:
  assumes callback: "\<And>s w f. P (s, w) \<Longrightarrow> P (s\<lparr>on_progress := f\<rparr>, w)"
    and "P (s, w)" "handle_request L req (s, w) = (r, s', w')"
  shows "P (s', w')"
proof -
  let ?s = "install_progress (req_progress req) (set_progress Trace_log s)"
  obtain r1 s1 w1 where r: "run_request L req (?s, w) = (r1, s1, w1)"
    by (cases "run_request L req (?s, w)")
  have "P (?s, w)"
    using assms(2) by (auto simp: install_progress_def set_progress_def callback split: option.splits)
  then have "P (s1, w1)"
    using run_request_keeps [of req] r
    unfolding keeps_triple [symmetric] keeps_def by (metis snd_conv)
  moreover have "s' = s1 \<and> w' = w1"
    using assms(3) r by (cases r1) (auto simp: handle_request_def Let_def split: if_splits)
  ultimately show ?thesis by simp
qed

end

text \<open>
  An invariant of the driver becomes one of the worker when it does not depend on the callback and
  when authentication establishes it for the new struct.
\<close>

locale worker_invariant = driver_invariant +
  assumes callback: "P (s, w) \<Longrightarrow> P (s\<lparr>on_progress := f\<rparr>, w)"
    and authenticated: "triple (\<lambda>w. P (s, w)) (apply_auth L key s) (\<lambda>s' w. P (s', w)) W"
begin

definition worker_ok :: "worker \<Rightarrow> bool" where
  "worker_ok wk \<longleftrightarrow> W (wk_world wk) \<and> (\<forall>s. wk_sensor wk = Some s \<longrightarrow> P (s, wk_world wk))"

lemma reopen_loop_keeps:
  "triple W (reopen_loop L port key attempts last_err)
     (\<lambda>x w. W w \<and> (\<forall>s. x = Inl s \<longrightarrow> P (s, w))) W"
proof (induction attempts arbitrary: last_err)
  case Nil
  then show ?case by (simp add: triple_return)
next
  case (Cons a rest)
  have sl: "triple W (if 0 < a then sleep (from_millis (reopen_delay a)) else return_io ()) (\<lambda>_. W) W"
    by (auto intro: keeps_sleep [OF world_stable] triple_return)
  have ap: "triple (\<lambda>w. P (s, w)) (bind_io (apply_auth L key s) (\<lambda>s'. return_io (Inl s')))
      (\<lambda>x w. W w \<and> (\<forall>s. x = Inl s \<longrightarrow> P (s, w))) W" for s
    by (rule triple_bind [OF authenticated]) (auto intro: triple_return world)
  show ?case
    unfolding reopen_loop.simps
    by (rule triple_bind [OF sl], rule triple_match [OF open_keeps ap Cons.IH])
qed

lemma ensure_open_keeps:
  assumes "worker_ok wk" "ensure_open L port key wk = (r, wk')"
  shows "worker_ok wk'"
proof (cases "wk_sensor wk")
  case None
  obtain r1 w1 where l: "reopen_loop L port key [0..<REOPEN_ATTEMPTS] None (wk_world wk) = (r1, w1)"
    by (cases "reopen_loop L port key [0..<REOPEN_ATTEMPTS] None (wk_world wk)")
  have W0: "W (wk_world wk)" using assms(1) by (simp add: worker_ok_def)
  have "post (\<lambda>x w. W w \<and> (\<forall>s. x = Inl s \<longrightarrow> P (s, w))) W r1 w1"
    by (rule tripleD [OF reopen_loop_keeps W0 l])
  with assms(2) l None show ?thesis
    by (cases r1) (auto simp: ensure_open_def worker_ok_def split: sum.splits)
qed (use assms in \<open>simp add: ensure_open_def\<close>)

lemma serve_step_keeps:
  assumes "worker_ok wk" "serve_step L port key retried req wk = (r, wk')"
  shows "worker_ok wk'"
proof -
  obtain r1 wk1 where o: "ensure_open L port key wk = (r1, wk1)" by (cases "ensure_open L port key wk")
  have ok1: "worker_ok wk1" by (rule ensure_open_keeps [OF assms(1) o])
  have resp: "worker_ok (respond_with_error q e v) = worker_ok v" for q e v
    by (simp add: worker_ok_def respond_with_error_def Let_def)
  show ?thesis
  proof (cases "r1 = Ok None \<and> wk_sensor wk1 \<noteq> None")
    case True
    then obtain s where r1: "r1 = Ok None" and s: "wk_sensor wk1 = Some s" by auto
    obtain rh s' w' where h: "handle_request L req (s, wk_world wk1) = (rh, s', w')"
      by (cases "handle_request L req (s, wk_world wk1)")
    have p: "P (s', w')"
      using handle_request_keeps [OF callback _ h] ok1 s by (simp add: worker_ok_def)
    have wk': "wk_world wk' = w' \<and> (wk_sensor wk' = Some s' \<or> wk_sensor wk' = None)"
      using assms(2) o r1 s h
      by (auto simp: serve_step_def bind_io_def send_reply_def respond_with_error_def Let_def
          split: result.splits handle_outcome.splits option.splits if_splits)
    with p world [OF p] show ?thesis by (auto simp: worker_ok_def)
  next
    case False
    with assms(2) o ok1 resp show ?thesis
      by (auto simp: serve_step_def bind_io_def split: result.splits option.splits)
  qed
qed

lemma serve_keeps:
  assumes "worker_ok wk" "serve L port key False req wk = (r, wk')"
  shows "worker_ok wk'"
  using serve_rounds [OF assms(2)] serve_step_keeps assms(1) by metis

lemma serve_all_keeps:
  "worker_ok wk \<Longrightarrow> serve_all L port key reqs wk = (r, wk') \<Longrightarrow> worker_ok wk'"
proof (induction reqs arbitrary: wk)
  case (Cons req reqs)
  obtain r1 wk1 where s: "serve L port key False req wk = (r1, wk1)"
    by (cases "serve L port key False req wk")
  have "worker_ok wk1" by (rule serve_keeps [OF Cons.prems(1) s])
  with Cons s show ?case by (cases r1) (auto simp: bind_io_def)
qed (simp add: return_io_def)

lemma worker_run_keeps:
  assumes "W w" "worker_run L port key reqs w = (r, wk)"
  shows "W (wk_world wk)"
proof -
  obtain r1 w1 where o: "r503_open port SYNC_TIMEOUT w = (r1, w1)"
    by (cases "r503_open port SYNC_TIMEOUT w")
  have p1: "post (\<lambda>s w. P (s, w)) W r1 w1" by (rule tripleD [OF open_keeps assms(1) o])
  show ?thesis
  proof (cases r1)
    case (Ok s)
    obtain r2 w2 where a: "apply_auth L key s w1 = (r2, w2)" by (cases "apply_auth L key s w1")
    have "P (s, w1)" using p1 Ok by simp
    then have p2: "post (\<lambda>s' w. P (s', w)) W r2 w2" by (rule tripleD [OF authenticated _ a])
    show ?thesis
    proof (cases r2)
      case Ok': (Ok s')
      obtain r3 wk3 where t: "serve_all L port key reqs
          \<lparr>wk_sensor = Some s', wk_replies = [], wk_world = w2\<rparr> = (r3, wk3)"
        by (cases "serve_all L port key reqs \<lparr>wk_sensor = Some s', wk_replies = [], wk_world = w2\<rparr>")
      have "worker_ok wk3"
        by (rule serve_all_keeps [OF _ t]) (use p2 Ok' world in \<open>auto simp: worker_ok_def\<close>)
      moreover have "wk = wk3" using assms(2) o Ok a Ok' t by (cases r3) (simp_all add: worker_run_def)
      ultimately show ?thesis by (simp add: worker_ok_def)
    qed (use assms(2) o Ok a p2 in \<open>auto simp: worker_run_def\<close>)
  qed (use assms(2) o p1 in \<open>auto simp: worker_run_def\<close>)
qed

end

section \<open>The counters across reopening and restarting\<close>

lemma node_data_not_Panic: "node_data nd \<noteq> Panic"
  by (cases nd) simp_all

lemma world_inv_dir: "world_inv L w \<Longrightarrow> state_dir_ok w"
  by (auto simp: world_inv_def state_dir_ok_def st_pred_def counters_ok_def file_secure_def mode_600_def)

text \<open>What a restart reads is above every counter that was sent.\<close>

lemma loaded_counter:
  assumes "world_inv L w" "no_faults (w_env w)" "c \<in> set (frame_counters (w_wire w))"
  shows "\<exists>st. fst (state_load (state_json L) w) = Ok (Some st) \<and> c < next_cmd_counter st"
proof -
  have st: "st_pred file_secure (counters_ok L None) w" using assms(1) by (simp add: world_inv_def)
  then have ok: "counters_ok L None (w_fs w STATE_PATH) (w_wire w)" by (simp add: st_pred_def)
  then obtain d where d: "node_counter (state_json L) (w_fs w STATE_PATH) = Some d" "c < d"
    and sec: "file_secure (w_fs w STATE_PATH)"
    using assms(3) by (auto simp: counters_ok_def)
  then obtain bs where m: "mode_600 bs (w_fs w STATE_PATH)"
    by (auto simp: file_secure_def node_counter_def)
  have "state_dir_ok w" using st sec by (auto simp: state_dir_ok_def st_pred_def file_secure_def mode_600_def)
  from state_load_quiet [OF this assms(2)] m d show ?thesis
    by (auto simp: mode_600_def node_counter_def split: option.splits)
qed

definition steady :: "libs \<Rightarrow> r503 \<times> world \<Rightarrow> bool" where
  "steady L = (\<lambda>(s, w). json_law (state_json L) \<and> counter_inv L (s, w) \<and> no_faults (w_env w))"

definition steady_world :: "libs \<Rightarrow> world \<Rightarrow> bool" where
  "steady_world L w \<longleftrightarrow> json_law (state_json L) \<and> world_inv L w \<and> no_faults (w_env w)"

lemma counter_inv_set_auth:
  assumes "world_inv L w" "\<And>c. c \<in> set (frame_counters (w_wire w)) \<Longrightarrow> c < n"
  shows "counter_inv L (set_auth k n s, w)"
  using assms by (auto simp: world_inv_def counter_inv_def st_pred_def counters_ok_def next_counter_def set_auth_def)

lemma apply_auth_steady:
  assumes "steady L (s, w)" "apply_auth L key s w = (r, w')"
  shows "\<exists>s'. r = Ok s' \<and> steady L (s', w')"
proof (cases key)
  case None
  with assms show ?thesis by (auto simp: apply_auth_def return_io_def)
next
  case (Some k)
  obtain rl w1 where l: "state_load (state_json L) w = (rl, w1)" by (cases "state_load (state_json L) w")
  have inv: "world_inv L w" "no_faults (w_env w)" "json_law (state_json L)"
    using assms(1) counter_inv_world by (auto simp: steady_def)
  have "stable (\<lambda>v. world_inv L v \<and> no_faults (w_env v) \<and> w_wire v = w_wire w)"
    by (auto simp: stable_def world_inv_def st_pred_def private_env_def step_world_def)
  from state_load_keeps [OF this] inv(1,2) l
  have after: "world_inv L w1 \<and> no_faults (w_env w1) \<and> w_wire w1 = w_wire w"
    unfolding keeps_triple [symmetric] keeps_def by (metis snd_conv)
  have below: "c \<in> set (frame_counters (w_wire w1)) \<Longrightarrow> \<exists>st. rl = Ok (Some st) \<and> c < next_cmd_counter st" for c
    using loaded_counter [OF inv(1,2)] l after by (metis fst_conv)
  have "fst (state_load (state_json L) w) \<noteq> Panic"
    using node_data_not_Panic
    by (auto simp: state_load_quiet [OF world_inv_dir [OF inv(1)] inv(2)]
        split: option.splits result.splits)
  then have np: "rl \<noteq> Panic" by (simp add: l)
  define n where "n = (case rl of Ok (Some st) \<Rightarrow> next_cmd_counter st | _ \<Rightarrow> next_cmd_counter state_fresh)"
  have "r = Ok (set_auth k n s) \<and> w' = w1"
    using assms(2) Some l np
    by (auto simp: apply_auth_def ok_io_def match_io_def bind_io_def return_io_def n_def
        split: result.splits option.splits)
  moreover have "counter_inv L (set_auth k n s, w1)"
  proof (rule counter_inv_set_auth)
    show "world_inv L w1" using after by blast
    show "c < n" if "c \<in> set (frame_counters (w_wire w1))" for c
      using below [OF that] by (auto simp: n_def)
  qed
  ultimately show ?thesis using after inv(3) by (auto simp: steady_def)
qed

lemma counter_inv_callback: "counter_inv L (s\<lparr>on_progress := f\<rparr>, w) = counter_inv L (s, w)"
  by (simp add: counter_inv_def next_counter_def)

interpretation workers: worker_invariant L "steady L" "steady_world L" for L
proof
  show "rx_free (steady L)"
    using counters.free [of L] environment.free [of no_faults]
    by (auto simp: rx_free_def stable_def steady_def)
  show "stable (steady_world L)"
    using counters.world_stable [of L] by (auto simp: stable_def steady_world_def)
  show "triple (steady L) (on_port (port_write_all bs)) (\<lambda>_. steady L) (steady L)"
    if "frame_counter bs = None" for bs
    using counters.quiet_write [OF that, of L] environment.quiet_write [OF that, of no_faults]
    unfolding keeps_triple [symmetric] keeps_def steady_def by (auto simp: split_beta)
  show "triple (steady L) (execute_framed L cmd t) (\<lambda>_. steady L) (steady L)"
    if "utf8_valid cmd" for cmd t
    using counters.framed [OF that, of L t] environment.framed [OF that, of no_faults L t]
    unfolding keeps_triple [symmetric] keeps_def steady_def by (auto simp: split_beta)
  show "triple (\<lambda>w. steady L (s, w)) (apply_auth L key s) (\<lambda>s' w. steady L (s', w)) (steady_world L)"
    for s key
  proof (rule tripleI)
    fix w assume "steady L (s, w)"
    then obtain s' where "fst (apply_auth L key s w) = Ok s'" "steady L (s', snd (apply_auth L key s w))"
      using apply_auth_steady by (metis prod.collapse)
    then show "post (\<lambda>s' w. steady L (s', w)) (steady_world L) (fst (apply_auth L key s w))
        (snd (apply_auth L key s w))" by simp
  qed
qed (auto simp: steady_def steady_world_def counter_inv_callback
    dest: counter_inv_world intro: counter_inv_fresh)


lemma demo_world_inv: "world_inv demo_libs (demo_world Map.empty)"
  using counter_inv_world [OF demo_counter_inv] .


text \<open>
  Authentication after opening does not report a state file it cannot read: whatever error
  \<open>load\<close> returns (a wrong mode, contents that do not parse, a failed call), the struct starts again
  at counter 1, although the file may hold a higher one; the next command then overwrites it.
\<close>

theorem unreadable_state_resets_counter:
  assumes "state_load (state_json L) w = (Err e, w')"
  shows "apply_auth L (Some k) s w = (Ok (set_auth k 1 s), w')"
  using assms
  by (simp add: apply_auth_def ok_io_def match_io_def bind_io_def return_io_def state_fresh_def)

theorem unreadable_state_resets_counter_witness:
  "\<exists>w'. apply_auth demo_libs (Some (replicate 16 7)) (fresh_r503 ''/dev/r503'')
       (demo_world (Map.empty(STATE_PATH \<mapsto> File (u64_to_le_bytes 42) 420 0)))
     = (Ok (set_auth (replicate 16 7) 1 (fresh_r503 ''/dev/r503'')), w')
   \<and> disk_counter demo_json (demo_world (Map.empty(STATE_PATH \<mapsto> File (u64_to_le_bytes 42) 420 0)))
     = Some 42"
proof -
  let ?w = "demo_world (Map.empty(STATE_PATH \<mapsto> File (u64_to_le_bytes 42) 420 0))"
  have ok: "state_dir_ok ?w"
    using demo_private by (simp add: state_dir_ok_def st_pred_def demo_world_def file_secure_def)
  have nf: "no_faults (w_env ?w)" using demo_no_faults by (simp add: demo_world_def)
  have m: "(420 :: u32) AND o777 \<noteq> o600" by code_simp
  obtain rl w' where l: "state_load demo_json ?w = (rl, w')" by (cases "state_load demo_json ?w")
  then have "rl = Err (Msg ''insecure mode'')"
    using m state_load_quiet [OF ok nf, of demo_json] by (simp add: demo_world_def)
  then have "apply_auth demo_libs (Some (replicate 16 7)) (fresh_r503 ''/dev/r503'') ?w
      = (Ok (set_auth (replicate 16 7) 1 (fresh_r503 ''/dev/r503'')), w')"
    using unreadable_state_resets_counter [of demo_libs ?w "Msg ''insecure mode''" w'] l
    by (simp add: demo_libs_def)
  moreover have "disk_counter demo_json ?w = Some 42"
    by (simp add: disk_counter_def node_counter_def demo_world_def demo_json_def)
  ultimately show ?thesis by blast
qed

end
