(* ===== verification/Storage.thy ===== *)
theory Storage
  imports State_File "HOL-Library.Finite_Map" "HOL-Library.List_Lexorder" "HOL-Library.Char_ord"
begin

text \<open>
  \<open>storage.rs\<close>: the registry of enrolled fingers, user name to finger name to slot of the sensor's
  flash. A \<open>HashMap\<close> is a finite map; a \<open>Storage\<close> handle is the object its methods share (one
  \<open>RwLock\<close> around it), so a method is a step on the object and the world. The JSON codec is the
  parameter of \<open>State_File\<close>, here for the type of the registry.

  The operations on the map itself (\<open>users_get\<close>, \<open>users_put\<close>, \<open>users_drop\<close>, \<open>lowest_free\<close>) implement
  the locale \<open>slot_registry\<close>: a partial map from user and finger to a slot with an allocator. The
  lemma of that interface is that a registry in which no slot serves two fingers stays one.
\<close>

section \<open>The interface: a registry of slots\<close>

locale slot_registry =
  fixes look :: "'s \<Rightarrow> str \<Rightarrow> str \<Rightarrow> u8 option"
    and put :: "str \<Rightarrow> str \<Rightarrow> u8 \<Rightarrow> 's \<Rightarrow> 's"
    and remove :: "str \<Rightarrow> str \<Rightarrow> 's \<Rightarrow> 's"
    and free :: "'s \<Rightarrow> u8 option"
  assumes look_put:
      "look (put u f k s) u' f' = (if u' = u \<and> f' = f then Some k else look s u' f')"
    and look_remove:
      "look (remove u f s) u' f' = (if u' = u \<and> f' = f then None else look s u' f')"
    and free_unused: "free s = Some k \<Longrightarrow> look s u f \<noteq> Some k"
begin

text \<open>No slot serves two fingers; a slot serves no finger but possibly this one.\<close>

definition unique :: "'s \<Rightarrow> bool" where
  "unique s \<longleftrightarrow> (\<forall>u f u' f' k. look s u f = Some k \<longrightarrow> look s u' f' = Some k \<longrightarrow> u = u' \<and> f = f')"

definition reserved :: "str \<Rightarrow> str \<Rightarrow> u8 \<Rightarrow> 's \<Rightarrow> bool" where
  "reserved u f k s \<longleftrightarrow> (\<forall>u' f'. look s u' f' = Some k \<longrightarrow> u' = u \<and> f' = f)"

lemma unique_put: "unique s \<Longrightarrow> reserved u f k s \<Longrightarrow> unique (put u f k s)"
  by (fastforce simp: unique_def reserved_def look_put split: if_splits)

lemma unique_remove: "unique s \<Longrightarrow> unique (remove u f s)"
  by (fastforce simp: unique_def look_remove split: if_splits)

lemma reserved_put: "reserved u f k s \<Longrightarrow> reserved u f k (put u f k s)"
  by (auto simp: reserved_def look_put)

lemma reserved_remove: "reserved u f k s \<Longrightarrow> reserved u f k (remove u' f' s)"
  by (auto simp: reserved_def look_remove)

lemma reserved_free: "free s = Some k \<Longrightarrow> reserved u f k s"
  using free_unused by (auto simp: reserved_def)

lemma reserved_own: "unique s \<Longrightarrow> look s u f = Some k \<Longrightarrow> reserved u f k s"
  by (auto simp: unique_def reserved_def)

text \<open>Enrolling: the finger's own slot when it has one, a free one otherwise.\<close>

lemma reserved_enroll:
  "unique s \<Longrightarrow> (case look s u f of Some k' \<Rightarrow> k = k' | None \<Rightarrow> free s = Some k) \<Longrightarrow> reserved u f k s"
  by (auto simp: reserved_free reserved_own split: option.splits)

end

section \<open>The registry\<close>

type_synonym users = "(str, (str, u8) fmap) fmap"

record storage =
  sg_path :: str
  sg_capacity :: u16
  sg_users :: users

datatype storage_error =
    Storage_Io io_error | Storage_Parse | NoFreeSlot u16 | InsecureMode str u32

definition users_get :: "users \<Rightarrow> str \<Rightarrow> str \<Rightarrow> u8 option" where
  "users_get us u f = Option.bind (fmlookup us u) (\<lambda>m. fmlookup m f)"

text \<open>\<open>unwrap_or_default\<close> on an optional map.\<close>

definition fingers_of :: "users \<Rightarrow> str \<Rightarrow> (str, u8) fmap" where
  "fingers_of us u = (case fmlookup us u of Some m \<Rightarrow> m | None \<Rightarrow> fmempty)"

definition users_put :: "str \<Rightarrow> str \<Rightarrow> u8 \<Rightarrow> users \<Rightarrow> users" where
  "users_put u f k us = fmupd u (fmupd f k (fingers_of us u)) us"

definition users_drop :: "str \<Rightarrow> str \<Rightarrow> users \<Rightarrow> users" where
  "users_drop u f us =
     (case fmlookup us u of
        None \<Rightarrow> us
      | Some m \<Rightarrow>
          let m' = fmdrop f m
          in if fmdom m' = {||} then fmdrop u us else fmupd u m' us)"

definition used_slots :: "users \<Rightarrow> u8 fset" where
  "used_slots us = ffUnion (fmran |`| fmran us)"

text \<open>The candidates are \<open>0..min(capacity, 256)\<close>, in this order.\<close>

definition lowest_free :: "u16 \<Rightarrow> users \<Rightarrow> u8 option" where
  "lowest_free cap us =
     find (\<lambda>k. k |\<notin>| used_slots us) (map of_nat [0..<unat (min cap 256)])"

section \<open>Paths\<close>

text \<open>
  \<open>Path::parent\<close> and \<open>Path::with_extension\<close>, for paths that do not end in a separator and whose last
  component is a plain name (the program is given the path of a file).
\<close>

definition path_name :: "str \<Rightarrow> str" where
  "path_name p = rev (takeWhile (\<lambda>c. c \<noteq> CHR ''/'') (rev p))"

definition path_prefix :: "str \<Rightarrow> str" where
  "path_prefix p = rev (dropWhile (\<lambda>c. c \<noteq> CHR ''/'') (rev p))"

definition path_parent :: "str \<Rightarrow> str option" where
  "path_parent p =
     (if p = [] then None
      else if path_prefix p = [] then Some []
      else let d = rev (dropWhile (\<lambda>c. c = CHR ''/'') (rev (path_prefix p)))
           in Some (if d = [] then ''/'' else d))"

definition file_stem :: "str \<Rightarrow> str" where
  "file_stem name =
     (let r = dropWhile (\<lambda>c. c \<noteq> CHR ''.'') (rev name)
      in if length r \<le> 1 then name else rev (tl r))"

definition with_extension :: "str \<Rightarrow> str \<Rightarrow> str" where
  "with_extension p ext = path_prefix p @ file_stem (path_name p) @ ''.'' @ ext"

section \<open>The methods\<close>

type_synonym 'a storage_io = "(storage \<times> world, 'a, storage_error) io"

text \<open>The closure that runs on a blocking thread, and the method that starts it.\<close>

definition save_blocking :: "str \<Rightarrow> str \<Rightarrow> u8 list \<Rightarrow> (world, unit, storage_error) io" where
  "save_blocking path tmp bytes =
     bind_io (map_err_io Storage_Io (fs_open_truncate tmp o600)) (\<lambda>f.
     bind_io (map_err_io Storage_Io (fs_write_all f bytes)) (\<lambda>f.
     bind_io (map_err_io Storage_Io (fs_sync_all f)) (\<lambda>_.
     map_err_io Storage_Io (fs_rename tmp path))))"

definition storage_save :: "users json \<Rightarrow> unit storage_io" where
  "storage_save J =
     bind_io (get_io (\<lambda>(st, w). (sg_users st, sg_path st))) (\<lambda>(data, path).
     bind_io (result_io (ok_or (to_vec_pretty J data) Storage_Parse)) (\<lambda>bytes.
     on_world (save_blocking path (with_extension path ''json.tmp'') bytes)))"

definition storage_load :: "users json \<Rightarrow> str \<Rightarrow> (world, users, storage_error) io" where
  "storage_load J path =
     bind_io (fs_exists path) (\<lambda>there.
       if there
       then bind_io (map_err_io Storage_Io (fs_metadata path)) (\<lambda>nd.
         let mode = node_mode nd AND o777
         in if mode \<noteq> o600 then fail_io (InsecureMode path mode)
            else bind_io (map_err_io Storage_Io (fs_read path)) (\<lambda>raw.
              result_io (ok_or (from_slice J raw) Storage_Parse)))
       else return_io fmempty)"

definition storage_open :: "users json \<Rightarrow> str \<Rightarrow> u16 \<Rightarrow> (world, storage, storage_error) io" where
  "storage_open J path capacity =
     bind_io (case path_parent path of
         Some d \<Rightarrow> if d = [] then return_io () else map_err_io Storage_Io (fs_create_dir_all d)
       | None \<Rightarrow> return_io ()) (\<lambda>_.
     bind_io (storage_load J path) (\<lambda>data.
     let st = \<lparr>sg_path = path, sg_capacity = capacity, sg_users = data\<rparr>
     in (\<lambda>w. case storage_save J (st, w) of
            (Ok _, st', w') \<Rightarrow> (Ok st', w')
          | (Err e, st', w') \<Rightarrow> (Err e, w')
          | (Panic, st', w') \<Rightarrow> (Panic, w'))))"

definition list_fingers :: "str \<Rightarrow> storage \<Rightarrow> str list" where
  "list_fingers u st = sorted_list_of_fset (fmdom (fingers_of (sg_users st) u))"

definition get_slot :: "str \<Rightarrow> str \<Rightarrow> storage \<Rightarrow> u8 option" where
  "get_slot u f st = users_get (sg_users st) u f"

definition get_user_slots :: "str \<Rightarrow> storage \<Rightarrow> (str, u8) fmap" where
  "get_user_slots u st = fingers_of (sg_users st) u"

definition allocate_slot :: "storage \<Rightarrow> (u8, storage_error) result" where
  "allocate_slot st = ok_or (lowest_free (sg_capacity st) (sg_users st)) (NoFreeSlot (sg_capacity st))"

definition set_slot :: "users json \<Rightarrow> str \<Rightarrow> str \<Rightarrow> u8 \<Rightarrow> unit storage_io" where
  "set_slot J u f k =
     bind_io (modify_io (\<lambda>(st, w). (st\<lparr>sg_users := users_put u f k (sg_users st)\<rparr>, w)))
       (\<lambda>_. storage_save J)"

definition remove_finger :: "users json \<Rightarrow> str \<Rightarrow> str \<Rightarrow> u8 option storage_io" where
  "remove_finger J u f =
     bind_io (get_io (\<lambda>(st, w). get_slot u f st)) (\<lambda>removed.
     bind_io (modify_io (\<lambda>(st, w). (st\<lparr>sg_users := users_drop u f (sg_users st)\<rparr>, w))) (\<lambda>_.
     bind_io (storage_save J) (\<lambda>_. return_io removed)))"

section \<open>The registry implements the interface\<close>

lemma users_get_put:
  "users_get (users_put u f k us) u' f' = (if u' = u \<and> f' = f then Some k else users_get us u' f')"
  by (auto simp: users_get_def users_put_def fingers_of_def split: option.splits)

lemma users_get_drop:
  "users_get (users_drop u f us) u' f' = (if u' = u \<and> f' = f then None else users_get us u' f')"
proof (cases "fmlookup us u")
  case None
  then show ?thesis by (auto simp: users_get_def users_drop_def)
next
  case (Some m)
  have "fmlookup m f' = None" if "f' \<noteq> f" "fmdom (fmdrop f m) = {||}"
  proof -
    have "f' |\<notin>| fmdom (fmdrop f m)" by (simp only: that(2)) simp
    then have "fmlookup (fmdrop f m) f' = None" by (rule fmdom_notD)
    with that show ?thesis by simp
  qed
  with Some show ?thesis
    by (auto simp: users_get_def users_drop_def Let_def)
qed

lemma ffUnion_iff: "x |\<in>| ffUnion A \<longleftrightarrow> (\<exists>S. S |\<in>| A \<and> x |\<in>| S)"
  by (induction A) auto

lemma used_slots_iff: "k |\<in>| used_slots us \<longleftrightarrow> (\<exists>u f. users_get us u f = Some k)"
  unfolding used_slots_def users_get_def
  by (auto simp: fmlookup_ran_iff ffUnion_iff bind_eq_Some_conv) (blast intro: fmranI)+

lemma find_first: "find P xs = Some x \<Longrightarrow> x \<in> set xs \<and> P x"
  by (auto simp: find_Some_iff)

lemma lowest_free_unused: "lowest_free cap us = Some k \<Longrightarrow> users_get us u f \<noteq> Some k"
  using find_first [of "\<lambda>k. k |\<notin>| used_slots us"] by (auto simp: lowest_free_def used_slots_iff)

interpretation registry: slot_registry users_get users_put users_drop "lowest_free cap" for cap
  by unfold_locales (simp_all add: users_get_put users_get_drop lowest_free_unused)

section \<open>What the methods do to the registry\<close>

text \<open>\<open>save\<close> leaves the object alone; the other two change it before they save.\<close>

lemma storage_save_object: "fst (snd (storage_save J (st, w))) = st"
  by (simp add: storage_save_def bind_io_def get_io_def result_io_def on_world_def Let_def
      split: result.splits prod.splits)

lemma storage_save_split: "storage_save J (st, w) = (r, st', w') \<Longrightarrow> st' = st"
  using storage_save_object [of J st w] by simp

lemma set_slot_eq:
  "set_slot J u f k (st, w) = storage_save J (st\<lparr>sg_users := users_put u f k (sg_users st)\<rparr>, w)"
  by (simp add: set_slot_def bind_io_def modify_io_def split: prod.split)

lemma remove_finger_eq:
  "remove_finger J u f (st, w) =
     (case storage_save J (st\<lparr>sg_users := users_drop u f (sg_users st)\<rparr>, w) of
        (Ok _, s) \<Rightarrow> (Ok (get_slot u f st), s)
      | (Err e, s) \<Rightarrow> (Err e, s)
      | (Panic, s) \<Rightarrow> (Panic, s))"
  by (simp add: remove_finger_def bind_io_def modify_io_def get_io_def return_io_def
      split: prod.split result.split)

lemma set_slot_users:
  "set_slot J u f k (st, w) = (r, st', w') \<Longrightarrow> sg_users st' = users_put u f k (sg_users st)"
  by (auto simp: set_slot_eq dest: storage_save_split)

lemma remove_finger_users:
  "remove_finger J u f (st, w) = (r, st', w') \<Longrightarrow> sg_users st' = users_drop u f (sg_users st)"
  by (auto simp: remove_finger_eq dest: storage_save_split split: prod.splits result.splits)

definition slot_map :: "storage \<Rightarrow> str \<times> str \<Rightarrow> u8 option" where
  "slot_map st = (\<lambda>(u, f). get_slot u f st)"

text \<open>
  Claim C28. The registry is a map from (user, finger) to a slot: \<open>set_slot\<close> updates one entry,
  \<open>remove_finger\<close> deletes one and reports what was there, and nothing else changes. This holds of the
  object in memory also when the write to disk fails, as both change it first.
\<close>

theorem registry_refines_map:
  "(let (r, st', w') = set_slot J u f k (st, w) in slot_map st' = (slot_map st)((u, f) \<mapsto> k))
    \<and> (let (r, st', w') = remove_finger J u f (st, w)
        in slot_map st' = (slot_map st)((u, f) := None)
           \<and> (case r of Ok removed \<Rightarrow> removed = slot_map st (u, f) | _ \<Rightarrow> True))"
proof
  obtain r st' w' where s: "set_slot J u f k (st, w) = (r, st', w')" by (cases "set_slot J u f k (st, w)") auto
  show "let (r, st', w') = set_slot J u f k (st, w) in slot_map st' = (slot_map st)((u, f) \<mapsto> k)"
    using set_slot_users [OF s] by (auto simp: s slot_map_def get_slot_def users_get_put fun_eq_iff)
next
  obtain r st' w' where s: "remove_finger J u f (st, w) = (r, st', w')"
    by (cases "remove_finger J u f (st, w)") auto
  have "case r of Ok removed \<Rightarrow> removed = get_slot u f st | _ \<Rightarrow> True"
    using s by (auto simp: remove_finger_eq split: prod.splits result.splits)
  with remove_finger_users [OF s]
  show "let (r, st', w') = remove_finger J u f (st, w)
        in slot_map st' = (slot_map st)((u, f) := None)
           \<and> (case r of Ok removed \<Rightarrow> removed = slot_map st (u, f) | _ \<Rightarrow> True)"
    by (auto simp: s slot_map_def get_slot_def users_get_drop fun_eq_iff split: result.splits)
qed

section \<open>Allocation\<close>

lemma find_map_upt:
  "find P (map g [0..<n]) = Some x \<longleftrightarrow> (\<exists>i<n. x = g i \<and> P (g i) \<and> (\<forall>j<i. \<not> P (g j)))"
  by (auto simp: find_Some_iff)

lemma find_map_upt_None: "find P (map g [0..<n]) = None \<longleftrightarrow> (\<forall>i<n. \<not> P (g i))"
  by (auto simp: find_None_iff)

lemma candidate_count: "unat (min cap 256 :: u16) = min (unat cap) 256"
  by (simp add: min_def word_le_nat_alt)

lemma candidate_less: "i < unat (min cap 256 :: u16) \<Longrightarrow> i < 256"
  by (simp add: candidate_count)

lemma lowest_free_Some:
  "lowest_free cap us = Some k \<longleftrightarrow>
     unat k < unat cap \<and> (\<forall>u f. users_get us u f \<noteq> Some k)
     \<and> (\<forall>j. unat j < unat k \<longrightarrow> (\<exists>u f. users_get us u f = Some j))"
proof
  assume "lowest_free cap us = Some k"
  then obtain i where i: "i < unat (min cap 256)" "k = of_nat i" "of_nat i |\<notin>| used_slots us"
      "\<forall>j<i. of_nat j |\<in>| used_slots us"
    unfolding lowest_free_def find_map_upt by auto
  have u: "unat k = i" using i(2) candidate_less [OF i(1)] by (simp add: unat_of_nat_u8)
  have "j |\<in>| used_slots us" if "unat j < unat k" for j :: u8
  proof -
    have "of_nat (unat j) |\<in>| used_slots us" using i(4) that u by blast
    then show ?thesis by simp
  qed
  with i u show "unat k < unat cap \<and> (\<forall>u f. users_get us u f \<noteq> Some k)
     \<and> (\<forall>j. unat j < unat k \<longrightarrow> (\<exists>u f. users_get us u f = Some j))"
    by (auto simp: used_slots_iff candidate_count)
next
  assume a: "unat k < unat cap \<and> (\<forall>u f. users_get us u f \<noteq> Some k)
     \<and> (\<forall>j. unat j < unat k \<longrightarrow> (\<exists>u f. users_get us u f = Some j))"
  have "of_nat j |\<in>| used_slots us" if "j < unat k" for j
  proof -
    have "j < 256" using that unat_lt_2p8 [of k] by simp
    then have "unat (of_nat j :: u8) < unat k" using that by (simp add: unat_of_nat_u8)
    with a show ?thesis by (auto simp: used_slots_iff)
  qed
  with a show "lowest_free cap us = Some k"
    unfolding lowest_free_def find_map_upt
    by (intro exI [of _ "unat k"]) (use unat_lt_2p8 [of k] in \<open>auto simp: used_slots_iff candidate_count\<close>)
qed

lemma lowest_free_None:
  "lowest_free cap us = None \<longleftrightarrow> (\<forall>j. unat j < unat cap \<longrightarrow> (\<exists>u f. users_get us u f = Some j))"
proof -
  have "(\<forall>i<unat (min cap 256). of_nat i |\<in>| used_slots us)
      \<longleftrightarrow> (\<forall>j. unat j < unat cap \<longrightarrow> j |\<in>| used_slots us)"
  proof
    assume a: "\<forall>i<unat (min cap 256). of_nat i |\<in>| used_slots us"
    show "\<forall>j. unat j < unat cap \<longrightarrow> j |\<in>| used_slots us"
    proof (intro allI impI)
      fix j :: u8 assume "unat j < unat cap"
      then have "unat j < unat (min cap 256)" using unat_lt_2p8 [of j] by (simp add: candidate_count)
      with a have "of_nat (unat j) |\<in>| used_slots us" by blast
      then show "j |\<in>| used_slots us" by simp
    qed
  next
    assume a: "\<forall>j. unat j < unat cap \<longrightarrow> j |\<in>| used_slots us"
    show "\<forall>i<unat (min cap 256). of_nat i |\<in>| used_slots us"
    proof (intro allI impI)
      fix i assume i: "i < unat (min cap 256)"
      then have "unat (of_nat i :: u8) = i" using candidate_less by (simp add: unat_of_nat_u8)
      with a i show "of_nat i |\<in>| used_slots us" by (simp add: candidate_count)
    qed
  qed
  then show ?thesis by (simp add: lowest_free_def find_map_upt_None used_slots_iff)
qed

text \<open>
  Allocation: a slot is handed out exactly when it is below the sensor's capacity, no
  finger has it and every lower slot is taken; and it is refused exactly when every slot below the
  capacity is taken. Slots are bytes, so at most 256 of them are ever used.
\<close>

theorem allocate_slot_lowest:
  "(allocate_slot st = Ok k \<longleftrightarrow>
      unat k < unat (sg_capacity st) \<and> (\<forall>u f. get_slot u f st \<noteq> Some k)
      \<and> (\<forall>j. unat j < unat k \<longrightarrow> (\<exists>u f. get_slot u f st = Some j)))
    \<and> (allocate_slot st = Err (NoFreeSlot (sg_capacity st)) \<longleftrightarrow>
      (\<forall>j. unat j < unat (sg_capacity st) \<longrightarrow> (\<exists>u f. get_slot u f st = Some j)))"
  by (simp add: allocate_slot_def get_slot_def result_simps lowest_free_Some lowest_free_None)

end
