(* ===== verification/Storage_File.thy ===== *)
theory Storage_File
  imports Storage
begin

text \<open>
  The registry on disk. \<open>save\<close> replaces the file as a whole, so one \<open>save\<close> at a time is safe and its
  result is what the next start reads. Two that overlap are not: they share one temporary file and
  nothing keeps them apart (each runs on a thread of its own, after the lock was dropped).
\<close>

section \<open>The directory of the registry\<close>

definition users_tmp :: "storage \<Rightarrow> str" where
  "users_tmp st = with_extension (sg_path st) ''json.tmp''"

definition users_dir :: "storage \<Rightarrow> str" where
  "users_dir st = the (path_parent (sg_path st))"

text \<open>
  The three names are different and private to the daemon, the temporary file is of mode 0600 or
  absent and the registry is not a link.
\<close>

definition storage_dir_ok :: "storage \<Rightarrow> world \<Rightarrow> bool" where
  "storage_dir_ok st w \<longleftrightarrow> distinct [users_dir st, users_tmp st, sg_path st]
     \<and> rf_pred (users_dir st) (users_tmp st) (sg_path st) file_secure (\<lambda>a wr. \<forall>t. a \<noteq> Some (Link t)) w"

text \<open>What the codec promises of the registry that is written.\<close>

definition json_reads_back :: "users json \<Rightarrow> users \<Rightarrow> bool" where
  "json_reads_back J us \<longleftrightarrow> (\<exists>bs. to_vec_pretty J us = Some bs \<and> from_slice J bs = Some us)"

lemma storage_save_eq:
  "storage_save J (st, w) =
     (case to_vec_pretty J (sg_users st) of
        None \<Rightarrow> (Err Storage_Parse, st, w)
      | Some bytes \<Rightarrow> (case save_blocking (sg_path st) (users_tmp st) bytes w of (r, w') \<Rightarrow> (r, st, w')))"
  by (simp add: storage_save_def users_tmp_def bind_io_def [of "get_io _"]
      bind_io_def [of "result_io _"] get_io_def result_io_def on_world_def
      split: option.split prod.split)

lemma storage_save_post:
  assumes "to_vec_pretty J (sg_users st) = Some bs" "distinct [users_dir st, users_tmp st, sg_path st]"
    "rf_pred (users_dir st) (users_tmp st) (sg_path st) file_secure (\<lambda>a wr. a = A \<and> wr = W) w"
    "storage_save J (st, w) = (r, st', w')"
  shows "post (\<lambda>_. rf_pred (users_dir st) (users_tmp st) (sg_path st) file_secure (\<lambda>a wr. mode_600 bs a \<and> wr = W))
      (rf_pred (users_dir st) (users_tmp st) (sg_path st) file_secure (\<lambda>a wr. a = A \<and> wr = W)) r w'"
proof -
  have l: "replaced_file (users_dir st) (users_tmp st) (sg_path st)"
    by (rule replaced_file.intro [OF assms(2)])
  have r: "save_blocking (sg_path st) (users_tmp st) bs w = (r, w')"
    using assms(1,4) by (auto simp: storage_save_eq split: prod.splits)
  show ?thesis
    by (rule tripleD [OF replaced_file.replace_one [OF l] assms(3) r [unfolded save_blocking_def]])
qed

text \<open>What a \<open>set_slot\<close> leaves on disk, in one step for the two properties below.\<close>

lemma set_slot_post:
  assumes "json_reads_back J (users_put u f k (sg_users st))" "storage_dir_ok st w" "set_slot J u f k (st, w) = (r, st', w')"
  shows "sg_path st' = sg_path st \<and> storage_dir_ok st' w' \<and> w_wire w' = w_wire w
    \<and> (if is_ok r then (\<exists>d. mode_600 d (w_fs w' (sg_path st)) \<and> from_slice J d = Some (sg_users st'))
       else w_fs w' (sg_path st) = w_fs w (sg_path st))"
proof -
  let ?st = "st\<lparr>sg_users := users_put u f k (sg_users st)\<rparr>"
  have s: "storage_save J (?st, w) = (r, st', w')" using assms(3) by (simp add: set_slot_eq)
  then have st': "st' = ?st" by (rule storage_save_split)
  have same: "users_dir ?st = users_dir st" "users_tmp ?st = users_tmp st" "sg_path ?st = sg_path st"
    by (simp_all add: users_dir_def users_tmp_def)
  obtain bs where bs: "to_vec_pretty J (sg_users ?st) = Some bs" "from_slice J bs = Some (sg_users ?st)"
    using assms(1) unfolding json_reads_back_def by auto
  have d: "distinct [users_dir ?st, users_tmp ?st, sg_path ?st]"
    and p: "rf_pred (users_dir ?st) (users_tmp ?st) (sg_path ?st) file_secure
      (\<lambda>a wr. a = w_fs w (sg_path st) \<and> wr = w_wire w) w"
    using assms(2) unfolding storage_dir_ok_def same by (auto simp: rf_pred_def)
  from storage_save_post [OF bs(1) d p s] show ?thesis
    using assms(2) bs(2) unfolding st' storage_dir_ok_def same
    by (cases r) (auto simp: rf_pred_def mode_600_def)
qed

text \<open>
  A \<open>set_slot\<close> that runs alone is all or nothing on disk: when it reports success the file
  holds the new registry with mode 0600; when it fails or the process dies at any of its calls the
  file is as it was. Nothing is sent to the sensor.
\<close>

theorem set_slot_atomic:
  assumes "json_reads_back J (users_put u f k (sg_users st))" "storage_dir_ok st w" "set_slot J u f k (st, w) = (r, st', w')"
  shows "storage_dir_ok st' w' \<and> w_wire w' = w_wire w
    \<and> (if is_ok r then (\<exists>d. mode_600 d (w_fs w' (sg_path st)) \<and> from_slice J d = Some (sg_users st'))
       else w_fs w' (sg_path st) = w_fs w (sg_path st))"
  using set_slot_post [OF assms] by blast

lemma storage_load_quiet:
  assumes "storage_dir_ok st w" "no_faults (w_env w)"
  shows "fst (storage_load J (sg_path st) w) =
    (case w_fs w (sg_path st) of
       None \<Rightarrow> Ok fmempty
     | Some nd \<Rightarrow>
         if node_mode nd AND o777 \<noteq> o600 then Err (InsecureMode (sg_path st) (node_mode nd AND o777))
         else (case node_data nd of
             Ok d \<Rightarrow> ok_or (from_slice J d) Storage_Parse
           | Err e \<Rightarrow> Err (Storage_Io e)
           | Panic \<Rightarrow> Panic))"
proof -
  have priv: "e_other (w_env w) t fs (sg_path st) = fs (sg_path st)" for t fs
    using assms(1) by (simp add: storage_dir_ok_def rf_pred_def private_paths_def)
  have nl: "w_fs w (sg_path st) \<noteq> Some (Link t)" for t
    using assms(1) by (simp add: storage_dir_ok_def rf_pred_def)
  have f: "follow fs (sg_path st) = Ok (sg_path st)" if "fs (sg_path st) = w_fs w (sg_path st)" for fs
    by (rule follow_plain) (use that nl in simp)
  show ?thesis
    using assms(2) nl
    by (cases "w_fs w (sg_path st)")
      (auto simp: storage_load_def bind_io_def fs_exists_def match_io_def atomic_quiet return_io_def
        f priv map_err_io_def fs_metadata_def fs_lookup_def fs_read_def fail_io_def result_io_def Let_def
        split: node.splits option.splits result.splits)
qed

text \<open>
  What \<open>open\<close> reads, when no call fails: an empty registry when there is no file, an error
  naming the mode for any mode but 0600, whatever the file holds, an error for contents the decoder
  refuses, and otherwise what the file holds.
\<close>

theorem storage_load_result:
  assumes "storage_dir_ok st w" "no_faults (w_env w)"
  shows "fst (storage_load J (sg_path st) w) =
    (case w_fs w (sg_path st) of
       None \<Rightarrow> Ok fmempty
     | Some nd \<Rightarrow>
         if node_mode nd AND o777 \<noteq> o600 then Err (InsecureMode (sg_path st) (node_mode nd AND o777))
         else (case node_data nd of
             Ok d \<Rightarrow> ok_or (from_slice J d) Storage_Parse
           | Err e \<Rightarrow> Err (Storage_Io e)
           | Panic \<Rightarrow> Panic))"
  by (rule storage_load_quiet [OF assms])

text \<open>
  A restart continues with the registry of the last successful write: what \<open>open\<close> reads
  after a \<open>set_slot\<close> is the registry in memory.
\<close>

theorem set_slot_reopen:
  assumes "json_reads_back J (users_put u f k (sg_users st))" "storage_dir_ok st w" "set_slot J u f k (st, w) = (Ok (), st', w')"
    "no_faults (w_env w')"
  shows "fst (storage_load J (sg_path st) w') = Ok (users_put u f k (sg_users st))"
proof -
  from set_slot_post [OF assms(1-3)] obtain d where
    "sg_path st' = sg_path st" "storage_dir_ok st' w'" "mode_600 d (w_fs w' (sg_path st))"
    "from_slice J d = Some (sg_users st')" by auto
  with assms(4) storage_load_quiet [of st' w' J] set_slot_users [OF assms(3)] show ?thesis
    by (auto simp: mode_600_def)
qed

section \<open>Two writes at a time\<close>

text \<open>
  The blocking closure, call by call, and several of them under a schedule. A handle is a path and an
  offset here, which is right up to the rename of the file behind it; the schedule below ends there.
\<close>

datatype save_pc = P_open | P_write handle | P_sync handle | P_rename | P_done

fun save_step :: "str \<Rightarrow> str \<Rightarrow> u8 list \<Rightarrow> save_pc \<Rightarrow> (world, save_pc, storage_error) io" where
  "save_step path tmp bytes P_open =
     bind_io (map_err_io Storage_Io (fs_open_truncate tmp o600)) (\<lambda>f. return_io (P_write f))"
| "save_step path tmp bytes (P_write f) =
     bind_io (map_err_io Storage_Io (fs_write_all f bytes)) (\<lambda>f. return_io (P_sync f))"
| "save_step path tmp bytes (P_sync f) =
     bind_io (map_err_io Storage_Io (fs_sync_all f)) (\<lambda>_. return_io P_rename)"
| "save_step path tmp bytes P_rename =
     bind_io (map_err_io Storage_Io (fs_rename tmp path)) (\<lambda>_. return_io P_done)"
| "save_step path tmp bytes P_done = return_io P_done"

fun run_savers ::
  "str \<Rightarrow> str \<Rightarrow> (bool \<Rightarrow> u8 list) \<Rightarrow> bool list \<Rightarrow> (bool \<Rightarrow> save_pc)
    \<Rightarrow> (world, bool \<Rightarrow> save_pc, storage_error) io"
where
  "run_savers path tmp data [] pcs = return_io pcs"
| "run_savers path tmp data (i # is) pcs =
     bind_io (save_step path tmp (data i) (pcs i)) (\<lambda>pc. run_savers path tmp data is (pcs(i := pc)))"

lemma bind_io_return: "bind_io (return_io x) f = f x"
  by (rule ext) (simp add: bind_io_def return_io_def)

lemma bind_return: "bind_io m return_io = m"
  by (rule ext) (simp add: bind_io_def return_io_def split: prod.split result.split)

text \<open>One saver alone, four steps long, is the closure.\<close>

lemma save_blocking_steps:
  "save_blocking path tmp (data i) =
     bind_io (run_savers path tmp data [i, i, i, i] (\<lambda>_. P_open)) (\<lambda>_. return_io ())"
  by (simp add: save_blocking_def bind_io_assoc bind_io_return bind_return)

lemma tmp_writable:
  "storage_dir_ok st w \<Longrightarrow> o600 AND NOT (e_umask (w_env w)) = o600
     \<and> (w_fs w (users_tmp st) = None \<or> (\<exists>d m. w_fs w (users_tmp st) = Some (File d m 0) \<and> m AND o777 = o600))"
  by (auto simp: storage_dir_ok_def rf_pred_def private_paths_def file_secure_def mode_600_def)

text \<open>
  Overlapping writes lose the registry: when the second writer opens the shared temporary
  file after the first has written it and before the first renames it, the first writer reports
  success and the registry on disk is an empty file, which the next start refuses to parse. Each
  writer follows its code, no call fails and nothing crashes.
\<close>

theorem overlapping_saves_empty_registry:
  assumes "storage_dir_ok st w" "no_faults (w_env w)" "\<forall>m u. w_fs w (sg_path st) \<noteq> Some (Dir m u)"
    "from_slice J [] = None"
    "run_savers (sg_path st) (users_tmp st) data [True, True, False, True, True] (\<lambda>_. P_open) w = (r, w')"
  shows "(\<exists>pcs. r = Ok pcs \<and> pcs True = P_done) \<and> mode_600 [] (w_fs w' (sg_path st))
    \<and> fst (storage_load J (sg_path st) w') = Err Storage_Parse"
proof -
  let ?tmp = "users_tmp st" and ?path = "sg_path st"
  have priv: "e_other (w_env w) t fs ?path = fs ?path" "e_other (w_env w) t fs ?tmp = fs ?tmp"
      "e_other (w_env w) t fs (users_dir st) = fs (users_dir st)" for t fs
    using assms(1) by (auto simp: storage_dir_ok_def rf_pred_def private_paths_def)
  have ne: "?tmp \<noteq> ?path" "?path \<noteq> ?tmp" "users_dir st \<noteq> ?path" "users_dir st \<noteq> ?tmp"
    using assms(1) by (auto simp: storage_dir_ok_def)
  have m: "(o600 :: u32) AND o777 = o600" by code_simp
  have w': "(\<exists>pcs. r = Ok pcs \<and> pcs True = P_done) \<and> mode_600 [] (w_fs w' ?path)
      \<and> w_env w' = w_env w \<and> w_fs w' ?tmp = None \<and> w_fs w' (users_dir st) = w_fs w (users_dir st)"
    using assms(2,3,5) tmp_writable [OF assms(1)] ne m
    by (auto simp: bind_io_def map_err_io_def return_io_def fs_open_truncate_def fs_write_all_def
        fs_sync_all_def fs_rename_def atomic_quiet syscall_def no_faults_def priv follow_plain set_fs_def
        write_at_def overwrite_def mode_600_def split: option.splits node.splits)
  then have "storage_dir_ok st w'"
    using assms(1) by (auto simp: storage_dir_ok_def rf_pred_def file_secure_def mode_600_def)
  with w' assms(2,4) storage_load_quiet [of st w' J] show ?thesis
    by (auto simp: mode_600_def)
qed

section \<open>Examples\<close>

definition demo_users :: users where
  "demo_users = users_put ''mat'' ''right-thumb'' 0 fmempty"

definition demo_users_json :: "users json" where
  "demo_users_json = \<lparr>to_vec_pretty = (\<lambda>us. Some [if us = demo_users then 1 else 2]),
     from_slice = (\<lambda>bs. if bs = [1] then Some demo_users else None)\<rparr>"

definition demo_storage :: storage where
  "demo_storage = \<lparr>sg_path = ''/d/users.json'', sg_capacity = 200, sg_users = fmempty\<rparr>"

definition demo_disk :: world where
  "demo_disk = demo_world (Map.empty(''/d/users.json'' \<mapsto> File [1] o600 0))"

lemma demo_paths:
  "sg_path demo_storage = ''/d/users.json''" "users_tmp demo_storage = ''/d/users.json.tmp''" "users_dir demo_storage = ''/d''"
  by code_simp+

lemma demo_paths_private: "private_paths ps demo_env"
proof -
  have "(384 :: u32) AND NOT 18 = 384" by code_simp
  then show ?thesis by (simp add: private_paths_def demo_env_def)
qed

lemma demo_storage_ok: "storage_dir_ok demo_storage (demo_world Map.empty)" "storage_dir_ok demo_storage demo_disk"
  using demo_paths_private
  by (simp_all add: storage_dir_ok_def rf_pred_def demo_paths file_secure_def demo_disk_def
      demo_world_def)

lemma demo_reads_back:
  "json_reads_back demo_users_json (users_put ''mat'' ''right-thumb'' 0 (sg_users demo_storage))"
  by (simp add: json_reads_back_def demo_users_json_def demo_users_def demo_storage_def)

lemma demo_set_slot:
  "\<exists>st' w'. set_slot demo_users_json ''mat'' ''right-thumb'' 0 (demo_storage, demo_world Map.empty)
     = (Ok (), st', w') \<and> no_faults (w_env w')"
  using demo_no_faults
  by (simp add: set_slot_eq storage_save_eq save_blocking_def demo_users_json_def bind_io_def
      map_err_io_def demo_world_def demo_env_def fs_open_truncate_def fs_write_all_def fs_sync_all_def
      fs_rename_def atomic_call_def syscall_def follow_plain set_fs_def write_at_def no_faults_def
      demo_storage_def users_tmp_def split: option.splits node.splits)

theorem set_slot_atomic_witness:
  "\<exists>r st' w'. set_slot demo_users_json ''mat'' ''right-thumb'' 0 (demo_storage, demo_world Map.empty) = (r, st', w')
    \<and> storage_dir_ok st' w' \<and> w_wire w' = w_wire (demo_world Map.empty)
    \<and> (if is_ok r then (\<exists>d. mode_600 d (w_fs w' (sg_path demo_storage))
          \<and> from_slice demo_users_json d = Some (sg_users st'))
       else w_fs w' (sg_path demo_storage) = w_fs (demo_world Map.empty) (sg_path demo_storage))"
  using set_slot_atomic [OF demo_reads_back demo_storage_ok(1)] by (metis surj_pair)

theorem set_slot_reopen_witness:
  "\<exists>st' w'. set_slot demo_users_json ''mat'' ''right-thumb'' 0 (demo_storage, demo_world Map.empty) = (Ok (), st', w')
    \<and> fst (storage_load demo_users_json (sg_path demo_storage) w')
        = Ok (users_put ''mat'' ''right-thumb'' 0 (sg_users demo_storage))"
  using set_slot_reopen [OF demo_reads_back demo_storage_ok(1)] demo_set_slot by blast

theorem storage_load_result_witness:
  "fst (storage_load demo_users_json (sg_path demo_storage) demo_disk) = Ok demo_users"
proof -
  have nf: "no_faults (w_env demo_disk)" using demo_no_faults by (simp add: demo_disk_def demo_world_def)
  have m: "(384 :: u32) AND 511 = 384" by code_simp
  show ?thesis
    using m by (simp only: storage_load_result [OF demo_storage_ok(2) nf])
      (simp add: demo_disk_def demo_world_def demo_storage_def demo_users_json_def)
qed

theorem overlapping_saves_empty_registry_witness:
  "fst (storage_load demo_users_json (sg_path demo_storage)
     (snd (run_savers (sg_path demo_storage) (users_tmp demo_storage) (\<lambda>_. [1])
        [True, True, False, True, True] (\<lambda>_. P_open) demo_disk))) = Err Storage_Parse"
proof -
  have nf: "no_faults (w_env demo_disk)" using demo_no_faults by (simp add: demo_disk_def demo_world_def)
  have nd: "\<forall>m u. w_fs demo_disk (sg_path demo_storage) \<noteq> Some (Dir m u)"
    by (simp add: demo_disk_def demo_world_def demo_storage_def)
  have nj: "from_slice demo_users_json [] = None" by (simp add: demo_users_json_def)
  show ?thesis
    using overlapping_saves_empty_registry [OF demo_storage_ok(2) nf nd nj, of "\<lambda>_. [1]"]
    by (metis prod.collapse)
qed

theorem allocate_slot_lowest_witness:
  "allocate_slot (demo_storage\<lparr>sg_users := demo_users\<rparr>) = Ok 1"
proof -
  let ?st = "demo_storage\<lparr>sg_users := demo_users\<rparr>"
  have "get_slot u f ?st
      = (if u = ''mat'' \<and> f = ''right-thumb'' then Some 0 else None)" for u f
    by (simp add: get_slot_def demo_users_def users_get_put) (simp add: users_get_def)
  then have "(\<forall>u f. get_slot u f ?st \<noteq> Some 1) \<and> get_slot ''mat'' ''right-thumb'' ?st = Some 0" by simp
  moreover have "unat (1 :: u8) < unat (sg_capacity ?st)" by (simp add: demo_storage_def)
  moreover have "j = 0" if "unat j < unat (1 :: u8)" for j :: u8
    using that by (simp add: unsigned_eq_0_iff)
  ultimately show ?thesis
    by (subst allocate_slot_lowest [THEN conjunct1]) blast
qed

end
