(* ===== verification/Auth.thy ===== *)
theory Auth
  imports Rust_Utf8
begin

text \<open>
  \<open>error.rs\<close> and \<open>auth.rs\<close>: the errors a D-Bus caller sees, and the one place where a caller's right
  to act for a user is decided. What the bus daemon, the password database and polkit answer is a
  parameter (\<open>bus\<close>): their answers are looked up in it, and \<open>None\<close> is a failed call.
\<close>

section \<open>The errors of the interface\<close>

datatype fprint_error =
    Internal str
  | ClaimDevice str
  | AlreadyInUse str
  | NoEnrolledPrints str
  | NoActionInProgress str
  | InvalidFingername str
  | PrintsNotDeleted str
  | PermissionDenied str

section \<open>The services\<close>

record bus =
  bus_name_ok :: "str \<Rightarrow> bool"
  bus_proxy_ok :: bool
  bus_unix_user :: "str \<Rightarrow> u32 option"
  bus_unix_pid :: "str \<Rightarrow> u32 option"
  bus_getpwuid :: "u32 \<Rightarrow> u8 list option"
  bus_polkit_ok :: bool
  bus_subject_ok :: "u32 \<Rightarrow> bool"
  bus_polkit :: "u32 \<Rightarrow> str \<Rightarrow> bool option"

definition ACTION_SETUSERNAME :: str where
  "ACTION_SETUSERNAME = ''net.reactivated.fprint.device.setusername''"

section \<open>The decision\<close>

definition is_ascii_control :: "u8 \<Rightarrow> bool" where
  "is_ascii_control b \<longleftrightarrow> unat b < 32 \<or> b = 127"

definition unsafe_username :: "str \<Rightarrow> bool" where
  "unsafe_username user \<longleftrightarrow> user = [] \<or> user = ''.'' \<or> user = ''..''
     \<or> CHR ''/'' \<in> set user \<or> CHR 0x5C \<in> set user
     \<or> list_ex (\<lambda>b. b = 0 \<or> is_ascii_control b) (as_bytes user)"

definition validate_username :: "str \<Rightarrow> (unit, fprint_error) result" where
  "validate_username user =
     (if unsafe_username user then Err (Internal ''unsafe username'') else Ok ())"

definition pwd_lookup :: "bus \<Rightarrow> u32 \<Rightarrow> str option" where
  "pwd_lookup B uid = map_option (\<lambda>name. from_utf8_lossy (of_bytes name)) (bus_getpwuid B uid)"

definition resolve_caller :: "bus \<Rightarrow> str option \<Rightarrow> (u32 \<times> u32 \<times> str, fprint_error) result" where
  "resolve_caller B sender =
     bind_r (ok_or sender (Internal ''missing sender'')) (\<lambda>sender.
     bind_r (if bus_name_ok B sender then Ok () else Err (Internal ''invalid sender'')) (\<lambda>_.
     bind_r (if bus_proxy_ok B then Ok () else Err (Internal ''zbus'')) (\<lambda>_.
     bind_r (ok_or (bus_unix_user B sender) (Internal ''GetConnectionUnixUser'')) (\<lambda>uid.
     bind_r (ok_or (bus_unix_pid B sender) (Internal ''GetConnectionUnixProcessID'')) (\<lambda>pid.
     bind_r (ok_or (pwd_lookup B uid) (Internal ''uid not in passwd'')) (\<lambda>user.
     bind_r (validate_username user) (\<lambda>_. Ok (uid, pid, user))))))))"

definition authorize_username :: "bus \<Rightarrow> str option \<Rightarrow> str \<Rightarrow> (str, fprint_error) result" where
  "authorize_username B sender requested =
     bind_r (resolve_caller B sender) (\<lambda>(caller_uid, caller_pid, caller_user).
       if requested = [] \<or> requested = caller_user then Ok caller_user
       else if caller_uid = 0 then Ok requested
       else bind_r (if bus_polkit_ok B then Ok () else Err (Internal ''polkit proxy'')) (\<lambda>_.
            bind_r (if bus_subject_ok B caller_pid then Ok () else Err (Internal ''polkit subject'')) (\<lambda>_.
            bind_r (ok_or (bus_polkit B caller_pid ACTION_SETUSERNAME) (Internal ''polkit check'')) (\<lambda>yes.
              if yes then Ok requested
              else Err (PermissionDenied ''not authorized to act as user'')))))"

section \<open>What is granted\<close>

lemma resolve_caller_Ok:
  "resolve_caller B (Some s) = Ok (uid, pid, user) \<Longrightarrow>
     bus_unix_user B s = Some uid \<and> bus_unix_pid B s = Some pid \<and> pwd_lookup B uid = Some user
     \<and> \<not> unsafe_username user"
  by (auto simp: resolve_caller_def result_simps validate_username_def split: if_splits)

text \<open>Who may act for whom, as the header of \<open>auth.rs\<close> puts it.\<close>

definition may_act_for :: "bus \<Rightarrow> str \<Rightarrow> str \<Rightarrow> bool" where
  "may_act_for B s user \<longleftrightarrow>
     (\<exists>uid pid caller. bus_unix_user B s = Some uid \<and> bus_unix_pid B s = Some pid
        \<and> pwd_lookup B uid = Some caller
        \<and> (user = caller \<or> uid = 0 \<or> bus_polkit B pid ACTION_SETUSERNAME = Some True))"

lemma authorize_username_may:
  "authorize_username B (Some s) requested = Ok user \<Longrightarrow> may_act_for B s user"
  by (auto simp: authorize_username_def may_act_for_def result_simps split: if_splits
      dest!: resolve_caller_Ok)

text \<open>
  Claim C20. The authorisation policy: a caller is granted a user only if the bus knows the caller's
  connection, and the user is the caller's own account, or the caller is uid 0, or polkit said yes
  for this process; asking for nobody means oneself; a caller without a sender gets nothing. A
  granted name the caller did not ask for by name, as root or with polkit's consent, is safe to use
  in a path.
\<close>

theorem authorize_username_policy:
  assumes "authorize_username B sender requested = Ok user"
  shows "(\<exists>s. sender = Some s \<and> may_act_for B s user)
    \<and> (requested \<noteq> [] \<longrightarrow> user = requested)
    \<and> (unsafe_username user \<longrightarrow> user = requested
         \<and> (\<exists>s uid pid. sender = Some s \<and> bus_unix_user B s = Some uid \<and> bus_unix_pid B s = Some pid
              \<and> (uid = 0 \<or> bus_polkit B pid ACTION_SETUSERNAME = Some True)))"
proof -
  obtain s where s: "sender = Some s"
    using assms by (cases sender) (simp_all add: authorize_username_def resolve_caller_def)
  obtain uid pid caller where r: "resolve_caller B (Some s) = Ok (uid, pid, caller)"
    using assms by (auto simp: authorize_username_def s result_simps)
  note c = resolve_caller_Ok [OF r]
  have "requested \<noteq> [] \<longrightarrow> user = requested" and "unsafe_username user \<longrightarrow> user = requested
      \<and> (uid = 0 \<or> bus_polkit B pid ACTION_SETUSERNAME = Some True)"
    using assms c by (auto simp: authorize_username_def s r result_simps split: if_splits)
  moreover have "may_act_for B s user" by (rule authorize_username_may) (use assms s in simp)
  ultimately show ?thesis using s c by blast
qed

definition demo_bus :: bus where
  "demo_bus = \<lparr>bus_name_ok = \<lambda>_. True, bus_proxy_ok = True, bus_unix_user = \<lambda>s. Some 1000,
     bus_unix_pid = \<lambda>s. Some 42, bus_getpwuid = \<lambda>u. Some [109, 97, 116], bus_polkit_ok = True,
     bus_subject_ok = \<lambda>_. True, bus_polkit = \<lambda>_ _. Some False\<rparr>"

lemma demo_pwd: "pwd_lookup demo_bus uid = Some ''mat''"
proof -
  have "utf8_valid ''mat''" by (simp add: ascii_utf8_valid is_ascii_def ord_def)
  then show ?thesis
    using of_bytes_as_bytes [of "''mat''"]
    by (simp add: pwd_lookup_def demo_bus_def as_bytes_def ord_def from_utf8_lossy_id)
qed

lemma demo_safe: "\<not> unsafe_username ''mat''"
  by code_simp

lemma demo_authorize: "authorize_username demo_bus (Some '':1.5'') [] = Ok ''mat''"
proof -
  have "bus_name_ok demo_bus = (\<lambda>_. True)" "bus_proxy_ok demo_bus" "bus_unix_user demo_bus s = Some 1000"
      "bus_unix_pid demo_bus s = Some 42" for s
    by (simp_all add: demo_bus_def)
  then show ?thesis
    by (simp add: authorize_username_def resolve_caller_def demo_pwd demo_safe validate_username_def)
qed

theorem authorize_username_policy_witness:
  "may_act_for demo_bus '':1.5'' ''mat''"
  using authorize_username_policy [OF demo_authorize] by simp

end
