(* ===== verification/Device.thy ===== *)
theory Device
  imports Auth Storage Sensor_Actor
begin

text \<open>
  \<open>dbus_iface.rs\<close>, the parts that run under the device's mutex: the claim, the action slot with its
  epochs, the two finger hints, and the decision what a sensor result means for a verification.
  Each definition is one critical section or one pure piece of a method; \<open>Device_Tasks\<close> puts them
  together with the points at which a method waits.
\<close>

section \<open>Names\<close>

definition DEVICE_PATH :: str where
  "DEVICE_PATH = ''/net/reactivated/Fprint/Device/0''"

definition FINGER_NAMES :: "str list" where
  "FINGER_NAMES =
     [''left-thumb'', ''left-index-finger'', ''left-middle-finger'', ''left-ring-finger'',
      ''left-little-finger'', ''right-thumb'', ''right-index-finger'', ''right-middle-finger'',
      ''right-ring-finger'', ''right-little-finger'']"

definition validate_finger :: "str \<Rightarrow> bool \<Rightarrow> (unit, fprint_error) result" where
  "validate_finger name allow_any =
     (if allow_any \<and> name = ''any'' then Ok ()
      else if name \<in> set FINGER_NAMES then Ok ()
      else Err (InvalidFingername name))"

section \<open>The state of the device\<close>

datatype action_kind = Enroll | Verify | Delete

fun kind_as_str :: "action_kind \<Rightarrow> str" where
  "kind_as_str Enroll = ''enroll''"
| "kind_as_str Verify = ''verify''"
| "kind_as_str Delete = ''delete''"

datatype action_token = Token (tk_kind: action_kind) (tk_epoch: u64)

record device_state =
  claimed_by :: "str option"
  claim_sender :: "str option"
  action :: "action_token option"
  next_epoch :: u64
  finger_present :: bool
  finger_needed :: bool

definition device_default :: device_state where
  "device_default = \<lparr>claimed_by = None, claim_sender = None, action = None, next_epoch = 0,
     finger_present = False, finger_needed = False\<rparr>"

definition start_action :: "action_kind \<Rightarrow> device_state \<Rightarrow> action_token \<times> device_state" where
  "start_action kind s =
     (let token = Token kind (next_epoch s)
      in (token, s\<lparr>next_epoch := next_epoch s + 1, action := Some token\<rparr>))"

definition clear_action :: "device_state \<Rightarrow> device_state" where
  "clear_action s = s\<lparr>action := None, finger_needed := False, finger_present := False\<rparr>"

definition end_action_if_owner :: "action_token \<Rightarrow> device_state \<Rightarrow> bool \<times> device_state" where
  "end_action_if_owner expected s =
     (if action s = Some expected then (True, clear_action s) else (False, s))"

text \<open>The gate of the three operations: refused while an action is in the slot.\<close>

definition begin_action ::
  "action_kind \<Rightarrow> device_state \<Rightarrow> (action_token, fprint_error) result \<times> device_state"
where
  "begin_action kind s =
     (case action s of
        Some t \<Rightarrow> (Err (AlreadyInUse (kind_as_str (tk_kind t) @ '' already in progress'')), s)
      | None \<Rightarrow> (case start_action kind s of (token, s') \<Rightarrow> (Ok token, s')))"

definition begin_delete :: "device_state \<Rightarrow> (action_token, fprint_error) result \<times> device_state" where
  "begin_delete = begin_action Delete"

definition sender_differs :: "str option \<Rightarrow> device_state \<Rightarrow> bool" where
  "sender_differs sender s \<longleftrightarrow>
     (case (sender, claim_sender s) of (Some x, Some y) \<Rightarrow> x \<noteq> y | _ \<Rightarrow> False)"

definition ensure_claim :: "str option \<Rightarrow> device_state \<Rightarrow> (str, fprint_error) result" where
  "ensure_claim sender s =
     bind_r (ok_or (claimed_by s) (ClaimDevice ''device not claimed'')) (\<lambda>user.
       if sender_differs sender s then Err (ClaimDevice ''device claimed by a different sender'')
       else Ok user)"

definition handle_client_disconnect :: "str \<Rightarrow> device_state \<Rightarrow> device_state" where
  "handle_client_disconnect unique_name s =
     (if claim_sender s = Some unique_name
      then clear_action (s\<lparr>claimed_by := None, claim_sender := None\<rparr>) else s)"

definition claim_device ::
  "str option \<Rightarrow> str \<Rightarrow> device_state \<Rightarrow> (unit, fprint_error) result \<times> device_state"
where
  "claim_device sender user s =
     (let claimed = s\<lparr>claimed_by := Some user, claim_sender := sender\<rparr>
      in case claimed_by s of
           Some existing \<Rightarrow>
             if existing \<noteq> user then (Err (AlreadyInUse (''already claimed by '' @ existing)), s)
             else (case action s of
                 Some a \<Rightarrow> (Err (AlreadyInUse (kind_as_str (tk_kind a) @ '' in progress for '' @ existing)), s)
               | None \<Rightarrow> (Ok (), claimed))
         | None \<Rightarrow> (Ok (), claimed))"

definition release_device :: "str option \<Rightarrow> device_state \<Rightarrow> (unit, fprint_error) result \<times> device_state" where
  "release_device sender s =
     (if claimed_by s = None then (Err (ClaimDevice ''device not claimed''), s)
      else if sender_differs sender s then (Err (ClaimDevice ''claimed by a different sender''), s)
      else (Ok (), clear_action (s\<lparr>claimed_by := None, claim_sender := None\<rparr>)))"

text \<open>The second critical section of \<open>verify_stop\<close> and \<open>enroll_stop\<close>.\<close>

definition stop_action :: "action_kind \<Rightarrow> device_state \<Rightarrow> (unit, fprint_error) result \<times> device_state" where
  "stop_action kind s =
     (case action s of
        Some t \<Rightarrow>
          if tk_kind t = kind then (Ok (), clear_action s)
          else (Err (NoActionInProgress (''no '' @ kind_as_str kind @ '' in progress'')), s)
      | None \<Rightarrow> (Err (NoActionInProgress (''no '' @ kind_as_str kind @ '' in progress'')), s))"

definition hint_needed :: "device_state \<Rightarrow> device_state" where
  "hint_needed s = s\<lparr>finger_needed := True, finger_present := False\<rparr>"

text \<open>
  Progress lines are compared in lower case. Only the needles below are looked for, and for these
  the lower case of ASCII letters decides, as no other character has one of their letters, alone, as
  its lower case.
\<close>

definition update_finger_state :: "str \<Rightarrow> device_state \<Rightarrow> device_state" where
  "update_finger_state msg s =
     (let low = to_ascii_lowercase msg
      in if str_contains low ''place_finger'' \<or> str_contains low ''place_again'' then hint_needed s
         else if str_contains low ''remove_finger'' \<or> str_contains low ''remove finger''
         then s\<lparr>finger_needed := False, finger_present := True\<rparr>
         else s)"

definition stage_passed :: "str \<Rightarrow> bool" where
  "stage_passed msg \<longleftrightarrow>
     (let low = to_ascii_lowercase msg
      in str_contains low ''remove_finger'' \<or> str_contains low ''remove finger'')"

section \<open>What a result means for a verification\<close>

definition MAX_RETRIES :: nat where
  "MAX_RETRIES = 5"

definition RETRY_BUDGET :: nat where
  "RETRY_BUDGET = from_millis 30000"

text \<open>The loop ends with a status, or goes on, after a pause or at once.\<close>

datatype verdict = Final str | Retry_after_pause | Retry_at_once

definition retryable :: "str \<Rightarrow> bool" where
  "retryable code_low \<longleftrightarrow> code_low = ''timeout'' \<or> code_low = ''poor_quality''
     \<or> starts_with code_low ''capture_failed'' \<or> starts_with code_low ''image2tz_failed''"

definition accepted :: "u16 \<Rightarrow> u8 fset \<Rightarrow> match_result \<Rightarrow> bool" where
  "accepted threshold expected m \<longleftrightarrow> match_slot m |\<in>| expected \<and> threshold \<le> match_confidence m"

definition out_of_budget :: "nat \<Rightarrow> nat \<Rightarrow> bool" where
  "out_of_budget retries elapsed \<longleftrightarrow> MAX_RETRIES \<le> retries \<or> RETRY_BUDGET < elapsed"

fun verify_verdict ::
  "u16 \<Rightarrow> u8 fset \<Rightarrow> nat \<Rightarrow> nat \<Rightarrow> match_result + sensor_error \<Rightarrow> verdict"
where
  "verify_verdict threshold expected retries elapsed (Inl m) =
     Final (if accepted threshold expected m then ''verify-match'' else ''verify-no-match'')"
| "verify_verdict threshold expected retries elapsed (Inr (Command code detail)) =
     (let code_low = to_ascii_lowercase code
      in if code_low = ''no_match'' then Final ''verify-no-match''
         else if retryable code_low
         then (if out_of_budget retries elapsed then Final ''verify-no-match'' else Retry_after_pause)
         else Final ''verify-unknown-error'')"
| "verify_verdict threshold expected retries elapsed (Inr (Timeout cmd)) =
     (if out_of_budget retries elapsed then Final ''verify-no-match'' else Retry_at_once)"
| "verify_verdict threshold expected retries elapsed (Inr e) =
     Final (if is_fatal_io e then ''verify-disconnected'' else ''verify-unknown-error'')"

fun enroll_status_of :: "sensor_error \<Rightarrow> str" where
  "enroll_status_of e = (if is_fatal_io e then ''enroll-disconnected'' else ''enroll-failed'')"

text \<open>
  A verification succeeds only on a match: the final status is \<open>verify-match\<close> exactly when
  the sensor reported a slot of the expected set with at least the threshold's confidence, and every
  retry leaves budget: at most five have gone before it, within thirty seconds.
\<close>

theorem verify_match_iff:
  "(verify_verdict threshold expected retries elapsed r = Final ''verify-match''
      \<longleftrightarrow> (\<exists>m. r = Inl m \<and> match_slot m |\<in>| expected \<and> threshold \<le> match_confidence m))
    \<and> (verify_verdict threshold expected retries elapsed r \<in> {Retry_after_pause, Retry_at_once}
      \<longrightarrow> retries < MAX_RETRIES \<and> elapsed \<le> RETRY_BUDGET)"
  by (cases "(threshold, expected, retries, elapsed, r)" rule: verify_verdict.cases)
    (auto simp: accepted_def out_of_budget_def Let_def split: if_splits)

theorem verify_match_iff_witness:
  "verify_verdict 80 {|3|} 0 0 (Inl \<lparr>match_slot = 3, match_confidence = 168\<rparr>) = Final ''verify-match''
    \<and> verify_verdict 80 {|3|} 0 0 (Inl \<lparr>match_slot = 4, match_confidence = 168\<rparr>) \<noteq> Final ''verify-match''
    \<and> (0 :: nat) < MAX_RETRIES"
proof -
  have t: "(80 :: u16) \<le> 168" by code_simp
  have "verify_verdict 80 {|3|} 0 0 (Inr (Timeout ''VERIFY'')) = Retry_at_once"
    by (simp add: out_of_budget_def MAX_RETRIES_def RETRY_BUDGET_def)
  then have "(0 :: nat) < MAX_RETRIES"
    using verify_match_iff [of 80 "{|3|}" 0 0 "Inr (Timeout ''VERIFY'')"] by simp
  with t show ?thesis
    using verify_match_iff [of 80 "{|3|}" 0 0 "Inl \<lparr>match_slot = 3, match_confidence = 168\<rparr>"]
      verify_match_iff [of 80 "{|3|}" 0 0 "Inl \<lparr>match_slot = 4, match_confidence = 168\<rparr>"]
    by simp
qed

end
