(* ===== verification/Device_Tasks.thy ===== *)
theory Device_Tasks
  imports Device
begin

text \<open>
  \<open>dbus_iface.rs\<close>, the methods and the tasks they spawn, cut at the points where they wait: a lock, a
  reply of the sensor, a timer, the bus. What happens between two such points is one step. The
  program counters are the datatypes below, one for each method or task; a constructor carries the
  local variables that are still needed. Tasks interleave in any order (\<open>dev_step\<close>).

  The shared objects are in \<open>core\<close>: the mutex-protected state, the free permits of the capture
  semaphore, the registry, the world, and the queue of the sensor worker. The worker answers the
  requests in their order, each once (\<open>Sensor_Actor.one_reply_per_request\<close>), with any answer of the
  request's kind; when it is gone, a request fails with a broken pipe. The trace records what a
  caller or the bus can see, what the sensor was asked and answered, and the writes to the registry.
  A process that dies in a file operation (\<open>Panic\<close>) leaves its task where it was.
\<close>

section \<open>The shared objects and the trace\<close>

record core =
  c_dev :: device_state
  c_permits :: nat
  c_store :: storage
  c_world :: world
  c_queue :: "sensor_request list"
  c_alive :: bool

record device_config =
  cf_threshold :: u16
  cf_json :: "users json"
  cf_bus :: bus

datatype signal = Verify_finger_selected str | Verify_status str bool | Enroll_status str bool

datatype event =
    Ev_signal signal
  | Ev_return "(unit, fprint_error) result"
  | Ev_verify str str "(str, u8) fmap"
  | Ev_submit sensor_request
  | Ev_answer sensor_request "(reply, sensor_error) result"
  | Ev_start action_token
  | Ev_stored str str u8
  | Ev_removed str str u8

definition worker_gone :: sensor_error where
  "worker_gone = Sensor_Io (Io_error BrokenPipe ''sensor worker is gone'')"

definition return_permit :: "core \<Rightarrow> core" where
  "return_permit c = c\<lparr>c_permits := Suc (c_permits c)\<rparr>"

definition on_dev :: "(device_state \<Rightarrow> device_state) \<Rightarrow> core \<Rightarrow> core" where
  "on_dev f c = c\<lparr>c_dev := f (c_dev c)\<rparr>"

definition end_action :: "action_token \<Rightarrow> core \<Rightarrow> core" where
  "end_action token = on_dev (\<lambda>s. snd (end_action_if_owner token s))"

definition on_store :: "'a storage_io \<Rightarrow> core \<Rightarrow> ('a, storage_error) result \<times> core" where
  "on_store m c =
     (case m (c_store c, c_world c) of
        (r, st, w) \<Rightarrow> (r, c\<lparr>c_store := st, c_world := w\<rparr>))"

text \<open>\<open>SensorActor::send\<close>.\<close>

definition actor_send :: "sensor_request \<Rightarrow> core \<Rightarrow> bool \<times> core" where
  "actor_send req c =
     (if c_alive c then (True, c\<lparr>c_queue := c_queue c @ [req]\<rparr>) else (False, c))"

section \<open>Program counters\<close>

datatype verify_call =
    VC_permit str str
  | VC_mint str str
  | VC_slots action_token str str "(str, u8) fmap"
  | VC_hint action_token "u8 fset"

datatype verify_task =
    VT_start action_token "u8 fset"
  | VT_check action_token "u8 fset" nat nat
  | VT_wait action_token "u8 fset" nat nat
  | VT_sleep action_token "u8 fset" nat nat nat
  | VT_end action_token "str option"
  | VT_emit str

datatype enroll_call =
    EC_permit str str
  | EC_mint str str
  | EC_slot action_token str str
  | EC_alloc action_token str str
  | EC_full action_token
  | EC_hint action_token str str u8

datatype enroll_task =
    ET_submit action_token str str u8
  | ET_wait action_token str str u8
  | ET_end action_token str str u8 "sensor_error option"
  | ET_store str str u8
  | ET_emit str

datatype delete_call =
    DC_find str str
  | DC_gate str str u8
  | DC_submit action_token str str u8
  | DC_wait action_token str str u8
  | DC_remove action_token str str u8
  | DC_end action_token "(unit, fprint_error) result"

datatype wipe_call =
    WC_gate str
  | WC_list action_token str
  | WC_next action_token str "(str, u8) fmap" "(str \<times> u8) list" bool
  | WC_wait action_token str str u8 "(str, u8) fmap" "(str \<times> u8) list" bool
  | WC_remove action_token str "(str \<times> u8) list" bool
  | WC_end action_token "(unit, fprint_error) result"

datatype task =
    Claim_call "str option" str
  | Stop_call action_kind
  | VC verify_call
  | VT verify_task
  | EC enroll_call
  | ET enroll_task
  | DC delete_call
  | WC wipe_call

type_synonym step_result = "task option \<times> core \<times> event list"

definition reply_to_caller :: "(unit, fprint_error) result \<Rightarrow> core \<Rightarrow> step_result" where
  "reply_to_caller r c = (None, c, [Ev_return r])"

section \<open>VerifyStart and its task\<close>

definition no_prints :: fprint_error where
  "no_prints = NoEnrolledPrints ''no enrolled prints''"

definition sensor_busy :: fprint_error where
  "sensor_busy = AlreadyInUse ''sensor busy with a previous capture''"

fun verify_start_step :: "verify_call \<Rightarrow> core \<Rightarrow> step_result" where
  "verify_start_step (VC_permit user finger) c =
     (if c_permits c = 0 then reply_to_caller (Err sensor_busy) c
      else (Some (VC (VC_mint user finger)), c\<lparr>c_permits := c_permits c - 1\<rparr>, []))"
| "verify_start_step (VC_mint user finger) c =
     (case begin_action Verify (c_dev c) of
        (Ok token, s) \<Rightarrow>
          let slots = get_user_slots user (c_store c)
          in (Some (VC (VC_slots token user finger slots)), c\<lparr>c_dev := s\<rparr>,
              [Ev_start token, Ev_verify user finger slots])
      | (Err e, s) \<Rightarrow> reply_to_caller (Err e) (return_permit c)
      | (Panic, s) \<Rightarrow> reply_to_caller Panic c)"
| "verify_start_step (VC_slots token user finger slots) c =
     (if fmdom slots = {||} then reply_to_caller (Err no_prints) (return_permit (end_action token c))
      else if finger = ''any''
      then (Some (VC (VC_hint token (fmran slots))), c, [Ev_signal (Verify_finger_selected ''any'')])
      else (case fmlookup slots finger of
          Some k \<Rightarrow> (Some (VC (VC_hint token {|k|})), c, [Ev_signal (Verify_finger_selected finger)])
        | None \<Rightarrow> reply_to_caller (Err no_prints) (return_permit (end_action token c))))"
| "verify_start_step (VC_hint token expected) c =
     (Some (VT (VT_start token expected)), on_dev hint_needed c, [Ev_return (Ok ())])"

text \<open>What the loop does with a result: the next point, and the retry signal if there is one.\<close>

definition verify_result ::
  "device_config \<Rightarrow> action_token \<Rightarrow> u8 fset \<Rightarrow> nat \<Rightarrow> nat \<Rightarrow> match_result + sensor_error \<Rightarrow> core \<Rightarrow> step_result"
where
  "verify_result cfg token expected started retries r c =
     (let t = w_now (c_world c)
      in case verify_verdict (cf_threshold cfg) expected retries (t - started) r of
           Final status \<Rightarrow> (Some (VT (VT_end token (Some status))), c, [])
         | Retry_after_pause \<Rightarrow>
             (Some (VT (VT_sleep token expected started (Suc retries) (t + from_millis 100))), c,
              [Ev_signal (Verify_status ''verify-retry-scan'' False)])
         | Retry_at_once \<Rightarrow>
             (Some (VT (VT_check token expected started (Suc retries))), c,
              [Ev_signal (Verify_status ''verify-retry-scan'' False)]))"

fun verify_task_step :: "device_config \<Rightarrow> nat \<Rightarrow> verify_task \<Rightarrow> core \<Rightarrow> step_result" where
  "verify_task_step cfg i (VT_start token expected) c =
     (Some (VT (VT_check token expected (w_now (c_world c)) 0)), c, [])"
| "verify_task_step cfg i (VT_check token expected started retries) c =
     (if action (c_dev c) \<noteq> Some token then (Some (VT (VT_end token None)), c, [])
      else (case actor_send (Verify_req (Some i) i) c of
          (True, c') \<Rightarrow>
            (Some (VT (VT_wait token expected started retries)), c', [Ev_submit (Verify_req (Some i) i)])
        | (False, c') \<Rightarrow> verify_result cfg token expected started retries (Inr worker_gone) c'))"
| "verify_task_step cfg i (VT_wait token expected started retries) c =
     (Some (VT (VT_wait token expected started retries)), c, [])"
| "verify_task_step cfg i (VT_sleep token expected started retries until) c =
     (if w_now (c_world c) < until
      then (Some (VT (VT_sleep token expected started retries until)), c, [])
      else (Some (VT (VT_check token expected started retries)), c, []))"
| "verify_task_step cfg i (VT_end token status) c =
     (case (fst (end_action_if_owner token (c_dev c)), status) of
        (True, Some s) \<Rightarrow> (Some (VT (VT_emit s)), end_action token c, [])
      | _ \<Rightarrow> (None, return_permit (end_action token c), []))"
| "verify_task_step cfg i (VT_emit status) c =
     (None, return_permit c, [Ev_signal (Verify_status status True)])"

section \<open>EnrollStart and its task\<close>

fun enroll_start_step :: "enroll_call \<Rightarrow> core \<Rightarrow> step_result" where
  "enroll_start_step (EC_permit user finger) c =
     (if c_permits c = 0 then reply_to_caller (Err sensor_busy) c
      else (Some (EC (EC_mint user finger)), c\<lparr>c_permits := c_permits c - 1\<rparr>, []))"
| "enroll_start_step (EC_mint user finger) c =
     (case begin_action Enroll (c_dev c) of
        (Ok token, s) \<Rightarrow> (Some (EC (EC_slot token user finger)), c\<lparr>c_dev := s\<rparr>, [Ev_start token])
      | (Err e, s) \<Rightarrow> reply_to_caller (Err e) (return_permit c)
      | (Panic, s) \<Rightarrow> reply_to_caller Panic c)"
| "enroll_start_step (EC_slot token user finger) c =
     (case get_slot user finger (c_store c) of
        Some existing \<Rightarrow> (Some (EC (EC_hint token user finger existing)), c, [])
      | None \<Rightarrow> (Some (EC (EC_alloc token user finger)), c, []))"
| "enroll_start_step (EC_alloc token user finger) c =
     (case allocate_slot (c_store c) of
        Ok k \<Rightarrow> (Some (EC (EC_hint token user finger k)), c, [])
      | Err (NoFreeSlot _) \<Rightarrow>
          (Some (EC (EC_full token)), c, [Ev_signal (Enroll_status ''enroll-data-full'' True)])
      | Err e \<Rightarrow> reply_to_caller (Err (Internal ''storage'')) (return_permit (end_action token c))
      | Panic \<Rightarrow> reply_to_caller Panic c)"
| "enroll_start_step (EC_full token) c =
     reply_to_caller (Ok ()) (return_permit (end_action token c))"
| "enroll_start_step (EC_hint token user finger k) c =
     (Some (ET (ET_submit token user finger k)), on_dev hint_needed c, [Ev_return (Ok ())])"

fun enroll_task_step :: "device_config \<Rightarrow> nat \<Rightarrow> enroll_task \<Rightarrow> core \<Rightarrow> step_result" where
  "enroll_task_step cfg i (ET_submit token user finger k) c =
     (case actor_send (Enroll_req k (Some i) i) c of
        (True, c') \<Rightarrow> (Some (ET (ET_wait token user finger k)), c', [Ev_submit (Enroll_req k (Some i) i)])
      | (False, c') \<Rightarrow> (Some (ET (ET_end token user finger k (Some worker_gone))), c', []))"
| "enroll_task_step cfg i (ET_wait token user finger k) c =
     (Some (ET (ET_wait token user finger k)), c, [])"
| "enroll_task_step cfg i (ET_end token user finger k failure) c =
     (if fst (end_action_if_owner token (c_dev c))
      then (Some (ET (case failure of None \<Rightarrow> ET_store user finger k | Some e \<Rightarrow> ET_emit (enroll_status_of e))),
            end_action token c, [])
      else (None, return_permit c, []))"
| "enroll_task_step cfg i (ET_store user finger k) c =
     (case on_store (set_slot (cf_json cfg) user finger k) c of
        (Ok _, c') \<Rightarrow> (Some (ET (ET_emit ''enroll-completed'')), c', [Ev_stored user finger k])
      | (Err e, c') \<Rightarrow> (Some (ET (ET_emit ''enroll-failed'')), c', [Ev_stored user finger k])
      | (Panic, c') \<Rightarrow> (Some (ET (ET_store user finger k)), c', []))"
| "enroll_task_step cfg i (ET_emit status) c =
     (None, return_permit c, [Ev_signal (Enroll_status status True)])"

section \<open>The deletions\<close>

definition not_deleted :: fprint_error where
  "not_deleted = PrintsNotDeleted ''sensor delete failed''"

fun delete_finger_step :: "device_config \<Rightarrow> nat \<Rightarrow> delete_call \<Rightarrow> core \<Rightarrow> step_result" where
  "delete_finger_step cfg i (DC_find user finger) c =
     (case get_slot user finger (c_store c) of
        None \<Rightarrow> reply_to_caller (Err no_prints) c
      | Some k \<Rightarrow> (Some (DC (DC_gate user finger k)), c, []))"
| "delete_finger_step cfg i (DC_gate user finger k) c =
     (case begin_delete (c_dev c) of
        (Ok token, s) \<Rightarrow> (Some (DC (DC_submit token user finger k)), c\<lparr>c_dev := s\<rparr>, [Ev_start token])
      | (Err e, s) \<Rightarrow> reply_to_caller (Err e) c
      | (Panic, s) \<Rightarrow> reply_to_caller Panic c)"
| "delete_finger_step cfg i (DC_submit token user finger k) c =
     (case actor_send (Delete_req k i) c of
        (True, c') \<Rightarrow> (Some (DC (DC_wait token user finger k)), c', [Ev_submit (Delete_req k i)])
      | (False, c') \<Rightarrow> (Some (DC (DC_end token (Err not_deleted))), c', []))"
| "delete_finger_step cfg i (DC_wait token user finger k) c =
     (Some (DC (DC_wait token user finger k)), c, [])"
| "delete_finger_step cfg i (DC_remove token user finger k) c =
     (case on_store (remove_finger (cf_json cfg) user finger) c of
        (Ok _, c') \<Rightarrow> (Some (DC (DC_end token (Ok ()))), c', [Ev_removed user finger k])
      | (Err e, c') \<Rightarrow> (Some (DC (DC_end token (Err (Internal ''storage'')))), c', [Ev_removed user finger k])
      | (Panic, c') \<Rightarrow> (Some (DC (DC_remove token user finger k)), c', []))"
| "delete_finger_step cfg i (DC_end token r) c = reply_to_caller r (end_action token c)"

text \<open>
  \<open>delete_user_fingers\<close> inside the gate. The order in which a \<open>HashMap\<close> is iterated is not known:
  the scheduler names the next finger (\<open>pick\<close>).
\<close>

fun wipe_step :: "device_config \<Rightarrow> nat \<Rightarrow> str \<Rightarrow> wipe_call \<Rightarrow> core \<Rightarrow> step_result" where
  "wipe_step cfg i pick (WC_gate user) c =
     (case begin_delete (c_dev c) of
        (Ok token, s) \<Rightarrow> (Some (WC (WC_list token user)), c\<lparr>c_dev := s\<rparr>, [Ev_start token])
      | (Err e, s) \<Rightarrow> reply_to_caller (Err e) c
      | (Panic, s) \<Rightarrow> reply_to_caller Panic c)"
| "wipe_step cfg i pick (WC_list token user) c =
     (let entries = get_user_slots user (c_store c)
      in if fmdom entries = {||} then (Some (WC (WC_end token (Ok ()))), c, [])
         else (Some (WC (WC_next token user entries [] False)), c, []))"
| "wipe_step cfg i pick (WC_next token user entries succeeded failed) c =
     (if fmdom entries = {||} then (Some (WC (WC_remove token user succeeded failed)), c, [])
      else (case fmlookup entries pick of
          None \<Rightarrow> (Some (WC (WC_next token user entries succeeded failed)), c, [])
        | Some k \<Rightarrow>
            (case actor_send (Delete_req k i) c of
               (True, c') \<Rightarrow> (Some (WC (WC_wait token user pick k (fmdrop pick entries) succeeded failed)), c',
                  [Ev_submit (Delete_req k i)])
             | (False, c') \<Rightarrow> (Some (WC (WC_next token user (fmdrop pick entries) succeeded True)), c', []))))"
| "wipe_step cfg i pick (WC_wait token user finger k entries succeeded failed) c =
     (Some (WC (WC_wait token user finger k entries succeeded failed)), c, [])"
| "wipe_step cfg i pick (WC_remove token user ((finger, k) # rest) failed) c =
     (case on_store (remove_finger (cf_json cfg) user finger) c of
        (Ok _, c') \<Rightarrow> (Some (WC (WC_remove token user rest failed)), c', [Ev_removed user finger k])
      | (Err e, c') \<Rightarrow> (Some (WC (WC_remove token user rest True)), c', [Ev_removed user finger k])
      | (Panic, c') \<Rightarrow> (Some (WC (WC_remove token user ((finger, k) # rest) failed)), c', []))"
| "wipe_step cfg i pick (WC_remove token user [] failed) c =
     (Some (WC (WC_end token (if failed then Err (PrintsNotDeleted ''partial delete'') else Ok ()))), c, [])"
| "wipe_step cfg i pick (WC_end token r) c = reply_to_caller r (end_action token c)"

section \<open>What the sensor answers\<close>

text \<open>A worker that panics drops the sender of the reply: the receiver sees that it is gone.\<close>

fun as_match :: "(reply, sensor_error) result \<Rightarrow> match_result + sensor_error" where
  "as_match (Ok (R_match m)) = Inl m"
| "as_match (Err e) = Inr e"
| "as_match _ = Inr worker_gone"

fun as_failure :: "(reply, sensor_error) result \<Rightarrow> sensor_error option" where
  "as_failure (Ok _) = None"
| "as_failure (Err e) = Some e"
| "as_failure Panic = Some worker_gone"

text \<open>The kind of the reply is fixed by the type of the request's channel.\<close>

fun answers :: "sensor_request \<Rightarrow> (reply, sensor_error) result \<Rightarrow> bool" where
  "answers (Verify_req _ _) (Ok x) \<longleftrightarrow> (\<exists>m. x = R_match m)"
| "answers (Enroll_req _ _ _) (Ok x) \<longleftrightarrow> (\<exists>k. x = R_slot k)"
| "answers (Delete_req _ _) (Ok x) \<longleftrightarrow> (\<exists>k. x = R_slot k)"
| "answers _ _ \<longleftrightarrow> True"

fun resume :: "device_config \<Rightarrow> task \<Rightarrow> (reply, sensor_error) result \<Rightarrow> core \<Rightarrow> step_result option" where
  "resume cfg (VT (VT_wait token expected started retries)) r c =
     Some (verify_result cfg token expected started retries (as_match r) c)"
| "resume cfg (ET (ET_wait token user finger k)) r c =
     Some (Some (ET (ET_end token user finger k (as_failure r))), c, [])"
| "resume cfg (DC (DC_wait token user finger k)) r c =
     Some (Some (DC (if as_failure r = None then DC_remove token user finger k
                     else DC_end token (Err not_deleted))), c, [])"
| "resume cfg (WC (WC_wait token user finger k entries succeeded failed)) r c =
     Some (Some (WC (if as_failure r = None
                     then WC_next token user entries (succeeded @ [(finger, k)]) failed
                     else WC_next token user entries succeeded True)), c, [])"
| "resume cfg _ r c = None"

text \<open>A progress line reaches the task that waits for the capture, or drains its channel.\<close>

fun listens :: "task \<Rightarrow> bool" where
  "listens (VT (VT_wait _ _ _ _)) \<longleftrightarrow> True"
| "listens (VT (VT_end _ _)) \<longleftrightarrow> True"
| "listens (ET (ET_wait _ _ _ _)) \<longleftrightarrow> True"
| "listens (ET (ET_end _ _ _ _ _)) \<longleftrightarrow> True"
| "listens _ \<longleftrightarrow> False"

fun progress_events :: "task \<Rightarrow> str \<Rightarrow> event list" where
  "progress_events (ET (ET_wait _ _ _ _)) msg =
     (if stage_passed msg then [Ev_signal (Enroll_status ''enroll-stage-passed'' False)] else [])"
| "progress_events _ msg = []"

section \<open>The methods of the bus\<close>

datatype bus_method =
    Claim str
  | Release
  | VerifyStart str
  | VerifyStop
  | EnrollStart str
  | EnrollStop
  | DeleteEnrolledFinger str
  | DeleteEnrolledFingers str
  | DeleteEnrolledFingers2

text \<open>The first lines of every method, up to the first point where it waits.\<close>

definition go_on :: "('a, fprint_error) result \<Rightarrow> ('a \<Rightarrow> task) \<Rightarrow> core \<Rightarrow> step_result" where
  "go_on r k c =
     (case r of
        Ok x \<Rightarrow> (Some (k x), c, [])
      | Err e \<Rightarrow> reply_to_caller (Err e) c
      | Panic \<Rightarrow> reply_to_caller Panic c)"

fun enter_method :: "bus \<Rightarrow> str option \<Rightarrow> bus_method \<Rightarrow> core \<Rightarrow> step_result" where
  "enter_method B sender (Claim name) c =
     go_on (authorize_username B sender name) (Claim_call sender) c"
| "enter_method B sender Release c =
     (case release_device sender (c_dev c) of (r, s) \<Rightarrow> reply_to_caller r (c\<lparr>c_dev := s\<rparr>))"
| "enter_method B sender (VerifyStart finger) c =
     go_on (bind_r (validate_finger finger True) (\<lambda>_. ensure_claim sender (c_dev c)))
       (\<lambda>user. VC (VC_permit user finger)) c"
| "enter_method B sender VerifyStop c =
     go_on (ensure_claim sender (c_dev c)) (\<lambda>_. Stop_call Verify) c"
| "enter_method B sender (EnrollStart finger) c =
     go_on (bind_r (validate_finger finger False) (\<lambda>_. ensure_claim sender (c_dev c)))
       (\<lambda>user. EC (EC_permit user finger)) c"
| "enter_method B sender EnrollStop c =
     go_on (ensure_claim sender (c_dev c)) (\<lambda>_. Stop_call Enroll) c"
| "enter_method B sender (DeleteEnrolledFinger finger) c =
     go_on (bind_r (validate_finger finger False) (\<lambda>_. ensure_claim sender (c_dev c)))
       (\<lambda>user. DC (DC_find user finger)) c"
| "enter_method B sender (DeleteEnrolledFingers name) c =
     go_on (authorize_username B sender name) (\<lambda>user. WC (WC_gate user)) c"
| "enter_method B sender DeleteEnrolledFingers2 c =
     go_on (ensure_claim sender (c_dev c)) (\<lambda>user. WC (WC_gate user)) c"

definition list_enrolled_fingers ::
  "bus \<Rightarrow> str option \<Rightarrow> str \<Rightarrow> storage \<Rightarrow> (str list, fprint_error) result"
where
  "list_enrolled_fingers B sender name st =
     bind_r (authorize_username B sender name) (\<lambda>user.
       let fingers = list_fingers user st
       in if fingers = [] then Err no_prints else Ok fingers)"

fun run_task :: "device_config \<Rightarrow> nat \<Rightarrow> str \<Rightarrow> task \<Rightarrow> core \<Rightarrow> step_result" where
  "run_task cfg i pick (Claim_call sender user) c =
     (case claim_device sender user (c_dev c) of (r, s) \<Rightarrow> reply_to_caller r (c\<lparr>c_dev := s\<rparr>))"
| "run_task cfg i pick (Stop_call kind) c =
     (case stop_action kind (c_dev c) of (r, s) \<Rightarrow> reply_to_caller r (c\<lparr>c_dev := s\<rparr>))"
| "run_task cfg i pick (VC t) c = verify_start_step t c"
| "run_task cfg i pick (VT t) c = verify_task_step cfg i t c"
| "run_task cfg i pick (EC t) c = enroll_start_step t c"
| "run_task cfg i pick (ET t) c = enroll_task_step cfg i t c"
| "run_task cfg i pick (DC t) c = delete_finger_step cfg i t c"
| "run_task cfg i pick (WC t) c = wipe_step cfg i pick t c"

section \<open>All tasks together\<close>

record device =
  dv_core :: core
  dv_tasks :: "nat \<Rightarrow> task option"
  dv_next :: nat
  dv_trace :: "(nat \<times> event) list"

definition put_task :: "nat \<Rightarrow> event list \<Rightarrow> step_result \<Rightarrow> device \<Rightarrow> device" where
  "put_task i before res d =
     (case res of (t, c, evs) \<Rightarrow>
        d\<lparr>dv_core := c, dv_tasks := (dv_tasks d)(i := t),
          dv_trace := dv_trace d @ map (Pair i) (before @ evs)\<rparr>)"

inductive dev_step :: "device_config \<Rightarrow> device \<Rightarrow> device \<Rightarrow> bool" for cfg where
  Call: "dev_step cfg d
    (put_task (dv_next d) [] (enter_method (cf_bus cfg) (Some sender) m (dv_core d))
      (d\<lparr>dv_next := Suc (dv_next d)\<rparr>))"
| Run: "dv_tasks d i = Some t \<Longrightarrow>
    dev_step cfg d (put_task i [] (run_task cfg i pick t (dv_core d)) d)"
| Answer: "c_alive (dv_core d) \<Longrightarrow> c_queue (dv_core d) = req # rest \<Longrightarrow> answers req r \<Longrightarrow>
    dv_tasks d (req_done req) = Some t \<Longrightarrow>
    resume cfg t r ((dv_core d)\<lparr>c_queue := rest\<rparr>) = Some res \<Longrightarrow>
    dev_step cfg d (put_task (req_done req) [Ev_answer req r] res d)"
| Lost: "\<not> c_alive (dv_core d) \<Longrightarrow> c_queue (dv_core d) = req # rest \<Longrightarrow>
    dv_tasks d (req_done req) = Some t \<Longrightarrow>
    resume cfg t (Err worker_gone) ((dv_core d)\<lparr>c_queue := rest\<rparr>) = Some res \<Longrightarrow>
    dev_step cfg d (put_task (req_done req) [Ev_answer req (Err worker_gone)] res d)"
| Worker_dies: "dev_step cfg d (d\<lparr>dv_core := (dv_core d)\<lparr>c_alive := False\<rparr>\<rparr>)"
| Progress: "dv_tasks d i = Some t \<Longrightarrow> listens t \<Longrightarrow>
    dev_step cfg d (put_task i [] (Some t, on_dev (update_finger_state msg) (dv_core d), progress_events t msg) d)"
| Disconnect: "dev_step cfg d (d\<lparr>dv_core := on_dev (handle_client_disconnect name) (dv_core d)\<rparr>)"
| Time: "w_now (c_world (dv_core d)) \<le> t \<Longrightarrow>
    dev_step cfg d (d\<lparr>dv_core := (dv_core d)\<lparr>c_world := (c_world (dv_core d))\<lparr>w_now := t\<rparr>\<rparr>\<rparr>)"

text \<open>A fresh device over a registry and a world, and what it can become.\<close>

definition device_new :: "storage \<Rightarrow> world \<Rightarrow> device" where
  "device_new st w =
     \<lparr>dv_core = \<lparr>c_dev = device_default, c_permits = 1, c_store = st, c_world = w, c_queue = [], c_alive = True\<rparr>,
      dv_tasks = Map.empty, dv_next = 0, dv_trace = []\<rparr>"

inductive reachable :: "device_config \<Rightarrow> storage \<Rightarrow> world \<Rightarrow> device \<Rightarrow> bool" for cfg st w where
  Start: "reachable cfg st w (device_new st w)"
| Step: "reachable cfg st w d \<Longrightarrow> dev_step cfg d d' \<Longrightarrow> reachable cfg st w d'"

inductive_cases dev_stepE: "dev_step cfg d d'"

end
