(* ===== verification/Device_Reach.thy ===== *)
theory Device_Reach
  imports Device_Tasks
begin

text \<open>
  How the device moves: every step is one move of one task (\<open>micro\<close>) or a change of the shared
  objects that no task makes (\<open>ambient\<close>). The induction rule at the end is the form in which every
  invariant of \<open>Device_Safety\<close> is proved.
\<close>

section \<open>Moves\<close>

inductive micro :: "device_config \<Rightarrow> nat \<Rightarrow> task option \<Rightarrow> core \<Rightarrow> step_result \<Rightarrow> bool" for cfg i where
  M_call: "micro cfg i None c (enter_method (cf_bus cfg) (Some sender) m c)"
| M_run: "micro cfg i (Some t) c (run_task cfg i pick t c)"
| M_answer: "c_queue c = req # rest \<Longrightarrow> req_done req = i \<Longrightarrow> answers req r \<Longrightarrow>
    resume cfg t r (c\<lparr>c_queue := rest\<rparr>) = Some (t', c', evs) \<Longrightarrow>
    micro cfg i (Some t) c (t', c', Ev_answer req r # evs)"
| M_progress: "listens t \<Longrightarrow>
    micro cfg i (Some t) c (Some t, on_dev (update_finger_state msg) c, progress_events t msg)"

inductive ambient :: "core \<Rightarrow> core \<Rightarrow> bool" where
  A_worker: "ambient c (c\<lparr>c_alive := False\<rparr>)"
| A_disconnect: "ambient c (on_dev (handle_client_disconnect name) c)"
| A_time: "ambient c (c\<lparr>c_world := (c_world c)\<lparr>w_now := t\<rparr>\<rparr>)"

text \<open>The device after a move.\<close>

definition moved :: "nat \<Rightarrow> nat \<Rightarrow> step_result \<Rightarrow> device \<Rightarrow> device" where
  "moved n i res d =
     (case res of (t, c, evs) \<Rightarrow>
        \<lparr>dv_core = c, dv_tasks = (dv_tasks d)(i := t), dv_next = n,
         dv_trace = dv_trace d @ map (Pair i) evs\<rparr>)"

lemma moved_simps [simp]:
  "dv_core (moved n i (t, c, evs) d) = c"
  "dv_tasks (moved n i (t, c, evs) d) = (dv_tasks d)(i := t)"
  "dv_next (moved n i (t, c, evs) d) = n"
  "dv_trace (moved n i (t, c, evs) d) = dv_trace d @ map (Pair i) evs"
  by (simp_all add: moved_def)

lemma put_task_moved: "put_task i before (t, c, evs) d = moved (dv_next d) i (t, c, before @ evs) d"
  by (simp add: put_task_def moved_def)

lemma answers_Err [simp]: "answers req (Err e)"
  by (cases req) simp_all

text \<open>Task numbers are fresh.\<close>

definition fresh_inv :: "device \<Rightarrow> bool" where
  "fresh_inv d \<longleftrightarrow> (\<forall>i. dv_next d \<le> i \<longrightarrow> dv_tasks d i = None \<and> (\<forall>e. (i, e) \<notin> set (dv_trace d)))"

lemma fresh_tasks: "fresh_inv d \<Longrightarrow> dv_tasks d i = Some t \<Longrightarrow> i < dv_next d"
  unfolding fresh_inv_def by (metis not_le option.distinct(1))

lemma dev_step_moves:
  assumes "dev_step cfg d d'" "fresh_inv d"
  shows "(\<exists>i n res. micro cfg i (dv_tasks d i) (dv_core d) res \<and> d' = moved n i res d
            \<and> i < n \<and> dv_next d \<le> n \<and> (dv_tasks d i = None \<longrightarrow> i = dv_next d))
    \<or> (\<exists>c. ambient (dv_core d) c \<and> d' = d\<lparr>dv_core := c\<rparr>)"
  using assms(1)
proof cases
  have new: "dv_tasks d (dv_next d) = None" using assms(2) by (simp add: fresh_inv_def)
  case (Call sender m)
  obtain t c evs where e: "enter_method (cf_bus cfg) (Some sender) m (dv_core d) = (t, c, evs)"
    by (metis prod_cases3)
  have "micro cfg (dv_next d) (dv_tasks d (dv_next d)) (dv_core d) (t, c, evs)"
    unfolding new e [symmetric] by (rule M_call)
  with Call e show ?thesis
    by (intro disjI1 exI [of _ "dv_next d"] exI [of _ "Suc (dv_next d)"] exI [of _ "(t, c, evs)"])
      (simp add: put_task_moved moved_def)
next
  case (Run i t pick)
  then show ?thesis
    using M_run [of cfg i t "dv_core d" pick] fresh_tasks [OF assms(2), of i t]
    by (intro disjI1 exI [of _ i] exI [of _ "dv_next d"] exI [of _ "run_task cfg i pick t (dv_core d)"])
      (cases "run_task cfg i pick t (dv_core d)", simp add: put_task_moved)
next
  case (Answer req rest r t res)
  obtain t' c evs where res: "res = (t', c, evs)" by (metis prod_cases3)
  from Answer show ?thesis
    using M_answer [of "dv_core d" req rest "req_done req" r cfg t t' c evs] fresh_tasks [OF assms(2), of "req_done req" t]
    by (intro disjI1 exI [of _ "req_done req"] exI [of _ "dv_next d"] exI [of _ "(t', c, Ev_answer req r # evs)"])
      (simp add: put_task_moved res)
next
  case (Lost req rest t res)
  obtain t' c evs where res: "res = (t', c, evs)" by (metis prod_cases3)
  from Lost show ?thesis
    using M_answer [of "dv_core d" req rest "req_done req" "Err worker_gone" cfg t t' c evs]
      fresh_tasks [OF assms(2), of "req_done req" t]
    by (intro disjI1 exI [of _ "req_done req"] exI [of _ "dv_next d"]
        exI [of _ "(t', c, Ev_answer req (Err worker_gone) # evs)"])
      (simp add: put_task_moved res)
next
  case Worker_dies
  then show ?thesis using A_worker by blast
next
  case (Progress i t msg)
  then show ?thesis
    using M_progress [of t cfg i "dv_core d" msg] fresh_tasks [OF assms(2), of i t]
    by (intro disjI1 exI [of _ i] exI [of _ "dv_next d"]
        exI [of _ "(Some t, on_dev (update_finger_state msg) (dv_core d), progress_events t msg)"])
      (simp add: put_task_moved)
next
  case (Disconnect name)
  then show ?thesis using A_disconnect by blast
next
  case (Time t)
  then show ?thesis using A_time by blast
qed

lemma moved_fresh: "fresh_inv d \<Longrightarrow> i < n \<Longrightarrow> dv_next d \<le> n \<Longrightarrow> fresh_inv (moved n i res d)"
  by (cases res) (auto simp: fresh_inv_def)

lemma reachable_fresh: "reachable cfg st w d \<Longrightarrow> fresh_inv d"
proof (induction rule: reachable.induct)
  case Start
  show ?case by (simp add: fresh_inv_def device_new_def)
next
  case (Step d d')
  from dev_step_moves [OF Step.hyps(2) Step.IH] show ?case
  proof (elim disjE exE conjE)
    fix i n res
    assume "d' = moved n i res d" "i < n" "dv_next d \<le> n"
    then show ?thesis using moved_fresh [OF Step.IH] by simp
  next
    fix c assume "d' = d\<lparr>dv_core := c\<rparr>"
    then show ?thesis using Step.IH by (simp add: fresh_inv_def)
  qed
qed

lemma reachable_moves [consumes 1, case_names start move ambient]:
  assumes "reachable cfg st w d"
    and start: "P (device_new st w)"
    and move: "\<And>d i n t c evs. reachable cfg st w d \<Longrightarrow> P d \<Longrightarrow> fresh_inv d
      \<Longrightarrow> micro cfg i (dv_tasks d i) (dv_core d) (t, c, evs) \<Longrightarrow> (dv_tasks d i = None \<Longrightarrow> i = dv_next d)
      \<Longrightarrow> P (moved n i (t, c, evs) d)"
    and ambient: "\<And>d c. reachable cfg st w d \<Longrightarrow> P d \<Longrightarrow> ambient (dv_core d) c \<Longrightarrow> P (d\<lparr>dv_core := c\<rparr>)"
  shows "P d"
  using assms(1)
proof (induction rule: reachable.induct)
  case Start
  show ?case by (rule start)
next
  case (Step d d')
  note f = reachable_fresh [OF Step.hyps(1)]
  from dev_step_moves [OF Step.hyps(2) f] show ?case
  proof (elim disjE exE conjE)
    fix i n res
    assume "micro cfg i (dv_tasks d i) (dv_core d) res" "d' = moved n i res d"
      "dv_tasks d i = None \<longrightarrow> i = dv_next d"
    then show ?thesis
      using move [OF Step.hyps(1) Step.IH f, of i] by (cases res) auto
  next
    fix c assume "ambient (dv_core d) c" "d' = d\<lparr>dv_core := c\<rparr>"
    then show ?thesis using ambient [OF Step.hyps(1) Step.IH] by auto
  qed
qed

end
