(* ===== verification/Device_Safety.thy ===== *)
theory Device_Safety
  imports Device_Reach
begin

text \<open>
  What holds of the device however its tasks interleave: one capture at a time, every request of the
  queue has the task that waits for it, the action slot always has an owner, and a token has one.
  Each invariant is a lemma on one move (\<open>micro_...\<close>), by cases on the program counter, and an
  induction over \<open>reachable_moves\<close>.
\<close>

section \<open>Reading program counters\<close>

fun token_of :: "task \<Rightarrow> action_token option" where
  "token_of (Claim_call _ _) = None"
| "token_of (Stop_call _) = None"
| "token_of (VC (VC_permit _ _)) = None"
| "token_of (VC (VC_mint _ _)) = None"
| "token_of (VC (VC_slots token _ _ _)) = Some token"
| "token_of (VC (VC_hint token _)) = Some token"
| "token_of (VT (VT_start token _)) = Some token"
| "token_of (VT (VT_check token _ _ _)) = Some token"
| "token_of (VT (VT_wait token _ _ _)) = Some token"
| "token_of (VT (VT_sleep token _ _ _ _)) = Some token"
| "token_of (VT (VT_end token _)) = Some token"
| "token_of (VT (VT_emit _)) = None"
| "token_of (EC (EC_permit _ _)) = None"
| "token_of (EC (EC_mint _ _)) = None"
| "token_of (EC (EC_slot token _ _)) = Some token"
| "token_of (EC (EC_alloc token _ _)) = Some token"
| "token_of (EC (EC_full token)) = Some token"
| "token_of (EC (EC_hint token _ _ _)) = Some token"
| "token_of (ET (ET_submit token _ _ _)) = Some token"
| "token_of (ET (ET_wait token _ _ _)) = Some token"
| "token_of (ET (ET_end token _ _ _ _)) = Some token"
| "token_of (ET (ET_store _ _ _)) = None"
| "token_of (ET (ET_emit _)) = None"
| "token_of (DC (DC_find _ _)) = None"
| "token_of (DC (DC_gate _ _ _)) = None"
| "token_of (DC (DC_submit token _ _ _)) = Some token"
| "token_of (DC (DC_wait token _ _ _)) = Some token"
| "token_of (DC (DC_remove token _ _ _)) = Some token"
| "token_of (DC (DC_end token _)) = Some token"
| "token_of (WC (WC_gate _)) = None"
| "token_of (WC (WC_list token _)) = Some token"
| "token_of (WC (WC_next token _ _ _ _)) = Some token"
| "token_of (WC (WC_wait token _ _ _ _ _ _)) = Some token"
| "token_of (WC (WC_remove token _ [] _)) = Some token"
| "token_of (WC (WC_remove token _ ((finger, k) # rest) _)) = Some token"
| "token_of (WC (WC_end token _)) = Some token"

lemma token_of_remove [simp]: "token_of (WC (WC_remove token user succeeded failed)) = Some token"
  by (cases succeeded) auto

text \<open>Its patterns are all program counters: the case rule of the proofs below.\<close>

lemmas task_cases = token_of.cases

lemmas step_defs = go_on_def reply_to_caller_def return_permit_def end_action_def on_dev_def
  begin_action_def begin_delete_def start_action_def actor_send_def on_store_def verify_result_def
  Let_def

lemmas gate_defs = end_action_if_owner_def clear_action_def release_device_def claim_device_def
  stop_action_def hint_needed_def update_finger_state_def handle_client_disconnect_def

lemmas step_splits = if_splits prod.splits option.splits result.splits verdict.splits storage_error.splits
  bool.splits

lemma allocate_slot_not_Panic [simp]: "allocate_slot st \<noteq> Panic"
  by (simp add: allocate_slot_def)

section \<open>One capture at a time\<close>

fun holds_permit :: "task \<Rightarrow> bool" where
  "holds_permit (VC (VC_permit _ _)) \<longleftrightarrow> False"
| "holds_permit (VC _) \<longleftrightarrow> True"
| "holds_permit (VT _) \<longleftrightarrow> True"
| "holds_permit (EC (EC_permit _ _)) \<longleftrightarrow> False"
| "holds_permit (EC _) \<longleftrightarrow> True"
| "holds_permit (ET _) \<longleftrightarrow> True"
| "holds_permit _ \<longleftrightarrow> False"

definition weight :: "task option \<Rightarrow> nat" where
  "weight t = (case t of Some t \<Rightarrow> if holds_permit t then 1 else 0 | None \<Rightarrow> 0)"

lemma weight_simps [simp]: "weight None = 0" "weight (Some t) = (if holds_permit t then 1 else 0)"
  by (simp_all add: weight_def)

lemma micro_permits:
  assumes "micro cfg i t0 c (t, c', evs)"
  shows "c_permits c' + weight t = c_permits c + weight t0"
  using assms
proof cases
  case (M_call sender m)
  then show ?thesis by (cases m) (auto simp: step_defs split: step_splits)
next
  case (M_run u pick)
  then show ?thesis by (cases u rule: task_cases) (auto simp: step_defs split: step_splits)
next
  case (M_answer req rest r u evs')
  then show ?thesis by (cases u rule: task_cases) (auto simp: step_defs split: step_splits)
next
  case (M_progress t msg)
  then show ?thesis by (auto simp: on_dev_def)
qed

definition holders :: "device \<Rightarrow> nat set" where
  "holders d = {i. weight (dv_tasks d i) = 1}"

lemma holders_moved:
  "holders (moved n i (t, c, evs) d) = holders d - {i} \<union> (if weight t = 1 then {i} else {})"
  by (auto simp: holders_def)

lemma ambient_permits: "ambient c c' \<Longrightarrow> c_permits c' = c_permits c"
  by (auto elim!: ambient.cases simp: on_dev_def)

lemma permits_conserved:
  "reachable cfg st w d \<Longrightarrow> finite (holders d) \<and> c_permits (dv_core d) + card (holders d) = 1"
proof (induction rule: reachable_moves)
  case start
  show ?case by (simp add: holders_def device_new_def)
next
  case (move d i n t c evs)
  have w: "weight u = 0 \<or> weight u = 1" for u by (cases u) auto
  have "card (holders d) = card (holders d - {i}) + weight (dv_tasks d i)"
    using move.IH w [of "dv_tasks d i"] card.remove [of "holders d" i] by (auto simp: holders_def)
  moreover have "card (holders (moved n i (t, c, evs) d)) = card (holders d - {i}) + weight t"
    using move.IH w [of t] by (auto simp: holders_moved card.insert_remove)
  ultimately show ?case
    using move.IH micro_permits [OF move.hyps(3)] by (simp add: holders_moved)
next
  case (ambient d c)
  then show ?case by (simp add: ambient_permits holders_def)
qed

lemma one_holder:
  assumes "reachable cfg st w d" "dv_tasks d i = Some t" "holds_permit t" "dv_tasks d j = Some u" "holds_permit u"
  shows "i = j"
proof -
  have f: "finite (holders d)" "card (holders d) \<le> 1" using permits_conserved [OF assms(1)] by auto
  have "i \<in> holders d" "j \<in> holders d" using assms by (simp_all add: holders_def)
  with f show ?thesis by (metis card_le_Suc0_iff_eq One_nat_def)
qed

section \<open>The queue of the worker\<close>

fun waits_for :: "task option \<Rightarrow> sensor_request \<Rightarrow> bool" where
  "waits_for (Some (VT (VT_wait _ _ _ _))) req \<longleftrightarrow> (\<exists>p i. req = Verify_req p i)"
| "waits_for (Some (ET (ET_wait _ _ _ k))) req \<longleftrightarrow> (\<exists>p i. req = Enroll_req k p i)"
| "waits_for (Some (DC (DC_wait _ _ _ k))) req \<longleftrightarrow> (\<exists>i. req = Delete_req k i)"
| "waits_for (Some (WC (WC_wait _ _ _ k _ _ _))) req \<longleftrightarrow> (\<exists>i. req = Delete_req k i)"
| "waits_for _ req \<longleftrightarrow> False"

definition queue_ok :: "device \<Rightarrow> bool" where
  "queue_ok d \<longleftrightarrow> distinct (map req_done (c_queue (dv_core d)))
     \<and> (\<forall>req \<in> set (c_queue (dv_core d)). waits_for (dv_tasks d (req_done req)) req)
     \<and> (\<forall>i req. waits_for (dv_tasks d i) req \<longrightarrow> i \<in> req_done ` set (c_queue (dv_core d)))"

text \<open>A move leaves the queue alone, appends the request it then waits for, or takes its answer.\<close>

lemma micro_queue:
  assumes "micro cfg i t0 c (t, c', evs)"
  shows "(c_queue c' = c_queue c \<and> waits_for t = waits_for t0)
    \<or> (\<exists>req. c_queue c' = c_queue c @ [req] \<and> req_done req = i \<and> waits_for t req \<and> (\<forall>r. \<not> waits_for t0 r))
    \<or> (\<exists>req. c_queue c = req # c_queue c' \<and> req_done req = i \<and> (\<forall>r. \<not> waits_for t r))"
  using assms
proof cases
  case (M_call sender m)
  then show ?thesis by (cases m) (auto simp: step_defs fun_eq_iff split: step_splits)
next
  case (M_run u pick)
  then show ?thesis by (cases u rule: task_cases) (auto simp: step_defs fun_eq_iff split: step_splits)
next
  case (M_answer req rest r u evs')
  then show ?thesis by (cases u rule: task_cases) (auto simp: step_defs fun_eq_iff split: step_splits)
next
  case (M_progress t msg)
  then show ?thesis by (auto simp: on_dev_def)
qed

lemma ambient_queue: "ambient c c' \<Longrightarrow> c_queue c' = c_queue c"
  by (auto elim!: ambient.cases simp: on_dev_def)

lemma queue_ok_reachable: "reachable cfg st w d \<Longrightarrow> queue_ok d"
proof (induction rule: reachable_moves)
  case start
  show ?case by (simp add: queue_ok_def device_new_def)
next
  case (move d i n t c evs)
  from micro_queue [OF move.hyps(3)] show ?case
  proof (elim disjE exE conjE)
    assume "c_queue c = c_queue (dv_core d)" "waits_for t = waits_for (dv_tasks d i)"
    then show ?thesis using move.IH by (auto simp: queue_ok_def)
  next
    fix req assume r: "c_queue c = c_queue (dv_core d) @ [req]" "req_done req = i" "waits_for t req"
      "\<forall>r. \<not> waits_for (dv_tasks d i) r"
    then have "i \<notin> req_done ` set (c_queue (dv_core d))" using move.IH by (auto simp: queue_ok_def)
    with r move.IH show ?thesis by (auto simp: queue_ok_def)
  next
    fix req assume "c_queue (dv_core d) = req # c_queue c" "req_done req = i" "\<forall>r. \<not> waits_for t r"
    moreover from this move.IH have "i \<notin> req_done ` set (c_queue c)"
      by (simp add: queue_ok_def)
    then have "\<forall>r\<in>set (c_queue c). req_done r \<noteq> i" by blast
    ultimately show ?thesis using move.IH by (simp add: queue_ok_def) blast
  qed
next
  case (ambient d c)
  then show ?case by (simp add: queue_ok_def ambient_queue)
qed

fun is_capture :: "sensor_request \<Rightarrow> bool" where
  "is_capture (Enroll_req _ _ _) \<longleftrightarrow> True"
| "is_capture (Verify_req _ _) \<longleftrightarrow> True"
| "is_capture (Identify_req _ _) \<longleftrightarrow> True"
| "is_capture _ \<longleftrightarrow> False"

lemma capture_holds:
  "waits_for t0 req \<Longrightarrow> is_capture req \<Longrightarrow> \<exists>t. t0 = Some t \<and> holds_permit t"
proof (cases t0)
  case (Some u)
  then show "waits_for t0 req \<Longrightarrow> is_capture req \<Longrightarrow> \<exists>t. t0 = Some t \<and> holds_permit t"
    by (cases u rule: task_cases) auto
qed simp

lemma at_most_one:
  assumes "distinct (map f xs)" "\<And>x y. x \<in> set xs \<Longrightarrow> y \<in> set xs \<Longrightarrow> P x \<Longrightarrow> P y \<Longrightarrow> f x = f y"
  shows "length (filter P xs) \<le> 1"
  using assms
proof (induction xs)
  case (Cons a xs)
  then have l: "length (filter P xs) \<le> 1" by simp
  show ?case
  proof (cases "P a")
    case True
    have "\<not> P x" if "x \<in> set xs" for x
    proof
      assume "P x"
      then have "f a = f x" using Cons.prems(2) [of a x] True that by simp
      with Cons.prems(1) that show False by simp
    qed
    then show ?thesis by (simp add: filter_empty_conv)
  qed (use l in simp)
qed simp

text \<open>
  Claim C2. One capture at a time: however calls, stops, releases, disconnects and restarts
  interleave, the tasks and calls that hold the capture permit are at most one, the permit is free
  exactly when there is none, and at most one capture is queued at the sensor worker.
\<close>

theorem one_capture:
  assumes "reachable cfg st w d"
  shows "(\<forall>i j t u. dv_tasks d i = Some t \<and> holds_permit t \<and> dv_tasks d j = Some u \<and> holds_permit u \<longrightarrow> i = j)
    \<and> (c_permits (dv_core d) = 1 \<longleftrightarrow> (\<forall>i t. dv_tasks d i = Some t \<longrightarrow> \<not> holds_permit t))
    \<and> length (filter is_capture (c_queue (dv_core d))) \<le> 1"
proof (intro conjI)
  show "\<forall>i j t u. dv_tasks d i = Some t \<and> holds_permit t \<and> dv_tasks d j = Some u \<and> holds_permit u \<longrightarrow> i = j"
    using one_holder [OF assms] by blast
  have "c_permits (dv_core d) = 1 \<longleftrightarrow> holders d = {}"
    using permits_conserved [OF assms] by auto
  then show "c_permits (dv_core d) = 1 \<longleftrightarrow> (\<forall>i t. dv_tasks d i = Some t \<longrightarrow> \<not> holds_permit t)"
    by (auto simp: holders_def weight_def split: option.splits if_splits)
  note q = queue_ok_reachable [OF assms, unfolded queue_ok_def]
  show "length (filter is_capture (c_queue (dv_core d))) \<le> 1"
  proof (rule at_most_one)
    show "distinct (map req_done (c_queue (dv_core d)))" using q by blast
    fix x y assume "x \<in> set (c_queue (dv_core d))" "y \<in> set (c_queue (dv_core d))" "is_capture x" "is_capture y"
    then show "req_done x = req_done y"
      using q capture_holds one_holder [OF assms] by metis
  qed
qed

end
