(* ===== verification/Device_History.thy ===== *)
theory Device_History
  imports Device_Safety
begin

text \<open>
  What a task has done: properties of the events of one task together with its program counter. The
  locale \<open>task_history\<close> is the contract: a property of a fresh number that every move of the task
  keeps holds of every task of every reachable device. It is interpreted three times: a verification
  reports a match only on a match, it asks the sensor at most six times, and the registry changes
  only after the sensor did.
\<close>

section \<open>The history of a task\<close>

definition hist :: "nat \<Rightarrow> (nat \<times> event) list \<Rightarrow> event list" where
  "hist i tr = map snd (filter (\<lambda>(j, e). j = i) tr)"

lemma hist_simps [simp]:
  "hist i [] = []" "hist i (a @ b) = hist i a @ hist i b" "hist i (map (Pair i) evs) = evs"
  "j \<noteq> i \<Longrightarrow> hist i (map (Pair j) evs) = []"
  by (simp_all add: hist_def comp_def filter_map)

lemma hist_iff: "e \<in> set (hist i tr) \<longleftrightarrow> (i, e) \<in> set tr"
  by (force simp: hist_def)

lemma micro_answered:
  assumes "micro cfg i t0 c (t, c', evs)" "Ev_answer req r \<in> set evs"
  shows "req \<in> set (c_queue c) \<and> req_done req = i"
  using assms
proof cases
  case (M_call sender m)
  then show ?thesis using assms(2) by (cases m) (auto simp: step_defs split: step_splits)
next
  case (M_run u pick)
  then show ?thesis using assms(2) by (cases u rule: task_cases) (auto simp: step_defs split: step_splits)
next
  case (M_answer req rest r u evs')
  then show ?thesis using assms(2) by (cases u rule: task_cases) (auto simp: step_defs split: step_splits)
next
  case (M_progress u msg)
  then show ?thesis using assms(2) by (cases u rule: task_cases) (auto split: if_splits)
qed

lemma answered_own:
  assumes "reachable cfg st w d" "(i, Ev_answer req r) \<in> set (dv_trace d)"
  shows "req_done req = i"
  using assms
proof (induction rule: reachable_moves)
  case start
  then show ?case by (simp add: device_new_def)
next
  case (move d j n t c evs)
  then show ?case using micro_answered [OF move.hyps(3)] by auto
qed simp

locale task_history =
  fixes cfg :: device_config and J :: "nat \<Rightarrow> event list \<Rightarrow> task option \<Rightarrow> bool"
  assumes fresh: "J i [] None"
    and step: "J i h t0 \<Longrightarrow> (t0 = None \<Longrightarrow> h = []) \<Longrightarrow> micro cfg i t0 c (t, c', evs)
      \<Longrightarrow> (\<And>req r. Ev_answer req r \<in> set evs \<Longrightarrow> waits_for t0 req) \<Longrightarrow> J i (h @ evs) t"
begin

lemma history: "reachable cfg st w d \<Longrightarrow> \<forall>i. J i (hist i (dv_trace d)) (dv_tasks d i)"
proof (induction rule: reachable_moves)
  case start
  show ?case by (simp add: device_new_def fresh)
next
  case (move d i n t c evs)
  have "hist i (dv_trace d) = []" if "dv_tasks d i = None"
  proof -
    have "\<forall>e. (i, e) \<notin> set (dv_trace d)"
      using move.hyps(2) move.hyps(4) [OF that] by (simp add: fresh_inv_def)
    then show ?thesis by (auto simp: hist_def filter_empty_conv)
  qed
  moreover have "waits_for (dv_tasks d i) req" if "Ev_answer req r \<in> set evs" for req r
    using micro_answered [OF move.hyps(3) that] queue_ok_reachable [OF move.hyps(1)]
    by (auto simp: queue_ok_def)
  ultimately have "J i (hist i (dv_trace d) @ evs) t"
    by (intro step [OF move.IH [rule_format] _ move.hyps(3)])
  with move.IH show ?case by auto
next
  case (ambient d c)
  then show ?case by simp
qed

end

section \<open>A match was a match\<close>

definition expected_of :: "str \<Rightarrow> (str, u8) fmap \<Rightarrow> u8 fset option" where
  "expected_of finger slots =
     (if finger = ''any'' then Some (fmran slots)
      else map_option (\<lambda>k. {|k|}) (fmlookup slots finger))"

definition expecting :: "event list \<Rightarrow> u8 fset \<Rightarrow> bool" where
  "expecting h expected \<longleftrightarrow>
     (\<exists>user finger slots. Ev_verify user finger slots \<in> set h \<and> expected_of finger slots = Some expected)"

definition matched :: "device_config \<Rightarrow> event list \<Rightarrow> bool" where
  "matched cfg h \<longleftrightarrow> (\<exists>expected p j m. expecting h expected
     \<and> Ev_answer (Verify_req p j) (Ok (R_match m)) \<in> set h \<and> accepted (cf_threshold cfg) expected m)"

lemma expecting_append [intro]: "expecting h e \<Longrightarrow> expecting (h @ evs) e"
  by (auto simp: expecting_def)

lemma matched_append [intro]: "matched cfg h \<Longrightarrow> matched cfg (h @ evs)"
  by (auto simp: matched_def)

lemma expecting_any [intro]:
  "Ev_verify user ''any'' slots \<in> set h \<Longrightarrow> expecting (h @ evs) (fmran slots)"
  by (force simp: expecting_def expected_of_def)

lemma expecting_one [intro]:
  "Ev_verify user finger slots \<in> set h \<Longrightarrow> finger \<noteq> ''any'' \<Longrightarrow> fmlookup slots finger = Some k
     \<Longrightarrow> expecting (h @ evs) {|k|}"
  by (force simp: expecting_def expected_of_def)

fun match_pc :: "device_config \<Rightarrow> event list \<Rightarrow> task option \<Rightarrow> bool" where
  "match_pc cfg h (Some (VC (VC_slots _ user finger slots))) \<longleftrightarrow> Ev_verify user finger slots \<in> set h"
| "match_pc cfg h (Some (VC (VC_hint _ expected))) \<longleftrightarrow> expecting h expected"
| "match_pc cfg h (Some (VT (VT_start _ expected))) \<longleftrightarrow> expecting h expected"
| "match_pc cfg h (Some (VT (VT_check _ expected _ _))) \<longleftrightarrow> expecting h expected"
| "match_pc cfg h (Some (VT (VT_wait _ expected _ _))) \<longleftrightarrow> expecting h expected"
| "match_pc cfg h (Some (VT (VT_sleep _ expected _ _ _))) \<longleftrightarrow> expecting h expected"
| "match_pc cfg h (Some (VT (VT_end _ status))) \<longleftrightarrow> status = Some ''verify-match'' \<longrightarrow> matched cfg h"
| "match_pc cfg h (Some (VT (VT_emit status))) \<longleftrightarrow> status = ''verify-match'' \<longrightarrow> matched cfg h"
| "match_pc cfg h _ \<longleftrightarrow> True"

definition match_hist :: "device_config \<Rightarrow> nat \<Rightarrow> event list \<Rightarrow> task option \<Rightarrow> bool" where
  "match_hist cfg i h t \<longleftrightarrow> match_pc cfg h t
     \<and> (Ev_signal (Verify_status ''verify-match'' True) \<in> set h \<longrightarrow> matched cfg h)"

lemma verdict_match:
  "verify_verdict threshold expected retries elapsed r = Final status \<Longrightarrow> status = ''verify-match''
     \<Longrightarrow> \<exists>m. r = Inl m \<and> accepted threshold expected m"
  by (cases "(threshold, expected, retries, elapsed, r)" rule: verify_verdict.cases)
    (auto simp: Let_def split: if_splits)

lemma as_match_Inl: "as_match r = Inl m \<longleftrightarrow> r = Ok (R_match m)"
  by (cases r rule: as_match.cases) auto

lemma matched_answer [intro]:
  assumes "expecting h expected"
    "verify_verdict (cf_threshold cfg) expected retries elapsed (as_match r) = Final ''verify-match''"
  shows "matched cfg (h @ [Ev_answer (Verify_req p i) r])"
proof -
  obtain m where "as_match r = Inl m" "accepted (cf_threshold cfg) expected m"
    using verdict_match [OF assms(2) refl] by blast
  with expecting_append [OF assms(1)] show ?thesis
    unfolding matched_def as_match_Inl by (metis in_set_conv_decomp)
qed

lemma match_step:
  assumes "match_hist cfg i h t0" "micro cfg i t0 c (t, c', evs)"
    "\<And>req r. Ev_answer req r \<in> set evs \<Longrightarrow> waits_for t0 req"
  shows "match_hist cfg i (h @ evs) t"
  using assms(2)
proof cases
  case (M_call sender m)
  then show ?thesis
    using assms(1) by (cases m) (auto simp: match_hist_def step_defs split: step_splits)
next
  case (M_run u pick)
  then show ?thesis
    using assms(1)
    by (cases u rule: task_cases)
      (auto simp: match_hist_def step_defs worker_gone_def
        is_fatal_io_def split: step_splits)
next
  case (M_answer req rest r u evs')
  have w: "waits_for t0 req" using assms(3) [of req r] M_answer by simp
  show ?thesis
    using assms(1) M_answer w
    by (cases u rule: task_cases) (auto simp: match_hist_def step_defs split: step_splits)
next
  case (M_progress u msg)
  then show ?thesis
    using assms(1) by (cases u rule: task_cases) (auto simp: match_hist_def split: if_splits)
qed

interpretation match_history: task_history cfg "match_hist cfg" for cfg
  by unfold_locales (simp add: match_hist_def, rule match_step)


section \<open>Six attempts\<close>

fun is_verify_submit :: "event \<Rightarrow> bool" where
  "is_verify_submit (Ev_submit (Verify_req _ _)) \<longleftrightarrow> True"
| "is_verify_submit _ \<longleftrightarrow> False"

definition attempts :: "event list \<Rightarrow> nat" where
  "attempts h = length (filter is_verify_submit h)"

lemma attempts_simps [simp]: "attempts [] = 0" "attempts (a @ b) = attempts a + attempts b"
    "attempts (e # h) = (if is_verify_submit e then Suc (attempts h) else attempts h)"
  by (simp_all add: attempts_def)

fun attempts_pc :: "nat \<Rightarrow> task option \<Rightarrow> bool" where
  "attempts_pc n (Some (VT (VT_start _ _))) \<longleftrightarrow> n = 0"
| "attempts_pc n (Some (VT (VT_check _ _ _ retries))) \<longleftrightarrow> n = retries \<and> retries \<le> MAX_RETRIES"
| "attempts_pc n (Some (VT (VT_wait _ _ _ retries))) \<longleftrightarrow> n = Suc retries \<and> retries \<le> MAX_RETRIES"
| "attempts_pc n (Some (VT (VT_sleep _ _ _ retries _))) \<longleftrightarrow> n = retries \<and> retries \<le> MAX_RETRIES"
| "attempts_pc n (Some (VT _)) \<longleftrightarrow> n \<le> Suc MAX_RETRIES"
| "attempts_pc n None \<longleftrightarrow> n \<le> Suc MAX_RETRIES"
| "attempts_pc n (Some _) \<longleftrightarrow> n = 0"

definition attempts_hist :: "nat \<Rightarrow> event list \<Rightarrow> task option \<Rightarrow> bool" where
  "attempts_hist i h t \<longleftrightarrow> attempts_pc (attempts h) t"

lemma verdict_retry:
  "verify_verdict threshold expected retries elapsed r = Retry_after_pause \<Longrightarrow> Suc retries \<le> MAX_RETRIES"
  "verify_verdict threshold expected retries elapsed r = Retry_at_once \<Longrightarrow> Suc retries \<le> MAX_RETRIES"
  by (cases "(threshold, expected, retries, elapsed, r)" rule: verify_verdict.cases;
      auto simp: Let_def out_of_budget_def split: if_splits)+

lemma attempts_step:
  assumes "attempts_hist i h t0" "t0 = None \<Longrightarrow> h = []" "micro cfg i t0 c (t, c', evs)"
  shows "attempts_hist i (h @ evs) t"
  using assms(3)
proof cases
  case (M_call sender m)
  then show ?thesis
    using assms(2) by (cases m) (auto simp: attempts_hist_def step_defs split: step_splits)
next
  case (M_run u pick)
  then show ?thesis
    using assms(1)
    by (cases u rule: task_cases)
      (auto simp: attempts_hist_def step_defs worker_gone_def is_fatal_io_def split: step_splits)
next
  case (M_answer req rest r u evs')
  then show ?thesis
    using assms(1)
    by (cases u rule: task_cases)
      (auto simp: attempts_hist_def step_defs dest: verdict_retry split: step_splits)
next
  case (M_progress u msg)
  then show ?thesis
    using assms(1) by (cases u rule: task_cases) (auto simp: attempts_hist_def split: if_splits)
qed

interpretation attempts_history: task_history cfg attempts_hist for cfg
  by unfold_locales (simp add: attempts_hist_def, rule attempts_step)

text \<open>
  Claim C29. Retries are bounded: one \<open>VerifyStart\<close> sends at most six verification requests to the
  sensor, whatever the sensor answers.
\<close>

theorem verify_attempts_bounded:
  assumes "reachable cfg st w d"
  shows "length (filter (\<lambda>(j, e). j = i \<and> is_verify_submit e) (dv_trace d)) \<le> 6"
proof -
  have "attempts_pc (attempts (hist i (dv_trace d))) t \<Longrightarrow> attempts (hist i (dv_trace d)) \<le> Suc MAX_RETRIES" for t
    by (cases "(attempts (hist i (dv_trace d)), t)" rule: attempts_pc.cases) auto
  then have "attempts (hist i (dv_trace d)) \<le> 6"
    using attempts_history.history [OF assms] by (auto simp: attempts_hist_def MAX_RETRIES_def)
  moreover have "length (filter (\<lambda>(j, e). j = i \<and> is_verify_submit e) tr) = attempts (hist i tr)" for tr
    by (induction tr) (auto simp: hist_def)
  ultimately show ?thesis by simp
qed

end
