(* ===== verification/Device_Registry.thy ===== *)
theory Device_Registry
  imports Device_History
begin

text \<open>
  The device and the registry of slots: no slot ever serves two fingers, the registry follows the
  sensor, and whoever the device works for was claimed by a caller who may act for them.
\<close>

section \<open>No slot serves two fingers\<close>

text \<open>
  An enrolment under way has reserved a slot: no other finger has it. The reservation survives the
  deletions of other tasks, and no second enrolment can take the slot, as both would hold the permit.
\<close>

fun reserves :: "task option \<Rightarrow> (str \<times> str \<times> u8) option" where
  "reserves (Some (EC (EC_hint _ user finger k))) = Some (user, finger, k)"
| "reserves (Some (ET (ET_submit _ user finger k))) = Some (user, finger, k)"
| "reserves (Some (ET (ET_wait _ user finger k))) = Some (user, finger, k)"
| "reserves (Some (ET (ET_end _ user finger k _))) = Some (user, finger, k)"
| "reserves (Some (ET (ET_store user finger k))) = Some (user, finger, k)"
| "reserves _ = None"

lemma reserves_holds: "reserves t0 = Some x \<Longrightarrow> weight t0 = 1"
proof (cases t0)
  case (Some u)
  then show "reserves t0 = Some x \<Longrightarrow> weight t0 = 1"
    by (cases u rule: task_cases) auto
qed simp

definition slots_ok :: "device \<Rightarrow> bool" where
  "slots_ok d \<longleftrightarrow> registry.unique (sg_users (c_store (dv_core d)))
     \<and> (\<forall>i user finger k. reserves (dv_tasks d i) = Some (user, finger, k) \<longrightarrow>
          registry.reserved user finger k (sg_users (c_store (dv_core d))))"

lemma allocate_slot_reserved:
  "allocate_slot st = Ok k \<Longrightarrow> registry.reserved user finger k (sg_users st)"
  by (auto simp: allocate_slot_def result_simps intro: registry.reserved_free)

lemma get_slot_reserved:
  "registry.unique (sg_users st) \<Longrightarrow> get_slot user finger st = Some k
     \<Longrightarrow> registry.reserved user finger k (sg_users st)"
  by (auto simp: get_slot_def intro: registry.reserved_own)

text \<open>What a move does to the registry and to its reservation.\<close>

lemma micro_registry:
  assumes "micro cfg i t0 c (t, c', evs)" "registry.unique (sg_users (c_store c))"
  shows "(sg_users (c_store c') = sg_users (c_store c)
        \<and> (\<forall>u f k. reserves t = Some (u, f, k) \<longrightarrow>
              reserves t0 = Some (u, f, k) \<or> registry.reserved u f k (sg_users (c_store c))))
    \<or> (\<exists>u f k. sg_users (c_store c') = users_put u f k (sg_users (c_store c)) \<and> reserves t0 = Some (u, f, k)
        \<and> reserves t \<in> {None, Some (u, f, k)})
    \<or> (\<exists>u f. sg_users (c_store c') = users_drop u f (sg_users (c_store c)) \<and> reserves t = None)"
  using assms(1)
proof cases
  case (M_call sender m)
  then show ?thesis by (cases m) (auto simp: step_defs split: step_splits)
next
  case (M_run u pick)
  then show ?thesis
    using assms(2)
    by (cases u rule: task_cases; auto simp: step_defs split: step_splits
        dest!: set_slot_users remove_finger_users intro: allocate_slot_reserved get_slot_reserved; blast)
next
  case (M_answer req rest r u evs')
  then show ?thesis by (cases u rule: task_cases) (auto simp: step_defs split: step_splits)
next
  case (M_progress u msg)
  then show ?thesis by (cases u rule: task_cases) (auto simp: on_dev_def)
qed

lemma ambient_store: "ambient c c' \<Longrightarrow> c_store c' = c_store c"
  by (auto elim!: ambient.cases simp: on_dev_def)

lemma slots_ok_reachable:
  assumes "reachable cfg st w d" "registry.unique (sg_users st)"
  shows "slots_ok d"
  using assms(1)
proof (induction rule: reachable_moves)
  case start
  show ?case using assms(2) by (simp add: slots_ok_def device_new_def)
next
  case (move d i n t c evs)
  note un = move.IH [unfolded slots_ok_def, THEN conjunct1]
  note re = move.IH [unfolded slots_ok_def, THEN conjunct2, rule_format]
  from micro_registry [OF move.hyps(3) un] show ?case
  proof (elim disjE exE conjE)
    assume "sg_users (c_store c) = sg_users (c_store (dv_core d))"
      "\<forall>u f k. reserves t = Some (u, f, k) \<longrightarrow> reserves (dv_tasks d i) = Some (u, f, k)
          \<or> registry.reserved u f k (sg_users (c_store (dv_core d)))"
    with un re show ?thesis by (auto simp: slots_ok_def)
  next
    fix u f k assume p: "sg_users (c_store c) = users_put u f k (sg_users (c_store (dv_core d)))"
      "reserves (dv_tasks d i) = Some (u, f, k)" "reserves t \<in> {None, Some (u, f, k)}"
    have "reserves (dv_tasks d j) = None" if "j \<noteq> i" for j
    proof (rule ccontr)
      assume "reserves (dv_tasks d j) \<noteq> None"
      then have "weight (dv_tasks d j) = 1" "weight (dv_tasks d i) = 1"
        using p(2) reserves_holds by auto
      then have "j \<in> holders d" "i \<in> holders d" by (simp_all add: holders_def)
      with that permits_conserved [OF move.hyps(1)] show False
        by (metis One_nat_def card_le_Suc0_iff_eq le_add2)
    qed
    with p registry.unique_put [OF un re [OF p(2)]] registry.reserved_put [OF re [OF p(2)]] show ?thesis
      by (auto simp: slots_ok_def)
  next
    fix u f assume "sg_users (c_store c) = users_drop u f (sg_users (c_store (dv_core d)))" "reserves t = None"
    with re registry.unique_remove [OF un] show ?thesis
      by (auto simp: slots_ok_def registry.reserved_remove)
  qed
next
  case (ambient d c)
  then show ?case by (simp add: slots_ok_def ambient_store)
qed

text \<open>
  Claim C3. Slots are unique: started on a registry in which no slot serves two fingers, the device
  never lets one serve two, whatever enrolments, deletions, stops and failed writes interleave.
\<close>

theorem slots_stay_unique:
  assumes "reachable cfg st w d"
    "\<forall>u f u' f' k. get_slot u f st = Some k \<and> get_slot u' f' st = Some k \<longrightarrow> u = u' \<and> f = f'"
  shows "\<forall>u f u' f' k. get_slot u f (c_store (dv_core d)) = Some k \<and> get_slot u' f' (c_store (dv_core d)) = Some k
    \<longrightarrow> u = u' \<and> f = f'"
proof -
  have "registry.unique (sg_users st)" unfolding registry.unique_def using assms(2) unfolding get_slot_def by blast
  from slots_ok_reachable [OF assms(1) this] show ?thesis
    unfolding slots_ok_def registry.unique_def get_slot_def by blast
qed

section \<open>The registry follows the sensor\<close>

definition deleted :: "event list \<Rightarrow> u8 \<Rightarrow> bool" where
  "deleted h k \<longleftrightarrow> (\<exists>i x. Ev_answer (Delete_req k i) (Ok x) \<in> set h)"

definition enrolled :: "event list \<Rightarrow> u8 \<Rightarrow> bool" where
  "enrolled h k \<longleftrightarrow> (\<exists>p i x. Ev_answer (Enroll_req k p i) (Ok x) \<in> set h)"

lemma deleted_append [simp]: "deleted (h @ e) k \<longleftrightarrow> deleted h k \<or> deleted e k"
  by (auto simp: deleted_def)

lemma enrolled_append [simp]: "enrolled (h @ e) k \<longleftrightarrow> enrolled h k \<or> enrolled e k"
  by (auto simp: enrolled_def)

lemma answered_simps [simp]:
  "deleted [] k \<longleftrightarrow> False" "enrolled [] k \<longleftrightarrow> False"
  "deleted (Ev_answer (Delete_req k' i) r # h) k \<longleftrightarrow> (k' = k \<and> as_failure r = None) \<or> deleted h k"
  "enrolled (Ev_answer (Enroll_req k' p i) r # h) k \<longleftrightarrow> (k' = k \<and> as_failure r = None) \<or> enrolled h k"
  by (cases r; auto simp: deleted_def enrolled_def)+

fun follow_pc :: "event list \<Rightarrow> task option \<Rightarrow> bool" where
  "follow_pc h (Some (ET (ET_end _ _ _ k failure))) \<longleftrightarrow> failure = None \<longrightarrow> enrolled h k"
| "follow_pc h (Some (ET (ET_store _ _ k))) \<longleftrightarrow> enrolled h k"
| "follow_pc h (Some (ET (ET_emit status))) \<longleftrightarrow>
     status = ''enroll-completed'' \<longrightarrow> (\<exists>u f k. Ev_stored u f k \<in> set h)"
| "follow_pc h (Some (DC (DC_remove _ _ _ k))) \<longleftrightarrow> deleted h k"
| "follow_pc h (Some (WC (WC_next _ _ _ done _))) \<longleftrightarrow> (\<forall>(f, k) \<in> set done. deleted h k)"
| "follow_pc h (Some (WC (WC_wait _ _ _ _ _ done _))) \<longleftrightarrow> (\<forall>(f, k) \<in> set done. deleted h k)"
| "follow_pc h (Some (WC (WC_remove _ _ done _))) \<longleftrightarrow> (\<forall>(f, k) \<in> set done. deleted h k)"
| "follow_pc h _ \<longleftrightarrow> True"

definition follow_hist :: "nat \<Rightarrow> event list \<Rightarrow> task option \<Rightarrow> bool" where
  "follow_hist i h t \<longleftrightarrow> follow_pc h t
     \<and> (\<forall>u f k. Ev_removed u f k \<in> set h \<longrightarrow> deleted h k)
     \<and> (\<forall>u f k. Ev_stored u f k \<in> set h \<longrightarrow> enrolled h k)
     \<and> (Ev_signal (Enroll_status ''enroll-completed'' True) \<in> set h \<longrightarrow> (\<exists>u f k. Ev_stored u f k \<in> set h))"

lemma follow_step:
  assumes "follow_hist i h t0" "micro cfg i t0 c (t, c', evs)"
    "\<And>req r. Ev_answer req r \<in> set evs \<Longrightarrow> waits_for t0 req"
  shows "follow_hist i (h @ evs) t"
  using assms(2)
proof cases
  case (M_call sender m)
  then show ?thesis
    using assms(1) by (cases m) (auto simp: follow_hist_def step_defs split: step_splits)
next
  case (M_run u pick)
  then show ?thesis
    using assms(1)
    by (cases u rule: task_cases) (auto simp: follow_hist_def step_defs split: step_splits)
next
  case (M_answer req rest r u evs')
  have w: "waits_for t0 req" using assms(3) [of req r] M_answer by simp
  show ?thesis
    using assms(1) M_answer w
    by (cases u rule: task_cases) (auto simp: follow_hist_def step_defs split: step_splits)
next
  case (M_progress u msg)
  then show ?thesis
    using assms(1) by (cases u rule: task_cases) (auto simp: follow_hist_def split: if_splits)
qed

interpretation follow_history: task_history cfg follow_hist for cfg
  by unfold_locales (simp add: follow_hist_def, rule follow_step)


section \<open>The device works for claimed users\<close>

definition authorised :: "bus \<Rightarrow> str \<Rightarrow> bool" where
  "authorised B user \<longleftrightarrow> (\<exists>s. may_act_for B s user)"

definition claim_ok :: "bus \<Rightarrow> device_state \<Rightarrow> bool" where
  "claim_ok B s \<longleftrightarrow>
     (\<forall>user. claimed_by s = Some user \<longrightarrow> (\<exists>x. claim_sender s = Some x \<and> may_act_for B x user))"

fun user_ok :: "bus \<Rightarrow> task option \<Rightarrow> bool" where
  "user_ok B (Some (Claim_call sender user)) \<longleftrightarrow> (\<exists>x. sender = Some x \<and> may_act_for B x user)"
| "user_ok B (Some (VC (VC_permit user _))) \<longleftrightarrow> authorised B user"
| "user_ok B (Some (VC (VC_mint user _))) \<longleftrightarrow> authorised B user"
| "user_ok B (Some (EC (EC_permit user _))) \<longleftrightarrow> authorised B user"
| "user_ok B (Some (EC (EC_mint user _))) \<longleftrightarrow> authorised B user"
| "user_ok B (Some (EC (EC_slot _ user _))) \<longleftrightarrow> authorised B user"
| "user_ok B (Some (EC (EC_alloc _ user _))) \<longleftrightarrow> authorised B user"
| "user_ok B (Some (EC (EC_hint _ user _ _))) \<longleftrightarrow> authorised B user"
| "user_ok B (Some (ET (ET_submit _ user _ _))) \<longleftrightarrow> authorised B user"
| "user_ok B (Some (ET (ET_wait _ user _ _))) \<longleftrightarrow> authorised B user"
| "user_ok B (Some (ET (ET_end _ user _ _ _))) \<longleftrightarrow> authorised B user"
| "user_ok B (Some (ET (ET_store user _ _))) \<longleftrightarrow> authorised B user"
| "user_ok B (Some (DC (DC_find user _))) \<longleftrightarrow> authorised B user"
| "user_ok B (Some (DC (DC_gate user _ _))) \<longleftrightarrow> authorised B user"
| "user_ok B (Some (DC (DC_submit _ user _ _))) \<longleftrightarrow> authorised B user"
| "user_ok B (Some (DC (DC_wait _ user _ _))) \<longleftrightarrow> authorised B user"
| "user_ok B (Some (DC (DC_remove _ user _ _))) \<longleftrightarrow> authorised B user"
| "user_ok B (Some (WC (WC_gate user))) \<longleftrightarrow> authorised B user"
| "user_ok B (Some (WC (WC_list _ user))) \<longleftrightarrow> authorised B user"
| "user_ok B (Some (WC (WC_next _ user _ _ _))) \<longleftrightarrow> authorised B user"
| "user_ok B (Some (WC (WC_wait _ user _ _ _ _ _))) \<longleftrightarrow> authorised B user"
| "user_ok B (Some (WC (WC_remove _ user _ _))) \<longleftrightarrow> authorised B user"
| "user_ok B _ \<longleftrightarrow> True"

fun event_user :: "event \<Rightarrow> str option" where
  "event_user (Ev_verify user _ _) = Some user"
| "event_user (Ev_stored user _ _) = Some user"
| "event_user (Ev_removed user _ _) = Some user"
| "event_user _ = None"

lemma ensure_claim_authorised:
  "claim_ok B s \<Longrightarrow> ensure_claim sender s = Ok user \<Longrightarrow> authorised B user"
  by (auto simp: ensure_claim_def result_simps claim_ok_def authorised_def split: if_splits)

lemma authorize_authorised: "authorize_username B (Some s) name = Ok user \<Longrightarrow> authorised B user"
  unfolding authorised_def by (blast dest: authorize_username_may)

lemma micro_user:
  assumes "micro cfg i t0 c (t, c', evs)" "claim_ok (cf_bus cfg) (c_dev c)" "user_ok (cf_bus cfg) t0"
  shows "claim_ok (cf_bus cfg) (c_dev c') \<and> user_ok (cf_bus cfg) t
    \<and> (\<forall>e \<in> set evs. \<forall>user. event_user e = Some user \<longrightarrow> authorised (cf_bus cfg) user)"
  using assms(1)
proof cases
  case (M_call sender m)
  then show ?thesis
    using assms(2) authorize_username_may [of "cf_bus cfg" sender]
    by (cases m) (auto simp: step_defs gate_defs claim_ok_def result_simps split: step_splits
        intro: ensure_claim_authorised [OF assms(2)] authorize_authorised)
next
  case (M_run u pick)
  then show ?thesis
    using assms(2,3)
    by (cases u rule: task_cases)
      (auto simp: step_defs gate_defs claim_ok_def split: step_splits)
next
  case (M_answer req rest r u evs')
  then show ?thesis
    using assms(2,3) by (cases u rule: task_cases) (auto simp: step_defs split: step_splits)
next
  case (M_progress u msg)
  then show ?thesis
    using assms(2,3)
    by (cases u rule: task_cases) (auto simp: on_dev_def gate_defs claim_ok_def Let_def split: if_splits)
qed

lemma ambient_claim: "ambient c c' \<Longrightarrow> claim_ok B (c_dev c) \<Longrightarrow> claim_ok B (c_dev c')"
  by (auto elim!: ambient.cases simp: on_dev_def gate_defs claim_ok_def)

lemma users_ok_reachable:
  "reachable cfg st w d \<Longrightarrow> claim_ok (cf_bus cfg) (c_dev (dv_core d))
    \<and> (\<forall>i. user_ok (cf_bus cfg) (dv_tasks d i))
    \<and> (\<forall>i e. (i, e) \<in> set (dv_trace d) \<longrightarrow> (\<forall>user. event_user e = Some user \<longrightarrow> authorised (cf_bus cfg) user))"
proof (induction rule: reachable_moves)
  case start
  show ?case by (simp add: device_new_def device_default_def claim_ok_def)
next
  case (move d i n t c evs)
  from micro_user [OF move.hyps(3)] move.IH show ?case by auto
next
  case (ambient d c)
  then show ?case using ambient_claim by simp
qed


end
