(* ===== verification/Device_Tokens.thy ===== *)
theory Device_Tokens
  imports Device_Safety
begin

text \<open>
  The action slot and its tokens: whatever is in the slot belongs to a live call or task, which will
  clear it; and no two of them ever hold the same token, so a task that lost the slot to a stop and a
  successor cannot clear the successor's action. Epochs are 64-bit and wrap, so the second statement
  is about the first \<open>2^64\<close> actions.
\<close>

definition held :: "task option \<Rightarrow> action_token option" where
  "held t = Option.bind t token_of"

lemma held_simps [simp]: "held None = None" "held (Some t) = token_of t"
  by (simp_all add: held_def)

section \<open>The slot has an owner\<close>

lemma micro_action:
  assumes "micro cfg i t0 c (t, c', evs)" "action (c_dev c') = Some token"
  shows "held t = Some token \<or> (action (c_dev c) = Some token \<and> held t0 \<noteq> Some token)"
  using assms
proof cases
  case (M_call sender m)
  then show ?thesis using assms(2) by (cases m) (auto simp: step_defs gate_defs split: step_splits)
next
  case (M_run u pick)
  then show ?thesis
    using assms(2) by (cases u rule: task_cases) (auto simp: step_defs gate_defs split: step_splits)
next
  case (M_answer req rest r u evs')
  then show ?thesis
    using assms(2) by (cases u rule: task_cases) (auto simp: step_defs gate_defs split: step_splits)
next
  case (M_progress t msg)
  then show ?thesis using assms(2) by (auto simp: on_dev_def gate_defs Let_def split: if_splits)
qed

lemma ambient_action:
  "ambient c c' \<Longrightarrow> action (c_dev c') = Some token \<Longrightarrow> action (c_dev c) = Some token"
  by (auto elim!: ambient.cases simp: on_dev_def gate_defs split: if_splits)

lemma action_owner:
  "reachable cfg st w d \<Longrightarrow> \<forall>token. action (c_dev (dv_core d)) = Some token
     \<longrightarrow> (\<exists>i. held (dv_tasks d i) = Some token)"
proof (induction rule: reachable_moves)
  case start
  show ?case by (simp add: device_new_def device_default_def)
next
  case (move d i n t c evs)
  show ?case
  proof (intro allI impI)
    fix token assume "action (c_dev (dv_core (moved n i (t, c, evs) d))) = Some token"
    then have "held t = Some token \<or> (action (c_dev (dv_core d)) = Some token \<and> held (dv_tasks d i) \<noteq> Some token)"
      using micro_action [OF move.hyps(3)] by simp
    then show "\<exists>j. held (dv_tasks (moved n i (t, c, evs) d) j) = Some token"
    proof
      assume "held t = Some token"
      then show ?thesis by (intro exI [of _ i]) simp
    next
      assume a: "action (c_dev (dv_core d)) = Some token \<and> held (dv_tasks d i) \<noteq> Some token"
      then obtain j where "held (dv_tasks d j) = Some token" using move.IH by blast
      with a show ?thesis by (intro exI [of _ j]) auto
    qed
  qed
next
  case (ambient d c)
  then show ?case using ambient_action by fastforce
qed

section \<open>A token has one owner\<close>

fun started :: "(nat \<times> event) list \<Rightarrow> (nat \<times> action_token) list" where
  "started [] = []"
| "started ((i, Ev_start token) # tr) = (i, token) # started tr"
| "started (e # tr) = started tr"

lemma started_append [simp]: "started (a @ b) = started a @ started b"
  by (induction a rule: started.induct) simp_all

lemma micro_start:
  assumes "micro cfg i t0 c (t, c', evs)"
  shows "(started (map (Pair i) evs) = [] \<and> next_epoch (c_dev c') = next_epoch (c_dev c)
      \<and> (\<forall>token. held t = Some token \<longrightarrow> held t0 = Some token))
    \<or> (\<exists>kind. started (map (Pair i) evs) = [(i, Token kind (next_epoch (c_dev c)))]
      \<and> next_epoch (c_dev c') = next_epoch (c_dev c) + 1
      \<and> held t = Some (Token kind (next_epoch (c_dev c))))"
  using assms
proof cases
  case (M_call sender m)
  then show ?thesis by (cases m) (auto simp: step_defs gate_defs split: step_splits)
next
  case (M_run u pick)
  then show ?thesis by (cases u rule: task_cases) (auto simp: step_defs gate_defs split: step_splits)
next
  case (M_answer req rest r u evs')
  then show ?thesis by (cases u rule: task_cases) (auto simp: step_defs gate_defs split: step_splits)
next
  case (M_progress u msg)
  then show ?thesis
    by (cases u rule: task_cases) (auto simp: on_dev_def gate_defs Let_def split: if_splits)
qed

lemma ambient_epoch: "ambient c c' \<Longrightarrow> next_epoch (c_dev c') = next_epoch (c_dev c)"
  by (auto elim!: ambient.cases simp: on_dev_def gate_defs)

definition tokens_ok :: "device \<Rightarrow> bool" where
  "tokens_ok d \<longleftrightarrow>
     map (tk_epoch \<circ> snd) (started (dv_trace d)) = map of_nat [0..<length (started (dv_trace d))]
     \<and> next_epoch (c_dev (dv_core d)) = of_nat (length (started (dv_trace d)))
     \<and> (\<forall>i token. held (dv_tasks d i) = Some token \<longrightarrow> (i, token) \<in> set (started (dv_trace d)))"

lemma tokens_ok_reachable: "reachable cfg st w d \<Longrightarrow> tokens_ok d"
proof (induction rule: reachable_moves)
  case start
  show ?case by (simp add: tokens_ok_def device_new_def device_default_def)
next
  case (move d i n t c evs)
  from micro_start [OF move.hyps(3)] move.IH show ?case
    by (auto simp: tokens_ok_def)
next
  case (ambient d c)
  then show ?case by (simp add: tokens_ok_def ambient_epoch)
qed

lemma epoch_unique:
  assumes "map (tk_epoch \<circ> snd) xs = map of_nat [0..<length xs]" "length xs \<le> 2 ^ 64"
    "(i, token) \<in> set xs" "(j, token) \<in> set xs"
  shows "i = j"
proof -
  obtain m n where mn: "m < length xs" "xs ! m = (i, token)" "n < length xs" "xs ! n = (j, token)"
    using assms(3,4) by (metis in_set_conv_nth)
  have e: "tk_epoch (snd (xs ! k)) = of_nat k" if "k < length xs" for k
  proof -
    have "map (tk_epoch \<circ> snd) xs ! k = map of_nat [0..<length xs] ! k" by (simp only: assms(1))
    with that show ?thesis by simp
  qed
  have "(of_nat m :: u64) = of_nat n" using e [OF mn(1)] e [OF mn(3)] mn by simp
  moreover have "m < 18446744073709551616" "n < 18446744073709551616" using mn assms(2) by simp_all
  ultimately have "m = n" by (metis unat_of_nat_u64)
  with mn show ?thesis by simp
qed

text \<open>
  Claim C19. The slot is never orphaned: when an action occupies the device, a live call or task holds
  its token, and so with no task left the device is free again. Tokens are not shared: during the
  first \<open>2^64\<close> actions two live tasks with the same token are the same task, so clearing the slot with
  one's own token never clears another's action.
\<close>

theorem action_slot_owned:
  assumes "reachable cfg st w d" "length (started (dv_trace d)) \<le> 2 ^ 64"
  shows "(\<forall>token. action (c_dev (dv_core d)) = Some token \<longrightarrow>
       (\<exists>i t. dv_tasks d i = Some t \<and> token_of t = Some token))
    \<and> (\<forall>i j t u token. dv_tasks d i = Some t \<and> token_of t = Some token
         \<and> dv_tasks d j = Some u \<and> token_of u = Some token \<longrightarrow> i = j)"
proof
  show "\<forall>token. action (c_dev (dv_core d)) = Some token \<longrightarrow>
       (\<exists>i t. dv_tasks d i = Some t \<and> token_of t = Some token)"
  proof (intro allI impI)
    fix token assume "action (c_dev (dv_core d)) = Some token"
    then obtain i where "held (dv_tasks d i) = Some token" using action_owner [OF assms(1)] by blast
    then show "\<exists>i t. dv_tasks d i = Some t \<and> token_of t = Some token"
      by (cases "dv_tasks d i") auto
  qed
  note t = tokens_ok_reachable [OF assms(1), unfolded tokens_ok_def]
  show "\<forall>i j t u token. dv_tasks d i = Some t \<and> token_of t = Some token
         \<and> dv_tasks d j = Some u \<and> token_of u = Some token \<longrightarrow> i = j"
  proof (intro allI impI, elim conjE)
    fix i j t u token
    assume "dv_tasks d i = Some t" "token_of t = Some token" "dv_tasks d j = Some u" "token_of u = Some token"
    then have "(i, token) \<in> set (started (dv_trace d))" "(j, token) \<in> set (started (dv_trace d))"
      using t by simp_all
    with t assms(2) show "i = j" by (blast intro: epoch_unique)
  qed
qed

end
