(* ===== verification/Device_Runs.thy ===== *)
theory Device_Runs
  imports Device_Registry Device_Tokens Storage_File
begin

text \<open>
  Runs of the device: a scheduler that executes a list of choices, every one of them a step of
  \<open>dev_step\<close>. It gives the runs on which the properties of \<open>Device_Safety\<close>, \<open>Device_Tokens\<close>,
  \<open>Device_History\<close> and \<open>Device_Registry\<close> are tried, and the proof that \<open>Release\<close> opens the gate that
  was to keep deletions from piling up.
\<close>

section \<open>A scheduler\<close>

datatype choice =
    Do_call str bus_method
  | Do_run nat str
  | Do_answer "(reply, sensor_error) result"

fun play :: "device_config \<Rightarrow> choice \<Rightarrow> device \<Rightarrow> device option" where
  "play cfg (Do_call sender m) d =
     Some (put_task (dv_next d) [] (enter_method (cf_bus cfg) (Some sender) m (dv_core d))
       (d\<lparr>dv_next := Suc (dv_next d)\<rparr>))"
| "play cfg (Do_run i pick) d =
     map_option (\<lambda>t. put_task i [] (run_task cfg i pick t (dv_core d)) d) (dv_tasks d i)"
| "play cfg (Do_answer r) d =
     (case c_queue (dv_core d) of
        [] \<Rightarrow> None
      | req # rest \<Rightarrow>
          if c_alive (dv_core d) \<and> answers req r
          then Option.bind (dv_tasks d (req_done req)) (\<lambda>t.
            map_option (\<lambda>res. put_task (req_done req) [Ev_answer req r] res d)
              (resume cfg t r ((dv_core d)\<lparr>c_queue := rest\<rparr>)))
          else None)"

fun plays :: "device_config \<Rightarrow> choice list \<Rightarrow> device \<Rightarrow> device option" where
  "plays cfg [] d = Some d"
| "plays cfg (x # xs) d = Option.bind (play cfg x d) (plays cfg xs)"

lemma play_step: "play cfg x d = Some d' \<Longrightarrow> dev_step cfg d d'"
proof (cases x)
  case (Do_call sender m)
  assume "play cfg x d = Some d'"
  then show ?thesis using Call [of cfg d sender m] by (simp add: Do_call)
next
  case (Do_run i pick)
  assume "play cfg x d = Some d'"
  then show ?thesis using Run [of d i _ cfg pick] by (auto simp: Do_run)
next
  case (Do_answer r)
  assume p: "play cfg x d = Some d'"
  then obtain req rest t res where a: "c_alive (dv_core d)" "c_queue (dv_core d) = req # rest" "answers req r"
      "dv_tasks d (req_done req) = Some t"
      "resume cfg t r ((dv_core d)\<lparr>c_queue := rest\<rparr>) = Some res"
      "d' = put_task (req_done req) [Ev_answer req r] res d"
    by (auto simp: Do_answer bind_eq_Some_conv split: list.splits if_splits)
  show ?thesis unfolding a(6) by (rule Answer [OF a(1-5)])
qed

lemma plays_reachable:
  "plays cfg xs d = Some d' \<Longrightarrow> reachable cfg st w d \<Longrightarrow> reachable cfg st w d'"
proof (induction xs arbitrary: d)
  case (Cons x xs)
  then obtain d1 where d1: "play cfg x d = Some d1" "plays cfg xs d1 = Some d'"
    by (auto simp: bind_eq_Some_conv)
  from Step [OF Cons.prems(2) play_step [OF d1(1)]] show ?case by (rule Cons.IH [OF d1(2)])
qed simp

section \<open>Deletions pile up\<close>

text \<open>A caller can delete this finger, and the device is idle, whatever is queued at the sensor.\<close>

definition idle_for :: "bus \<Rightarrow> str \<Rightarrow> str \<Rightarrow> str \<Rightarrow> u8 \<Rightarrow> device \<Rightarrow> bool" where
  "idle_for B s user finger k d \<longleftrightarrow>
     authorize_username B (Some s) [] = Ok user \<and> finger \<in> set FINGER_NAMES
     \<and> get_slot user finger (c_store (dv_core d)) = Some k \<and> c_alive (dv_core d)
     \<and> claimed_by (c_dev (dv_core d)) = None \<and> action (c_dev (dv_core d)) = None"

text \<open>Claim, ask for the deletion, and release while the sensor still works on it.\<close>

definition delete_round :: "str \<Rightarrow> str \<Rightarrow> nat \<Rightarrow> choice list" where
  "delete_round s finger n =
     [Do_call s (Claim []), Do_run n [],
      Do_call s (DeleteEnrolledFinger finger), Do_run (Suc n) [], Do_run (Suc n) [], Do_run (Suc n) [],
      Do_call s Release]"

lemma delete_round_queues:
  assumes "idle_for (cf_bus cfg) s user finger k d"
  shows "\<exists>d'. plays cfg (delete_round s finger (dv_next d)) d = Some d'
    \<and> idle_for (cf_bus cfg) s user finger k d'
    \<and> c_queue (dv_core d') = c_queue (dv_core d) @ [Delete_req k (Suc (dv_next d))]"
  using assms
  by (simp add: delete_round_def idle_for_def put_task_def go_on_def reply_to_caller_def claim_device_def
      validate_finger_def ensure_claim_def sender_differs_def begin_delete_def begin_action_def
      start_action_def actor_send_def release_device_def clear_action_def Let_def)

text \<open>
  The gate for deletions does not bound them: a caller who claims, asks for a deletion and
  releases before the sensor has answered can do so again at once, as \<open>Release\<close> clears the action
  slot of the deletion that is still running. For every number there is a reachable state with that
  many deletions of one finger queued at the sensor, all of them alive.
\<close>

theorem deletions_pile_up:
  assumes "authorize_username (cf_bus cfg) (Some s) [] = Ok user" "finger \<in> set FINGER_NAMES"
    "get_slot user finger st = Some k"
  shows "\<exists>d. reachable cfg st w d \<and> length (c_queue (dv_core d)) = n
    \<and> (\<forall>req \<in> set (c_queue (dv_core d)). \<exists>i. req = Delete_req k i)"
proof -
  have "\<exists>d. reachable cfg st w d \<and> idle_for (cf_bus cfg) s user finger k d \<and> length (c_queue (dv_core d)) = n
      \<and> (\<forall>req \<in> set (c_queue (dv_core d)). \<exists>i. req = Delete_req k i)"
  proof (induction n)
    case 0
    show ?case
      using assms Start [of cfg st w] by (intro exI [of _ "device_new st w"])
        (simp add: idle_for_def device_new_def device_default_def)
  next
    case (Suc n)
    then obtain d where d: "reachable cfg st w d" "idle_for (cf_bus cfg) s user finger k d"
        "length (c_queue (dv_core d)) = n" "\<forall>req \<in> set (c_queue (dv_core d)). \<exists>i. req = Delete_req k i"
      by blast
    obtain d' where d': "plays cfg (delete_round s finger (dv_next d)) d = Some d'"
        "idle_for (cf_bus cfg) s user finger k d'"
        "c_queue (dv_core d') = c_queue (dv_core d) @ [Delete_req k (Suc (dv_next d))]"
      using delete_round_queues [OF d(2)] by blast
    with plays_reachable [OF d'(1) d(1)] d show ?case by (intro exI [of _ d']) auto
  qed
  then show ?thesis by blast
qed

section \<open>A verification, from the claim to the signal\<close>

definition demo_config :: device_config where
  "demo_config = \<lparr>cf_threshold = 80, cf_json = demo_users_json, cf_bus = demo_bus\<rparr>"

definition demo_registry :: storage where
  "demo_registry = demo_storage\<lparr>sg_users := demo_users\<rparr>"

abbreviation demo_device :: device where
  "demo_device \<equiv> device_new demo_registry (demo_world Map.empty)"

definition capture_run :: "choice list" where
  "capture_run =
     [Do_call '':1.5'' (Claim []), Do_run 0 [], Do_call '':1.5'' (VerifyStart ''right-thumb''),
      Do_run 1 [], Do_run 1 [], Do_run 1 [], Do_run 1 [], Do_run 1 [], Do_run 1 []]"

definition match_run :: "choice list" where
  "match_run = capture_run
     @ [Do_answer (Ok (R_match \<lparr>match_slot = 0, match_confidence = 168\<rparr>)), Do_run 1 [], Do_run 1 []]"

lemma demo_slots: "get_user_slots ''mat'' demo_registry = fmupd ''right-thumb'' 0 fmempty"
  by (simp add: get_user_slots_def demo_registry_def demo_users_def users_put_def fingers_of_def)

lemma demo_get_slot: "get_slot ''mat'' ''right-thumb'' demo_registry = Some 0"
  by (simp add: get_slot_def demo_registry_def demo_users_def users_get_put)

lemmas run_simps = put_task_def go_on_def reply_to_caller_def claim_device_def
  validate_finger_def ensure_claim_def sender_differs_def begin_action_def
  start_action_def actor_send_def clear_action_def Let_def device_new_def device_default_def
  demo_config_def demo_authorize demo_slots on_dev_def hint_needed_def FINGER_NAMES_def
  verify_result_def accepted_def end_action_def end_action_if_owner_def return_permit_def

lemma capture_run_runs:
  "\<exists>d. plays demo_config capture_run demo_device = Some d \<and> c_queue (dv_core d) = [Verify_req (Some 1) 1]
    \<and> length (started (dv_trace d)) = 1"
  by (simp add: capture_run_def run_simps)

lemma match_run_runs:
  "\<exists>d. plays demo_config match_run demo_device = Some d
    \<and> (1, Ev_signal (Verify_status ''verify-match'' True)) \<in> set (dv_trace d)"
proof -
  have t: "(80 :: u16) \<le> 168" by code_simp
  show ?thesis using t by (simp add: match_run_def capture_run_def run_simps)
qed

definition delete_run :: "choice list" where
  "delete_run =
     [Do_call '':1.5'' (Claim []), Do_run 0 [],
      Do_call '':1.5'' (DeleteEnrolledFinger ''right-thumb''), Do_run 1 [], Do_run 1 [], Do_run 1 [],
      Do_answer (Ok (R_slot 0)), Do_run 1 []]"

lemma demo_remove:
  "\<exists>x st' w'. remove_finger demo_users_json ''mat'' ''right-thumb'' (demo_registry, demo_world Map.empty)
     = (Ok x, st', w')"
  by (simp add: remove_finger_eq storage_save_eq save_blocking_def demo_users_json_def bind_io_def
      map_err_io_def demo_world_def demo_env_def fs_open_truncate_def fs_write_all_def fs_sync_all_def
      fs_rename_def atomic_call_def syscall_def follow_plain set_fs_def write_at_def
      demo_registry_def demo_storage_def users_tmp_def
      split: option.splits node.splits)

lemma delete_run_runs:
  "\<exists>d. plays demo_config delete_run demo_device = Some d
    \<and> (1, Ev_removed ''mat'' ''right-thumb'' 0) \<in> set (dv_trace d)"
  using demo_remove
  by (auto simp: delete_run_def run_simps begin_delete_def demo_get_slot on_store_def)

section \<open>The properties on these runs\<close>

theorem one_capture_witness:
  "\<exists>d. plays demo_config capture_run demo_device = Some d \<and> c_queue (dv_core d) = [Verify_req (Some 1) 1]
    \<and> length (filter is_capture (c_queue (dv_core d))) \<le> 1"
  using capture_run_runs one_capture [OF plays_reachable [OF _ Start]] by blast

theorem action_slot_owned_witness:
  "\<exists>d. plays demo_config capture_run demo_device = Some d
    \<and> (\<forall>token. action (c_dev (dv_core d)) = Some token \<longrightarrow>
         (\<exists>i t. dv_tasks d i = Some t \<and> token_of t = Some token))"
proof -
  obtain d where d: "plays demo_config capture_run demo_device = Some d" "length (started (dv_trace d)) = 1"
    using capture_run_runs by blast
  have "length (started (dv_trace d)) \<le> 2 ^ 64" using d(2) by simp
  from action_slot_owned [OF plays_reachable [OF d(1) Start] this] d(1) show ?thesis by blast
qed


theorem verify_attempts_bounded_witness:
  "\<exists>d. plays demo_config match_run demo_device = Some d
    \<and> length (filter (\<lambda>(j, e). j = 1 \<and> is_verify_submit e) (dv_trace d)) \<le> 6"
  using match_run_runs verify_attempts_bounded [OF plays_reachable [OF _ Start]] by blast


theorem slots_stay_unique_witness:
  "\<exists>d. plays demo_config delete_run demo_device = Some d
    \<and> (\<forall>u f u' f' k. get_slot u f (c_store (dv_core d)) = Some k \<and> get_slot u' f' (c_store (dv_core d)) = Some k
        \<longrightarrow> u = u' \<and> f = f')"
proof -
  have u: "\<forall>u f u' f' k. get_slot u f demo_registry = Some k \<and> get_slot u' f' demo_registry = Some k
      \<longrightarrow> u = u' \<and> f = f'"
    by (simp add: get_slot_def demo_registry_def demo_users_def users_get_put) (simp add: users_get_def)
  show ?thesis
    using delete_run_runs slots_stay_unique [OF plays_reachable [OF _ Start] u] by blast
qed


theorem deletions_pile_up_witness:
  "\<exists>d. reachable demo_config demo_registry (demo_world Map.empty) d \<and> length (c_queue (dv_core d)) = 1000"
proof -
  have "authorize_username (cf_bus demo_config) (Some '':1.5'') [] = Ok ''mat''" "''right-thumb'' \<in> set FINGER_NAMES"
    by (simp_all add: demo_config_def demo_authorize FINGER_NAMES_def)
  from deletions_pile_up [OF this demo_get_slot, of _ 1000] show ?thesis by blast
qed

end
