(* ===== verification/Pair_Link.thy ===== *)
theory Pair_Link
  imports Sensor_Lines
begin

text \<open>
  \<open>pairing.rs\<close>, the part that talks to the firmware: the struct \<open>Link\<close>, which has its own line reader
  (the driver of \<open>sensor.rs\<close> is not used while the daemon is stopped), and the parser of the status
  line. The struct is its buffer \<open>rx\<close>; the port is in the world. Messages keep their fixed text.
\<close>

type_synonym link = "u8 list"
type_synonym 'a link_io = "(link \<times> world, 'a, any_error) io"

section \<open>Lines\<close>

definition link_line :: "u8 list \<Rightarrow> str" where
  "link_line bs = from_utf8_lossy (of_bytes (if bs \<noteq> [] \<and> last bs = 13 then butlast bs else bs))"

function link_read :: "nat \<Rightarrow> str option link_io" where
  "link_read deadline (rx, w) =
     (case position 10 rx of
        Some nl \<Rightarrow> (Ok (Some (link_line (take nl rx))), drop (Suc nl) rx, w)
      | None \<Rightarrow>
          if deadline \<le> w_now w then (Ok None, rx, w)
          else (case port_poll w of
                  (Ok None, w') \<Rightarrow> link_read deadline (rx, w')
                | (Ok (Some bs), w') \<Rightarrow>
                    if 256 < length bs then (Panic, rx, w')
                    else link_read deadline (rx @ bs, w')
                | (Err e, w') \<Rightarrow> (Err (From_io e), rx, w')
                | (Panic, w') \<Rightarrow> (Panic, rx, w')))"
  by pat_completeness auto
termination
  by (relation "measure (\<lambda>(deadline, rx, w). deadline - w_now w)")
    (auto dest!: port_poll_nowD [OF sym])

declare link_read.simps [simp del]

definition link_read_line :: "nat \<Rightarrow> str option link_io" where
  "link_read_line max_wait s = link_read (w_now (snd s) + max_wait) s"

lemma link_read_progress:
  "link_read deadline (rx, w) = (Ok ol, rx', w') \<Longrightarrow>
     (ol = None \<longrightarrow> deadline \<le> w_now w') \<and>
     (w_now w' = w_now w \<and> (ol \<noteq> None \<longrightarrow> length rx' < length rx)
      \<or> w_now w < w_now w' \<and> w_now w < deadline)"
proof (induction deadline "(rx, w)" arbitrary: rx w rule: link_read.induct)
  case (1 deadline rx w)
  obtain rp w2 where p: "port_poll w = (rp, w2)" by (cases "port_poll w")
  have t: "rp \<noteq> Panic \<Longrightarrow> w_now w < w_now w2" using port_poll_nowD [OF p] .
  show ?case
  proof (cases "position 10 rx")
    case (Some nl)
    then show ?thesis
      using "1.prems" position_Some_less [OF Some] by (auto simp: link_read.simps [of _ rx w])
  next
    case None
    show ?thesis
    proof (cases "deadline \<le> w_now w")
      case True
      then show ?thesis using "1.prems" None by (auto simp: link_read.simps [of _ rx w])
    next
      case False
      show ?thesis
        using "1.hyps"(1) [OF None False p[symmetric]] "1.hyps"(2) [OF None False p[symmetric]]
          "1.prems" None False p t
        by (auto simp: link_read.simps [of _ rx w] split: result.splits option.splits if_splits)
    qed
  qed
qed

section \<open>The handshake\<close>

function pong_loop :: "nat \<Rightarrow> bool link_io" where
  "pong_loop per_attempt (rx, w) =
     (if per_attempt \<le> w_now w then (Ok False, rx, w)
      else (case link_read_line (per_attempt - w_now w) (rx, w) of
              (Ok (Some line), rx', w') \<Rightarrow>
                if line = ''OK pong'' then (Ok True, rx', w') else pong_loop per_attempt (rx', w')
            | (Ok None, rx', w') \<Rightarrow> (Ok False, rx', w')
            | (Err e, s') \<Rightarrow> (Err e, s')
            | (Panic, s') \<Rightarrow> (Panic, s')))"
  by pat_completeness auto
termination
  by (relation "measures [\<lambda>(d, rx, w). d - w_now w, \<lambda>(d, rx, w). length rx]")
    (auto simp: link_read_line_def dest!: link_read_progress [OF sym])

declare pong_loop.simps [simp del]

lemma pong_loop_False: "pong_loop d (rx, w) = (Ok False, rx', w') \<Longrightarrow> d \<le> w_now w'"
proof (induction d "(rx, w)" arbitrary: rx w rule: pong_loop.induct)
  case (1 d rx w)
  obtain r1 rx1 w1 where l: "link_read_line (d - w_now w) (rx, w) = (r1, rx1, w1)"
    by (cases "link_read_line (d - w_now w) (rx, w)")
  have late: "\<not> d \<le> w_now w \<Longrightarrow> r1 = Ok None \<Longrightarrow> d \<le> w_now w1"
    using l by (auto simp: link_read_line_def dest!: link_read_progress)
  show ?case
    using "1.hyps" [OF _ l[symmetric]] "1.prems" l late
    by (auto simp: pong_loop.simps [of _ rx w] split: if_splits result.splits option.splits)
qed

definition link_port :: "(world, 'a, io_error) io \<Rightarrow> 'a link_io" where
  "link_port m = on_world (map_err_io From_io m)"

definition clear_rx :: "unit link_io" where
  "clear_rx = modify_io (\<lambda>(rx, w). ([], w))"

definition link_attempt :: "bool link_io" where
  "link_attempt =
     bind_io clear_rx (\<lambda>_.
     bind_io (on_world (ignore_io port_call)) (\<lambda>_.
     bind_io (link_port (port_write_all (as_bytes ''ping'' @ [10]))) (\<lambda>_.
     bind_io (link_port port_call) (\<lambda>_.
     bind_io (on_world now) (\<lambda>t.
     pong_loop (t + from_millis 800))))))"

lemma link_attempt_False:
  assumes "link_attempt (rx, w) = (Ok False, rx', w')"
  shows "w_now w + from_millis 800 \<le> w_now w'"
proof -
  let ?I = "\<lambda>(_ :: link, v). w_now w \<le> w_now v"
  let ?Q = "\<lambda>b (_ :: link, v). \<not> b \<longrightarrow> w_now w + from_millis 800 \<le> w_now v"
  have time: "triple ?I (link_port m) (\<lambda>_. ?I) (\<lambda>_. True)"
    if "triple (\<lambda>v. w_now w \<le> w_now v) m (\<lambda>_ v. w_now w \<le> w_now v) (\<lambda>v. w_now w \<le> w_now v)"
    for m :: "(world, 'b, io_error) io"
    unfolding link_port_def
    by (intro triple_on_world triple_map_err triple_conseq [OF that]) auto
  have clear: "triple ?I clear_rx (\<lambda>_. ?I) (\<lambda>_. True)"
    unfolding clear_rx_def by (rule triple_modify) auto
  have drain: "triple ?I (on_world (ignore_io port_call)) (\<lambda>_. ?I) (\<lambda>_. True)"
    by (intro triple_on_world triple_conseq [OF triple_ignore [OF keeps_port_call [OF stable_time]]]) auto
  have pong: "triple (\<lambda>(rx, v). w_now w \<le> t) (pong_loop (t + from_millis 800)) ?Q (\<lambda>_. True)" for t
  proof (rule tripleI, goal_cases)
    case (1 s)
    obtain rx1 w1 where s: "s = (rx1, w1)" by (cases s)
    obtain r rx2 w2 where l: "pong_loop (t + from_millis 800) (rx1, w1) = (r, rx2, w2)"
      by (cases "pong_loop (t + from_millis 800) (rx1, w1)")
    have "r = Ok False \<Longrightarrow> t + from_millis 800 \<le> w_now w2" using pong_loop_False l by blast
    with 1 show ?case by (cases r) (auto simp: s l)
  qed
  have "triple ?I link_attempt ?Q (\<lambda>_. True)"
    unfolding link_attempt_def
  proof (intro triple_bind [OF clear] triple_bind [OF drain] triple_bind [OF time] triple_bind [OF _ pong])
    show "triple ?I (on_world now) (\<lambda>t (_, v). w_now w \<le> t) (\<lambda>_. True)"
      unfolding now_def by (intro triple_on_world triple_get) simp
  qed (simp_all add: keeps_port_call triple_port_write)
  from tripleD [OF this _ assms] show ?thesis by simp
qed

lemma link_attempt_later: "link_attempt (rx, w) = (Ok False, rx', w') \<Longrightarrow> w_now w < w_now w'"
  using link_attempt_False [of rx w rx' w'] by (simp add: from_millis_def)

function link_sync :: "nat \<Rightarrow> unit link_io" where
  "link_sync deadline (rx, w) =
     (if w_now w < deadline
      then (case link_attempt (rx, w) of
              (Ok True, s') \<Rightarrow> (Ok (), s')
            | (Ok False, s') \<Rightarrow> link_sync deadline s'
            | (Err e, s') \<Rightarrow> (Err e, s')
            | (Panic, s') \<Rightarrow> (Panic, s'))
      else (Err (Msg ''could not sync with firmware''), rx, w))"
  by pat_completeness auto
termination
  by (relation "measure (\<lambda>(deadline, rx, w). deadline - w_now w)")
    (auto dest!: link_attempt_later [OF sym])

declare link_sync.simps [simp del]

text \<open>\<open>Link::open\<close>, in the state of the link it makes.\<close>

definition link_open :: "unit link_io" where
  "link_open =
     bind_io (on_world (with_context ''opening'' port_call)) (\<lambda>_.
     bind_io clear_rx (\<lambda>_.
     bind_io (on_world now) (\<lambda>t. link_sync (t + from_millis 8000))))"

section \<open>Commands\<close>

definition timeout_context :: "str \<Rightarrow> str" where
  "timeout_context label = ''timeout reading reply to: '' @ label"

function reply_loop :: "nat \<Rightarrow> str \<Rightarrow> str link_io" where
  "reply_loop deadline label (rx, w) =
     (case link_read_line (deadline - w_now w) (rx, w) of
        (Ok None, s') \<Rightarrow> (Err (Msg (timeout_context label)), s')
      | (Ok (Some line), rx', w') \<Rightarrow>
          if line = [] \<or> starts_with line ''PROGRESS '' then reply_loop deadline label (rx', w')
          else (Ok line, rx', w')
      | (Err e, s') \<Rightarrow> (Err e, s')
      | (Panic, s') \<Rightarrow> (Panic, s'))"
  by pat_completeness auto
termination
  by (relation "measures [\<lambda>(d, l, rx, w). d - w_now w, \<lambda>(d, l, rx, w). length rx]")
    (auto simp: link_read_line_def dest!: link_read_progress [OF sym])

declare reply_loop.simps [simp del]

definition cmd_labeled :: "str \<Rightarrow> str \<Rightarrow> nat \<Rightarrow> str link_io" where
  "cmd_labeled wire label timeout =
     bind_io clear_rx (\<lambda>_.
     bind_io (on_world (ignore_io port_call)) (\<lambda>_.
     bind_io (link_port (port_write_all (as_bytes wire))) (\<lambda>_.
     bind_io (link_port (port_write_all [10])) (\<lambda>_.
     bind_io (link_port port_call) (\<lambda>_.
     bind_io (on_world now) (\<lambda>t.
     reply_loop (t + timeout) label))))))"

definition cmd :: "str \<Rightarrow> nat \<Rightarrow> str link_io" where
  "cmd c timeout = cmd_labeled c c timeout"

section \<open>The status line\<close>

record firmware_status =
  st_paired :: bool
  st_counter :: u64
  st_fmt :: u8
  st_fw :: str

record status_fields =
  f_paired :: "bool option"
  f_counter :: "u64 option"
  f_fmt :: "u8 option"
  f_fw :: "str option"

definition status_token :: "str \<Rightarrow> status_fields \<Rightarrow> status_fields" where
  "status_token tok f =
     (case split_once (CHR ''='') tok of
        None \<Rightarrow> f
      | Some (k, v) \<Rightarrow>
          if k = ''paired'' then f\<lparr>f_paired := Some (v = ''true'')\<rparr>
          else if k = ''counter'' then f\<lparr>f_counter := map_option of_nat (parse_uint 64 v)\<rparr>
          else if k = ''fmt'' then f\<lparr>f_fmt := map_option of_nat (parse_uint 8 v)\<rparr>
          else if k = ''fw'' then f\<lparr>f_fw := Some v\<rparr>
          else f)"

definition parse_status :: "str \<Rightarrow> (firmware_status, any_error) result" where
  "parse_status line =
     bind_r (ok_or (strip_prefix line ''OK '') (Msg ''status reply missing OK'')) (\<lambda>body.
     let f = fold status_token (split_whitespace body)
               \<lparr>f_paired = None, f_counter = None, f_fmt = None, f_fw = None\<rparr>
     in bind_r (ok_or (f_paired f) (Msg ''status missing paired'')) (\<lambda>p.
        bind_r (ok_or (f_counter f) (Msg ''status missing counter'')) (\<lambda>c.
        bind_r (ok_or (f_fmt f) (Msg ''status missing fmt'')) (\<lambda>m.
        bind_r (ok_or (f_fw f) (Msg ''status missing fw'')) (\<lambda>v.
        Ok \<lparr>st_paired = p, st_counter = c, st_fmt = m, st_fw = v\<rparr>)))))"

text \<open>\<open>parse_status(&link.cmd("status", 1 s)?)?\<close>, the query every flow starts with.\<close>

definition query_status :: "firmware_status link_io" where
  "query_status = bind_io (cmd ''status'' (from_millis 1000)) (\<lambda>raw. result_io (parse_status raw))"

section \<open>What a link keeps\<close>

text \<open>
  A stable assertion is kept by everything that waits for input; what is sent has to be looked at. The
  rules are for assertions on the world.
\<close>

abbreviation linked :: "(world \<Rightarrow> bool) \<Rightarrow> link \<times> world \<Rightarrow> bool" where
  "linked P \<equiv> (\<lambda>(_, w). P w)"

lemma link_read_keeps: "stable P \<Longrightarrow> P w \<Longrightarrow> link_read d (rx, w) = (r, rx', w') \<Longrightarrow> P w'"
proof (induction d "(rx, w)" arbitrary: rx w rule: link_read.induct)
  case (1 d rx w)
  obtain rp w2 where p: "port_poll w = (rp, w2)" by (cases "port_poll w")
  have "P w2"
    by (rule keeps_poll [OF "1.prems"(1,2) p])
  then show ?case
    using "1.hyps"(1) [OF _ _ p[symmetric]] "1.hyps"(2) [OF _ _ p[symmetric]] "1.prems" p
    by (auto simp: link_read.simps [of d rx] split: result.splits option.splits if_splits)
qed

lemma pong_loop_keeps: "stable P \<Longrightarrow> P w \<Longrightarrow> pong_loop d (rx, w) = (r, rx', w') \<Longrightarrow> P w'"
proof (induction d "(rx, w)" arbitrary: rx w rule: pong_loop.induct)
  case (1 d rx w)
  obtain r1 rx1 w1 where l: "link_read_line (d - w_now w) (rx, w) = (r1, rx1, w1)"
    by (cases "link_read_line (d - w_now w) (rx, w)")
  then have "P w1" using link_read_keeps "1.prems" by (auto simp: link_read_line_def)
  then show ?case
    using "1.hyps" [OF _ l[symmetric]] "1.prems" l
    by (auto simp: pong_loop.simps [of d rx] split: result.splits option.splits if_splits)
qed

lemma reply_loop_keeps: "stable P \<Longrightarrow> P w \<Longrightarrow> reply_loop d label (rx, w) = (r, rx', w') \<Longrightarrow> P w'"
proof (induction d label "(rx, w)" arbitrary: rx w rule: reply_loop.induct)
  case (1 d label rx w)
  obtain r1 rx1 w1 where l: "link_read_line (d - w_now w) (rx, w) = (r1, rx1, w1)"
    by (cases "link_read_line (d - w_now w) (rx, w)")
  then have "P w1" using link_read_keeps "1.prems" by (auto simp: link_read_line_def)
  then show ?case
    using "1.hyps" [OF l[symmetric]] "1.prems" l
    by (auto simp: reply_loop.simps [of d label rx] split: result.splits option.splits if_splits)
qed

text \<open>An assertion that sending these bytes keeps.\<close>

definition sends_ok :: "(world \<Rightarrow> bool) \<Rightarrow> u8 list \<Rightarrow> bool" where
  "sends_ok P bs \<longleftrightarrow> (\<forall>w n. P w \<longrightarrow> P (w\<lparr>w_wire := w_wire w @ [(bs, n)]\<rparr>))"

lemma linked_loop: "(\<And>rx w r rx' w'. P w \<Longrightarrow> m (rx, w) = (r, rx', w') \<Longrightarrow> P w') \<Longrightarrow>
    triple (linked P) m (\<lambda>_. linked P) (linked P)"
  by (auto simp: keeps_triple [symmetric] keeps_def) (metis prod.collapse)

lemma linked_world: "triple P m (\<lambda>_. P) P \<Longrightarrow> triple (linked P) (on_world m) (\<lambda>_. linked P) (linked P)"
  by (rule triple_on_world) simp

lemma linked_rules:
  assumes "stable P"
  shows "triple (linked P) clear_rx (\<lambda>_. linked P) (linked P)"
    "triple (linked P) (on_world (ignore_io port_call)) (\<lambda>_. linked P) (linked P)"
    "triple (linked P) (link_port port_call) (\<lambda>_. linked P) (linked P)"
    "triple (linked P) (on_world now) (\<lambda>_. linked P) (linked P)"
    "triple (linked P) (pong_loop d) (\<lambda>_. linked P) (linked P)"
    "triple (linked P) (reply_loop d label) (\<lambda>_. linked P) (linked P)"
    "triple (linked P) (on_world (with_context msg port_call)) (\<lambda>_. linked P) (linked P)"
proof -
  show "triple (linked P) clear_rx (\<lambda>_. linked P) (linked P)"
    unfolding clear_rx_def by (rule triple_modify) auto
  show "triple (linked P) (pong_loop d) (\<lambda>_. linked P) (linked P)"
    by (rule linked_loop, erule pong_loop_keeps [OF assms], assumption)
  show "triple (linked P) (reply_loop d label) (\<lambda>_. linked P) (linked P)"
    by (rule linked_loop, erule reply_loop_keeps [OF assms], assumption)
qed (auto simp: link_port_def intro!: linked_world triple_ignore triple_map_err triple_with_context
    keeps_port_call keeps_now assms)

lemma linked_write:
  assumes "stable P" "\<And>w n. P w \<Longrightarrow> R (w\<lparr>w_wire := w_wire w @ [(bs, n)]\<rparr>)" "stable R"
  shows "triple (linked P) (link_port (port_write_all bs)) (\<lambda>_. linked R) (linked R)"
  unfolding link_port_def
  by (intro triple_on_world triple_map_err triple_port_write) (use assms in \<open>auto simp: stable_def\<close>)

lemma linked_attempt:
  assumes "stable P" "sends_ok P (as_bytes ''ping'' @ [10])"
  shows "triple (linked P) link_attempt (\<lambda>_. linked P) (linked P)"
  unfolding link_attempt_def
  by (intro keeps_bind linked_rules linked_write assms) (use assms(2) in \<open>simp add: sends_ok_def\<close>)

lemma linked_sync:
  assumes "stable P" "sends_ok P (as_bytes ''ping'' @ [10])"
  shows "triple (linked P) (link_sync d) (\<lambda>_. linked P) (linked P)"
proof (rule linked_loop)
  fix rx w r rx' w' assume "P w" "link_sync d (rx, w) = (r, rx', w')"
  then show "P w'"
  proof (induction d "(rx, w)" arbitrary: rx w rule: link_sync.induct)
    case (1 d rx w)
    obtain r1 rx1 w1 where a: "link_attempt (rx, w) = (r1, rx1, w1)" by (cases "link_attempt (rx, w)")
    have "P w1" using tripleD [OF linked_attempt [OF assms] _ a] "1.prems"(1) by (cases r1) simp_all
    then show ?case
      using "1.hyps" [OF _ a[symmetric]] "1.prems" a
      by (auto simp: link_sync.simps [of d rx] split: result.splits if_splits bool.splits)
  qed
qed

lemma linked_open:
  assumes "stable P" "sends_ok P (as_bytes ''ping'' @ [10])"
  shows "triple (linked P) link_open (\<lambda>_. linked P) (linked P)"
  unfolding link_open_def by (intro keeps_bind linked_rules linked_sync assms)

text \<open>A command: what holds before it may become weaker by the write.\<close>

lemma linked_cmd:
  assumes "stable P" "stable R" "\<And>w. P w \<Longrightarrow> R w" "sends_ok R [10]"
    and "\<And>w n. P w \<Longrightarrow> R (w\<lparr>w_wire := w_wire w @ [(as_bytes c, n)]\<rparr>)"
  shows "triple (linked P) (cmd_labeled c label timeout) (\<lambda>_. linked R) (linked R)"
proof -
  have quiet: "triple (linked P) m (\<lambda>_. linked P) (linked R)"
    if "triple (linked P) m (\<lambda>_. linked P) (linked P)" for m :: "'b link_io"
    by (rule triple_conseq [OF that]) (auto intro: assms(3))
  have nl: "R w \<Longrightarrow> R (w\<lparr>w_wire := w_wire w @ [([10], n)]\<rparr>)" for w n
    using assms(4) by (simp add: sends_ok_def)
  show ?thesis
    unfolding cmd_labeled_def
    by (intro triple_bind [OF quiet [OF linked_rules(1) [OF assms(1)]]]
        triple_bind [OF quiet [OF linked_rules(2) [OF assms(1)]]]
        triple_bind [OF linked_write [OF assms(1,5,2)]] keeps_bind linked_rules linked_write assms(2) nl)
qed

lemma linked_query:
  assumes "stable P" "sends_ok P (as_bytes ''status'')" "sends_ok P [10]"
  shows "triple (linked P) query_status (\<lambda>_. linked P) (linked P)"
  unfolding query_status_def cmd_def
  by (intro keeps_bind linked_cmd assms triple_result) (use assms(2) in \<open>auto simp: sends_ok_def\<close>)

section \<open>The handshake ends\<close>

lemma wire_count_stable: "stable (\<lambda>w. length (w_wire w) \<le> n)"
  by (auto simp: stable_def step_world_def)

lemma link_attempt_wire:
  assumes "link_attempt (rx, w) = (r, rx', w')"
  shows "length (w_wire w') \<le> Suc (length (w_wire w))"
proof -
  let ?P = "\<lambda>n v. length (w_wire v) \<le> n" and ?n = "length (w_wire w)"
  note st = wire_count_stable
  have early: "triple (linked (?P ?n)) m (\<lambda>_. linked (?P ?n)) (linked (?P (Suc ?n)))"
    if "triple (linked (?P ?n)) m (\<lambda>_. linked (?P ?n)) (linked (?P ?n))" for m :: "'b link_io"
    by (rule triple_conseq [OF that]) auto
  have "triple (linked (?P ?n)) link_attempt (\<lambda>_. linked (?P (Suc ?n))) (linked (?P (Suc ?n)))"
    unfolding link_attempt_def
    by (intro triple_bind [OF early [OF linked_rules(1) [OF st]]] triple_bind [OF early [OF linked_rules(2) [OF st]]]
        triple_bind [OF linked_write [OF st _ st]] keeps_bind linked_rules st) simp
  from tripleD [OF this _ assms] show ?thesis by (cases r) simp_all
qed

text \<open>
  Claim C31. Opening a link ends: whatever the firmware answers, and however long each call takes, the
  handshake starts at most ten attempts, one ping each, because an attempt that fails has lasted its
  800 ms and none starts after the eight seconds.
\<close>

theorem handshake_bounded:
  assumes "link_open (rx, w) = (r, rx', w')"
  shows "length (w_wire w') \<le> length (w_wire w) + 10"
proof -
  have sync: "length (w_wire v') \<le> length (w_wire v) + k"
    if "link_sync d (b, v) = (r, b', v')" "d \<le> w_now v + k * from_millis 800" for d b v r b' v' k
    using that
  proof (induction d "(b, v)" arbitrary: b v k rule: link_sync.induct)
    case (1 d b v)
    obtain r1 b1 v1 where a: "link_attempt (b, v) = (r1, b1, v1)" by (cases "link_attempt (b, v)")
    have wire: "length (w_wire v1) \<le> Suc (length (w_wire v))" by (rule link_attempt_wire [OF a])
    show ?case
    proof (cases "w_now v < d")
      case True
      with "1.prems"(2) obtain k' where k: "k = Suc k'" by (cases k) auto
      have "d \<le> w_now v1 + k' * from_millis 800" if "r1 = Ok False"
        using link_attempt_False [of b v b1 v1] a that "1.prems"(2) k by simp
      then show ?thesis
        using "1.hyps" [OF True a[symmetric], of False k'] "1.prems"(1) a True wire k
        by (auto simp: link_sync.simps [of d b] split: result.splits bool.splits)
    qed (use "1.prems" in \<open>auto simp: link_sync.simps [of d b]\<close>)
  qed
  let ?P = "\<lambda>v. length (w_wire v) \<le> length (w_wire w)"
  note st = wire_count_stable [of "length (w_wire w)"]
  let ?Q = "\<lambda>v. length (w_wire v) \<le> length (w_wire w) + 10"
  have early: "triple (linked ?P) m (\<lambda>_. linked ?P) (linked ?Q)"
    if "triple (linked ?P) m (\<lambda>_. linked ?P) (linked ?P)" for m :: "'b link_io"
    by (rule triple_conseq [OF that]) auto
  have "triple (linked ?P) (bind_io (on_world now) (\<lambda>t. link_sync (t + from_millis 8000))) (\<lambda>_. linked ?Q) (linked ?Q)"
  proof (rule tripleI, goal_cases)
    case (1 s)
    obtain b v where s: "s = (b, v)" by (cases s)
    obtain r' b' v' where l: "link_sync (w_now v + from_millis 8000) (b, v) = (r', b', v')"
      by (cases "link_sync (w_now v + from_millis 8000) (b, v)")
    have "length (w_wire v') \<le> length (w_wire v) + 10" by (rule sync [OF l]) (simp add: from_millis_def)
    with 1 l show ?case by (cases r') (simp_all add: s bind_io_def on_world_def now_def get_io_def)
  qed
  then have "triple (linked ?P) link_open (\<lambda>_. linked ?Q) (linked ?Q)"
    unfolding link_open_def
    by (intro triple_bind [OF early [OF linked_rules(7) [OF st]]] triple_bind [OF early [OF linked_rules(1) [OF st]]])
  from tripleD [OF this _ assms] show ?thesis by (cases r) simp_all
qed

theorem handshake_bounded_witness:
  "length (w_wire (snd (snd (link_open ([], demo_world Map.empty))))) \<le> 10"
proof -
  obtain r rx' w' where l: "link_open ([], demo_world Map.empty) = (r, rx', w')"
    by (cases "link_open ([], demo_world Map.empty)")
  show ?thesis using handshake_bounded [OF l] by (simp add: l) (simp add: demo_world_def)
qed

section \<open>A reply does not depend on what was sent\<close>

text \<open>
  Two runs that differ only in what is on the wire: the same answer, the same buffer, and worlds that
  differ only there.
\<close>

definition rewire :: "(u8 list \<times> nat) list \<Rightarrow> world \<Rightarrow> world" where
  "rewire X w = w\<lparr>w_wire := X\<rparr>"

lemma rewire_simps [simp]:
  "w_env (rewire X w) = w_env w" "w_tick (rewire X w) = w_tick w" "w_now (rewire X w) = w_now w"
  "w_fs (rewire X w) = w_fs w" "w_wire (rewire X w) = X" "rewire X (rewire Y w) = rewire X w"
  "step_world k (rewire X w) = rewire X (step_world k w)"
  "(rewire X w)\<lparr>w_crashed := b\<rparr> = rewire X (w\<lparr>w_crashed := b\<rparr>)"
  by (simp_all add: rewire_def step_world_def)

lemma port_call_rewire: "port_call (rewire X w) = apsnd (rewire X) (port_call w)"
  by (simp add: port_call_def atomic_call_def syscall_def return_io_def Let_def split: option.splits fault.splits)

lemma port_read_rewire: "port_read (rewire X w) = apsnd (rewire X) (port_read w)"
  by (simp add: port_read_def split: option.splits fault.splits)

lemma port_poll_rewire: "port_poll (rewire X w) = apsnd (rewire X) (port_poll w)"
  by (simp add: port_poll_def bind_io_def ignore_io_def match_io_def return_io_def fail_io_def
      port_call_rewire port_read_rewire split: prod.splits result.splits)

lemma link_read_rewire:
  "link_read d (rx, rewire X w) = (case link_read d (rx, w) of (r, rx', w') \<Rightarrow> (r, rx', rewire X w'))"
proof (induction d "(rx, w)" arbitrary: rx w rule: link_read.induct)
  case (1 d rx w)
  obtain rp w2 where p: "port_poll w = (rp, w2)" by (cases "port_poll w")
  show ?case
  proof (cases "position 10 rx = None \<and> \<not> d \<le> w_now w")
    case True
    then show ?thesis
      using "1.hyps"(1) [OF _ _ p[symmetric]] "1.hyps"(2) [OF _ _ p[symmetric]] p
      by (auto simp: link_read.simps [of d rx] port_poll_rewire split: result.splits option.splits)
  qed (auto simp: link_read.simps [of d rx] split: option.splits)
qed

lemma reply_loop_rewire:
  "reply_loop d label (rx, rewire X w) = (case reply_loop d label (rx, w) of (r, rx', w') \<Rightarrow> (r, rx', rewire X w'))"
proof (induction d label "(rx, w)" arbitrary: rx w rule: reply_loop.induct)
  case (1 d label rx w)
  obtain r1 rx1 w1 where l: "link_read_line (d - w_now w) (rx, w) = (r1, rx1, w1)"
    by (cases "link_read_line (d - w_now w) (rx, w)")
  then have l': "link_read_line (d - w_now w) (rx, rewire X w) = (r1, rx1, rewire X w1)"
    by (simp add: link_read_line_def link_read_rewire)
  show ?case
    using "1.hyps" [OF l[symmetric]] l l'
    by (auto simp: reply_loop.simps [of d label rx] split: result.splits option.splits)
qed

definition blind :: "'a link_io \<Rightarrow> 'a link_io \<Rightarrow> bool" where
  "blind m1 m2 \<longleftrightarrow> (\<forall>rx w X. \<exists>r rx' w' Y.
     m1 (rx, w) = (r, rx', w') \<and> m2 (rx, rewire X w) = (r, rx', rewire Y w'))"

lemma blind_bind:
  assumes "blind m1 m2" "\<And>x. blind (f1 x) (f2 x)"
  shows "blind (bind_io m1 f1) (bind_io m2 f2)"
  unfolding blind_def
proof (intro allI)
  fix rx w X
  obtain r rx' w' Y where m: "m1 (rx, w) = (r, rx', w')" "m2 (rx, rewire X w) = (r, rx', rewire Y w')"
    using assms(1) unfolding blind_def by blast
  show "\<exists>r rx' w' Y. bind_io m1 f1 (rx, w) = (r, rx', w') \<and> bind_io m2 f2 (rx, rewire X w) = (r, rx', rewire Y w')"
  proof (cases r)
    case (Ok x)
    obtain r' rx'' w'' Y' where "f1 x (rx', w') = (r', rx'', w'')" "f2 x (rx', rewire Y w') = (r', rx'', rewire Y' w'')"
      using assms(2) [of x] unfolding blind_def by blast
    with m Ok show ?thesis by (auto simp: bind_io_def)
  qed (use m in \<open>auto simp: bind_io_def\<close>)
qed

lemma blind_world:
  assumes "\<And>w X. \<exists>Y. m2 (rewire X w) = apsnd (rewire Y) (m1 w)"
  shows "blind (on_world m1) (on_world m2)"
  unfolding blind_def
proof (intro allI)
  fix rx w X
  obtain Y where Y: "m2 (rewire X w) = apsnd (rewire Y) (m1 w)" using assms by blast
  obtain r w' where "m1 w = (r, w')" by (cases "m1 w")
  with Y show "\<exists>r rx' w' Y. on_world m1 (rx, w) = (r, rx', w') \<and> on_world m2 (rx, rewire X w) = (r, rx', rewire Y w')"
    by (intro exI [of _ r] exI [of _ rx] exI [of _ w'] exI [of _ Y]) (simp add: on_world_def)
qed

lemma blind_quiet: "(\<And>w X. m (rewire X w) = apsnd (rewire X) (m w)) \<Longrightarrow> blind (on_world m) (on_world m)"
  by (rule blind_world) blast

text \<open>A write succeeds, fails or kills the process whatever the bytes are.\<close>

lemma blind_write: "blind (link_port (port_write_all a)) (link_port (port_write_all b))"
  unfolding link_port_def
proof (rule blind_world)
  fix w X
  have wire: "(rewire X w)\<lparr>w_wire := Z\<rparr> = rewire Z w" "w\<lparr>w_wire := Z\<rparr> = rewire Z w" for Z :: "(u8 list \<times> nat) list" and w
    by (simp_all add: rewire_def)
  show "\<exists>Y. map_err_io From_io (port_write_all b) (rewire X w) = apsnd (rewire Y) (map_err_io From_io (port_write_all a) w)"
  proof (cases "e_fault (w_env w) (w_tick w)")
    case None
    then show ?thesis
      by (intro exI [of _ "X @ [(b, length b)]"])
        (simp add: port_write_all_def syscall_def Let_def map_err_io_def wire)
  next
    case (Some f)
    then show ?thesis
      by (cases f; intro exI [of _ "X @ [(b, min (case f of Fail e n \<Rightarrow> n | Crash n \<Rightarrow> n) (length b))]"])
        (simp_all add: port_write_all_def syscall_def Let_def map_err_io_def wire)
  qed
qed

lemma blind_rest:
  "blind clear_rx clear_rx" "blind (on_world (ignore_io port_call)) (on_world (ignore_io port_call))"
  "blind (link_port port_call) (link_port port_call)" "blind (on_world now) (on_world now)"
  "blind (reply_loop d label) (reply_loop d label)"
proof -
  show "blind clear_rx clear_rx" by (auto simp: blind_def clear_rx_def modify_io_def)
  show "blind (on_world (ignore_io port_call)) (on_world (ignore_io port_call))"
    by (rule blind_quiet)
      (simp add: ignore_io_def match_io_def return_io_def port_call_rewire split: prod.split result.split)
  show "blind (link_port port_call) (link_port port_call)"
    unfolding link_port_def
    by (rule blind_quiet) (simp add: map_err_io_def port_call_rewire split: prod.split)
  show "blind (on_world now) (on_world now)"
    by (rule blind_quiet) (simp add: now_def get_io_def)
  show "blind (reply_loop d label) (reply_loop d label)"
    unfolding blind_def
  proof (intro allI)
    fix rx w X
    show "\<exists>r rx' w' Y. reply_loop d label (rx, w) = (r, rx', w') \<and> reply_loop d label (rx, rewire X w) = (r, rx', rewire Y w')"
      by (cases "reply_loop d label (rx, w)") (auto simp: reply_loop_rewire)
  qed
qed

text \<open>
  Claim C30. The error of a pairing command cannot carry the key: run with any two command texts (and
  from worlds that differ only in what was sent before), \<open>cmd_labeled\<close> gives the same result, error
  text included, and leaves states that differ only in what is on the wire.
\<close>

theorem reply_independent_of_command:
  assumes "cmd_labeled secret1 label timeout (rx, w) = (r1, rx1, w1)"
    and "cmd_labeled secret2 label timeout (rx, w\<lparr>w_wire := X\<rparr>) = (r2, rx2, w2)"
  shows "r1 = r2 \<and> rx1 = rx2 \<and> w2 = w1\<lparr>w_wire := w_wire w2\<rparr>"
proof -
  have "blind (cmd_labeled secret1 label timeout) (cmd_labeled secret2 label timeout)"
    unfolding cmd_labeled_def by (intro blind_bind blind_write blind_rest)
  then obtain r rx' w' Y where "cmd_labeled secret1 label timeout (rx, w) = (r, rx', w')"
      "cmd_labeled secret2 label timeout (rx, rewire X w) = (r, rx', rewire Y w')"
    unfolding blind_def by blast
  with assms show ?thesis by (auto simp: rewire_def)
qed

theorem reply_independent_of_command_witness:
  "fst (cmd_labeled ''pair 00112233445566778899aabbccddeeff'' ''pair'' (from_millis 2000) ([], demo_world Map.empty))
   = fst (cmd_labeled ''pair ffeeddccbbaa99887766554433221100'' ''pair'' (from_millis 2000) ([], demo_world Map.empty))"
proof -
  let ?w = "demo_world Map.empty"
  obtain r1 rx1 w1 where a: "cmd_labeled ''pair 00112233445566778899aabbccddeeff'' ''pair'' (from_millis 2000) ([], ?w) = (r1, rx1, w1)"
    by (cases "cmd_labeled ''pair 00112233445566778899aabbccddeeff'' ''pair'' (from_millis 2000) ([], ?w)")
  obtain r2 rx2 w2 where b: "cmd_labeled ''pair ffeeddccbbaa99887766554433221100'' ''pair'' (from_millis 2000) ([], ?w\<lparr>w_wire := []\<rparr>) = (r2, rx2, w2)"
    by (cases "cmd_labeled ''pair ffeeddccbbaa99887766554433221100'' ''pair'' (from_millis 2000) ([], ?w\<lparr>w_wire := []\<rparr>)")
  have "?w\<lparr>w_wire := []\<rparr> = ?w" by (simp add: demo_world_def)
  with reply_independent_of_command [OF a b] a b show ?thesis by simp
qed

end
