(* ===== verification/Keystore.thy ===== *)
theory Keystore
  imports Replace_File Hex Rust_Utf8
begin

text \<open>
  \<open>keystore.rs\<close>: the host's key on disk, in plain text (the live file and a read-only copy) or sealed
  by the TPM, and the marker that allows pairing. Sealing and unsealing are calls into the TPM and
  are parameters here, as computations on the world; so is the kernel's random generator.

  The memory the code scrubs (\<open>Zeroizing\<close>) is not modelled: a value is a value.
\<close>

section \<open>Paths\<close>

definition KEY_DIR :: str where "KEY_DIR = ''/var/lib/r503d''"
definition KEY_PATH :: str where "KEY_PATH = ''/var/lib/r503d/key''"
definition KEY_BAK_PATH :: str where "KEY_BAK_PATH = ''/var/lib/r503d/key.bak''"
definition KEY_TPM_PATH :: str where "KEY_TPM_PATH = ''/var/lib/r503d/key.tpm''"
definition KEY_TMP :: str where "KEY_TMP = KEY_PATH @ ''.tmp''"
definition KEY_TPM_TMP :: str where "KEY_TPM_TMP = KEY_TPM_PATH @ ''.tmp''"
definition ALLOW_PAIR_PATH :: str where "ALLOW_PAIR_PATH = ''/etc/r503d/allow-pair''"

datatype key_source = Plaintext | Tpm

type_synonym 'a any_io = "(world, 'a, any_error) io"

text \<open>The services: sealing under PCRs, sealing without a policy, unsealing, random bytes.\<close>

record key_services =
  seal_pcrs :: "u8 list \<Rightarrow> u8 list \<Rightarrow> u8 list any_io"
  seal_plain :: "u8 list \<Rightarrow> u8 list any_io"
  unseal :: "u8 list \<Rightarrow> u8 list any_io"
  get_random :: "u8 list any_io"

section \<open>The hexadecimal form\<close>

definition key_hex :: "u8 list \<Rightarrow> str" where
  "key_hex key = hex_bytes key"

definition key_nybble :: "u8 \<Rightarrow> (u8, any_error) result" where
  "key_nybble c =
     (if 48 \<le> unat c \<and> unat c \<le> 57 then Ok (c - 48)
      else if 97 \<le> unat c \<and> unat c \<le> 102 then Ok (10 + c - 97)
      else if 65 \<le> unat c \<and> unat c \<le> 70 then Ok (10 + c - 65)
      else Err (Msg ''non-hex byte''))"

definition parse_key_hex :: "str \<Rightarrow> (u8 list, any_error) result" where
  "parse_key_hex s =
     (if length s \<noteq> 32 then Err (Msg ''key must be 32 hex chars'')
      else hex_pairs key_nybble (as_bytes s))"

section \<open>The marker\<close>

definition allow_pair_present :: "(world, bool, 'e) io" where
  "allow_pair_present = fs_exists ALLOW_PAIR_PATH"

text \<open>Removing a file that may be missing.\<close>

definition remove_if_there :: "str \<Rightarrow> str \<Rightarrow> unit any_io" where
  "remove_if_there msg p =
     match_io (fs_remove_file p) return_io
       (\<lambda>e. if err_kind e = NotFound then return_io () else fail_io (Context msg (From_io e)))"

definition remove_allow_pair :: "unit any_io" where
  "remove_allow_pair = remove_if_there ''removing allow-pair marker'' ALLOW_PAIR_PATH"

section \<open>Loading\<close>

definition read_to_string :: "node \<Rightarrow> (world, str, io_error) io" where
  "read_to_string nd = atomic_call (\<lambda>w.
     (bind_r (node_data nd) (\<lambda>d.
        if utf8_valid (of_bytes d) then Ok (of_bytes d) else Err (Io_error InvalidData [])), w))"

definition read_key_file_guarded :: "str \<Rightarrow> u32 \<Rightarrow> (world, str option, 'e) io" where
  "read_key_file_guarded path allow_mask =
     match_io (fs_symlink_metadata path)
       (\<lambda>meta.
          if is_symlink meta then return_io None
          else if node_uid meta \<noteq> 0 then return_io None
          else if (node_mode meta AND o777) AND allow_mask \<noteq> 0 then return_io None
          else match_io (fs_open_nofollow path)
            (\<lambda>f. match_io (read_to_string f) (\<lambda>s. return_io (Some s)) (\<lambda>_. return_io None))
            (\<lambda>_. return_io None))
       (\<lambda>_. return_io None)"

fun load_key_from :: "(str \<times> u32) list \<Rightarrow> (world, u8 list option, 'e) io" where
  "load_key_from [] = return_io None"
| "load_key_from ((p, allow_mask) # rest) =
     bind_io (read_key_file_guarded p allow_mask) (\<lambda>text.
       case Option.bind text (\<lambda>hex. ok_of (parse_key_hex (trim hex))) of
         Some k \<Rightarrow> return_io (Some k)
       | None \<Rightarrow> load_key_from rest)"

definition load_key :: "(world, u8 list option, 'e) io" where
  "load_key = load_key_from [(KEY_PATH, o077), (KEY_BAK_PATH, o177)]"

definition load_key_with_source :: "key_services \<Rightarrow> (u8 list \<times> key_source) option any_io" where
  "load_key_with_source K =
     bind_io (fs_exists KEY_TPM_PATH) (\<lambda>there.
       if there
       then bind_io (with_context ''reading sealed key blob'' (fs_read KEY_TPM_PATH)) (\<lambda>blob.
            bind_io (map_err_io (Context ''unsealing TPM-protected host key'') (unseal K blob)) (\<lambda>key.
            return_io (Some (key, Tpm))))
       else bind_io load_key (\<lambda>k. return_io (map_option (\<lambda>key. (key, Plaintext)) k)))"

section \<open>Saving\<close>

definition secure_key_dir :: "unit any_io" where
  "secure_key_dir =
     bind_io (with_context ''creating'' (fs_create_dir_all KEY_DIR)) (\<lambda>_.
     ignore_io (fs_set_permissions KEY_DIR o700))"

text \<open>\<open>fs::copy\<close>: contents and permission bits; the target is truncated first.\<close>

definition fs_copy :: "str \<Rightarrow> str \<Rightarrow> (world, unit, io_error) io" where
  "fs_copy p q =
     bind_io (fs_metadata p) (\<lambda>nd.
     bind_io (fs_read p) (\<lambda>d.
     bind_io (fs_open_truncate q (node_mode nd)) (\<lambda>f.
     bind_io (fs_set_permissions q (node_mode nd)) (\<lambda>_.
     bind_io (fs_write_all f d) (\<lambda>_. return_io ())))))"

definition save_key :: "u8 list \<Rightarrow> unit any_io" where
  "save_key key =
     bind_io secure_key_dir (\<lambda>_.
     bind_io (with_context ''creating'' (fs_open_truncate KEY_TMP o600)) (\<lambda>f.
     bind_io (map_err_io From_io (fs_write_all f (as_bytes (key_hex key)))) (\<lambda>f.
     bind_io (map_err_io From_io (fs_write_all f [10])) (\<lambda>f.
     bind_io (map_err_io From_io (fs_sync_all f)) (\<lambda>_.
     bind_io (with_context ''renaming'' (fs_rename KEY_TMP KEY_PATH)) (\<lambda>_.
     bind_io (with_context ''copying'' (fs_copy KEY_PATH KEY_BAK_PATH)) (\<lambda>_.
     ignore_io (fs_set_permissions KEY_BAK_PATH o400))))))))"

definition persist_sealed_blob :: "u8 list \<Rightarrow> unit any_io" where
  "persist_sealed_blob blob =
     bind_io secure_key_dir (\<lambda>_.
     bind_io (with_context ''creating'' (fs_open_truncate KEY_TPM_TMP o600)) (\<lambda>f.
     bind_io (map_err_io From_io (fs_write_all f blob)) (\<lambda>f.
     bind_io (map_err_io From_io (fs_sync_all f)) (\<lambda>_.
     with_context ''renaming'' (fs_rename KEY_TPM_TMP KEY_TPM_PATH)))))"

section \<open>Deleting\<close>

definition shred_file :: "str \<Rightarrow> (world, unit, io_error) io" where
  "shred_file path =
     match_io (fs_open_write path)
       (\<lambda>f. bind_io (fs_write_all f (replicate 33 0xFF)) (\<lambda>f. fs_sync_all f))
       (\<lambda>e. if err_kind e = NotFound then return_io () else fail_io e)"

fun delete_key_files :: "str list \<Rightarrow> unit any_io" where
  "delete_key_files [] = return_io ()"
| "delete_key_files (p # rest) =
     bind_io (ignore_io (fs_set_permissions p o600)) (\<lambda>_.
     bind_io (ignore_io (shred_file p)) (\<lambda>_.
     bind_io (remove_if_there ''removing'' p) (\<lambda>_. delete_key_files rest)))"

definition delete_key :: "unit any_io" where
  "delete_key = delete_key_files [KEY_PATH, KEY_BAK_PATH]"

definition save_key_sealed_with_pcrs :: "key_services \<Rightarrow> u8 list \<Rightarrow> u8 list \<Rightarrow> unit any_io" where
  "save_key_sealed_with_pcrs K key pcrs =
     bind_io (map_err_io (Context ''sealing key to TPM'') (seal_pcrs K key pcrs)) (\<lambda>blob.
     bind_io (persist_sealed_blob blob) (\<lambda>_. ignore_io delete_key))"

definition save_key_sealed :: "key_services \<Rightarrow> u8 list \<Rightarrow> unit any_io" where
  "save_key_sealed K key = save_key_sealed_with_pcrs K key [7]"

definition save_key_sealed_no_policy :: "key_services \<Rightarrow> u8 list \<Rightarrow> unit any_io" where
  "save_key_sealed_no_policy K key =
     bind_io (map_err_io (Context ''sealing key to TPM (no policy)'') (seal_plain K key)) (\<lambda>blob.
     bind_io (persist_sealed_blob blob) (\<lambda>_. ignore_io delete_key))"

definition delete_sealed_key :: "unit any_io" where
  "delete_sealed_key = remove_if_there ''removing'' KEY_TPM_PATH"

definition delete_all_keys :: "unit any_io" where
  "delete_all_keys = bind_io delete_key (\<lambda>_. delete_sealed_key)"

definition generate_key :: "key_services \<Rightarrow> u8 list any_io" where
  "generate_key K = map_err_io (\<lambda>_. Msg ''getrandom(2) failed'') (get_random K)"

section \<open>The hexadecimal form is read back\<close>

interpretation key_digits: hex_decoder key_nybble
proof
  fix c :: u8 and d assume v: "hex_value (unat c) = Some d"
  have c: "c = of_nat (unat c)" by simp
  show "key_nybble c = Ok (of_nat d)"
    using v by (subst c) (auto simp: hex_value_def key_nybble_def of_nat_diff split: if_splits)
next
  fix c :: u8 assume "hex_value (unat c) = None"
  then show "\<exists>e. key_nybble c = Err e"
    by (auto simp: hex_value_def key_nybble_def split: if_splits)
qed

text \<open>
  A key survives its text: the 32 digits \<open>key_hex\<close> writes are read back as the key, and a
  text that is accepted has 32 digits and is, in lower case, what \<open>key_hex\<close> writes for the 16 bytes
  read from it. The parser never panics.
\<close>

theorem key_hex_roundtrip:
  "(length key = 16 \<longrightarrow> parse_key_hex (key_hex key) = Ok key)
    \<and> (parse_key_hex s = Ok k \<longrightarrow> length s = 32 \<and> length k = 16 \<and> key_hex k = to_ascii_lowercase s)
    \<and> parse_key_hex s \<noteq> Panic"
proof (intro conjI impI)
  assume "length key = 16"
  then show "parse_key_hex (key_hex key) = Ok key"
    by (simp add: parse_key_hex_def key_hex_def length_hex_bytes key_digits.hex_pairs_hex_bytes)
next
  assume a: "parse_key_hex s = Ok k"
  then show "length s = 32" by (simp add: parse_key_hex_def split: if_splits)
  with a have h: "hex_pairs key_nybble (as_bytes s) = Ok k" "even (length s)" "length s = 32"
    by (simp_all add: parse_key_hex_def)
  from key_digits.length_hex_pairs [OF h(1)] h(3) show "length k = 16" by simp
  from key_digits.hex_pairs_canonical [OF h(1,2)] show "key_hex k = to_ascii_lowercase s"
    by (simp add: key_hex_def)
qed (simp add: parse_key_hex_def key_digits.hex_pairs_not_Panic)

theorem key_hex_roundtrip_witness:
  "parse_key_hex (key_hex (replicate 16 0xA7)) = Ok (replicate 16 0xA7)"
  using key_hex_roundtrip [of "replicate 16 0xA7"] by simp

section \<open>What may be loaded\<close>

text \<open>
  \<open>untouched\<close>: no other process changes what is at the path. \<open>key_at\<close>: the key at a path, which
  counts only in a regular file of root's with none of the forbidden permission bits.
\<close>

definition untouched :: "str \<Rightarrow> env \<Rightarrow> bool" where
  "untouched p e \<longleftrightarrow> (\<forall>t fs. e_other e t fs p = fs p)"

definition key_at :: "u32 \<Rightarrow> node option \<Rightarrow> u8 list option" where
  "key_at forbid nd =
     (case nd of
        Some (File d m u) \<Rightarrow>
          if u = 0 \<and> (m AND o777) AND forbid = 0 \<and> utf8_valid (of_bytes d)
          then ok_of (parse_key_hex (trim (of_bytes d))) else None
      | _ \<Rightarrow> None)"

definition text_key :: "str option \<Rightarrow> u8 list option" where
  "text_key t = Option.bind t (\<lambda>hex. ok_of (parse_key_hex (trim hex)))"

lemma hex_visible: "list_all (\<lambda>c. 33 \<le> ord c \<and> ord c < 127) (hex_bytes bs)"
proof (induction bs)
  case (Cons b bs)
  have "unat b div 16 < 16" "unat b mod 16 < 16" using unat_lt_2p8 [of b] by simp_all
  with Cons show ?case by (auto simp: hex_bytes_def hex_byte_def ord_hex_digit)
qed (simp add: hex_bytes_def)

lemma saved_key_at:
  assumes "length key = 16" "mode_600 (as_bytes (key_hex key) @ [10]) nd"
  shows "key_at o077 nd = Some key"
proof -
  have m: "(o600 :: u32) AND o077 = 0" by code_simp
  have t: "of_bytes (as_bytes (key_hex key) @ [10]) = key_hex key @ [char_of (10 :: nat)]"
    by (simp add: of_bytes_def as_bytes_def comp_def unat_of_char)
  have "key_hex key \<noteq> []"
    using assms(1) length_hex_bytes [of key] by (auto simp: key_hex_def simp del: length_hex_bytes)
  then have "trim (key_hex key @ [char_of (10 :: nat)]) = key_hex key"
    by (intro trim_visible) (simp_all add: key_hex_def hex_visible)
  moreover have "utf8_valid (key_hex key @ [char_of (10 :: nat)])"
    by (rule ascii_utf8_valid) (simp add: key_hex_def hex_bytes_ascii is_ascii_def ord_char_of)
  moreover have "parse_key_hex (key_hex key) = Ok key"
    using assms(1)
    by (simp add: parse_key_hex_def key_hex_def length_hex_bytes key_digits.hex_pairs_hex_bytes)
  ultimately show ?thesis
    using assms(2) m t by (auto simp: mode_600_def key_at_def)
qed

lemma atomic_look:
  assumes "atomic_call (\<lambda>w. (f w, w)) w = (r, w')"
  shows "w_env w' = w_env w" "r = Ok x \<Longrightarrow> f w' = Ok x"
    "untouched p (w_env w) \<Longrightarrow> w_fs w' p = w_fs w p"
    "no_faults (w_env w) \<Longrightarrow> r = f w'"
  using assms
  by (auto simp: atomic_call_def syscall_def Let_def untouched_def step_world_def no_faults_def
      split: option.splits fault.splits)

lemmas guarded_calls = fs_symlink_metadata_def fs_open_nofollow_def read_to_string_def

text \<open>
  The guarded read changes nothing. What it accepts is the text of a file \<open>key_at\<close> accepts; when no
  call fails it accepts every such text.
\<close>

lemma guarded_read:
  assumes "read_key_file_guarded p forbid w = (r, w')" "untouched p (w_env w)"
  shows "w_env w' = w_env w \<and> (\<forall>q. untouched q (w_env w) \<longrightarrow> w_fs w' q = w_fs w q)
    \<and> (r = Panic \<or> (\<exists>t. r = Ok t \<and> text_key t \<in> {None, key_at forbid (w_fs w p)}))
    \<and> (no_faults (w_env w) \<longrightarrow> (\<exists>t. r = Ok t \<and> text_key t = key_at forbid (w_fs w p)))"
proof -
  note here = assms(1) [unfolded read_key_file_guarded_def]
  obtain r1 w1 where s: "fs_symlink_metadata p w = (r1, w1)" by (cases "fs_symlink_metadata p w")
  note l1 = atomic_look [OF s [unfolded fs_symlink_metadata_def]]
  show ?thesis
  proof (cases r1)
    case (Ok meta)
    then have m: "w_fs w p = Some meta" using l1(2) l1(3) [OF assms(2)] by (auto simp: result_simps)
    let ?bad = "is_symlink meta \<or> node_uid meta \<noteq> 0 \<or> (node_mode meta AND o777) AND forbid \<noteq> 0"
    show ?thesis
    proof (cases ?bad)
      case True
      have "key_at forbid (w_fs w p) = None" using True m by (cases meta) (auto simp: key_at_def)
      moreover have "r = Ok None \<and> w' = w1"
        using here s Ok True by (auto simp: match_io_def return_io_def split: if_splits)
      ultimately show ?thesis using l1(1,3) by (auto simp: text_key_def)
    next
      case False
      obtain r2 w2 where opn: "fs_open_nofollow p w1 = (r2, w2)" by (cases "fs_open_nofollow p w1")
      note l2 = atomic_look [OF opn [unfolded fs_open_nofollow_def]]
      have m2: "w_fs w2 p = Some meta" using l1(1,3) l2(3) [of p] m assms(2) by simp
      show ?thesis
      proof (cases r2)
        fix f assume r2: "r2 = result.Ok f"
        then have f: "f = meta" using l2(2) m2 by (auto simp: result_simps split: if_splits)
        obtain r3 w3 where t: "read_to_string f w2 = (r3, w3)" by (cases "read_to_string f w2")
        note l3 = atomic_look [OF t [unfolded read_to_string_def]]
        have acc: "text_key (Some content) = key_at forbid (w_fs w p)" if "r3 = result.Ok content" for content
          using l3(2) [OF that] False m f
          by (cases meta) (auto simp: key_at_def text_key_def result_simps split: if_splits)
        have rej: "no_faults (w_env w) \<longrightarrow> key_at forbid (w_fs w p) = None" if "r3 = result.Err e" for e
          using l3(4) l1(1) l2(1) that False m f
          by (cases meta) (auto simp: key_at_def text_key_def result_simps split: if_splits)
        have "no_faults (w_env w) \<longrightarrow> r3 \<noteq> Panic"
          using l3(4) l1(1) l2(1) by (cases f) (auto simp: result_simps split: if_splits)
        moreover have "w' = w3" "r = (case r3 of result.Ok c \<Rightarrow> Ok (Some c) | result.Err e \<Rightarrow> Ok None | Panic \<Rightarrow> Panic)"
          using here s Ok opn r2 t False
          by (auto simp: match_io_def return_io_def split: result.splits)
        ultimately show ?thesis
          using acc rej l1(1,3) l2(1,3) l3(1,3)
          by (cases r3) (auto simp: text_key_def)
      next
        fix e assume r2: "r2 = result.Err e"
        have "r = Ok None" "w' = w2"
          using here s Ok opn r2 False by (auto simp: match_io_def return_io_def)
        moreover have "\<not> no_faults (w_env w)"
          using l2(4) l1(1) r2 False m2 by (auto simp: result_simps)
        ultimately show ?thesis using l1(1,3) l2(1,3) by (auto simp: text_key_def)
      next
        assume r2: "r2 = Panic"
        have "r = Panic" "w' = w2" using here s Ok opn r2 False by (auto simp: match_io_def)
        moreover have "\<not> no_faults (w_env w)"
          using l2(4) l1(1) r2 False m2 by (auto simp: result_simps)
        ultimately show ?thesis using l1(1,3) l2(1,3) by auto
      qed
    qed
  next
    fix e assume r1: "r1 = result.Err e"
    have "r = Ok None" "w' = w1"
      using here s r1 by (auto simp: match_io_def return_io_def)
    moreover have "no_faults (w_env w) \<longrightarrow> w_fs w p = None"
      using l1(4) l1(3) [OF assms(2)] r1 by (cases "w_fs w p") (auto simp: result_simps)
    ultimately show ?thesis using l1(1,3) by (auto simp: text_key_def key_at_def)
  next
    assume r1: "r1 = Panic"
    have "r = Panic" "w' = w1" using here s r1 by (auto simp: match_io_def)
    moreover have "\<not> no_faults (w_env w)"
      using l1(4) r1 by (cases "w_fs w1 p") (auto simp: result_simps)
    ultimately show ?thesis using l1(1,3) by auto
  qed
qed

lemma load_key_from_result:
  fixes r :: "(u8 list option, 'e) result"
  assumes "load_key_from ps w = (r, w')" "\<forall>(p, m) \<in> set ps. untouched p (w_env w)"
  shows "r = Panic \<or> r = Ok None \<or> (\<exists>(p, m) \<in> set ps. r = Ok (key_at m (w_fs w p)))"
    and "no_faults (w_env w) \<Longrightarrow> r = Ok (fold (\<lambda>(p, m) k. if k = None then key_at m (w_fs w p) else k) ps None)"
proof -
  have fold_Some: "fold (\<lambda>(p, m) k. if k = None then key_at m (fs p) else k) qs (Some k) = Some k" for fs qs k
    by (induction qs) auto
  have *: "(r = Panic \<or> r = Ok None \<or> (\<exists>(p, m) \<in> set ps. r = Ok (key_at m (w_fs w p))))
    \<and> (no_faults (w_env w) \<longrightarrow> r = Ok (fold (\<lambda>(p, m) k. if k = None then key_at m (w_fs w p) else k) ps None))"
    using assms
  proof (induction ps arbitrary: w)
    case Nil
    then show ?case by (auto simp: return_io_def)
  next
    case (Cons pm ps)
    obtain p m where pm: "pm = (p, m)" by (cases pm)
    obtain r1 :: "(str option, 'e) result" and w1 where g: "read_key_file_guarded p m w = (r1, w1)"
      by fastforce
    from guarded_read [OF g] Cons.prems(2) pm
    have same: "w_env w1 = w_env w" "\<And>q. untouched q (w_env w) \<Longrightarrow> w_fs w1 q = w_fs w q"
      and any: "r1 = Panic \<or> (\<exists>t. r1 = Ok t \<and> text_key t \<in> {None, key_at m (w_fs w p)})"
      and quiet: "no_faults (w_env w) \<Longrightarrow> \<exists>t. r1 = Ok t \<and> text_key t = key_at m (w_fs w p)"
      by auto
    note here = Cons.prems(1) [unfolded pm load_key_from.simps bind_io_def g text_key_def [symmetric]]
    show ?case
    proof (cases "\<exists>t. r1 = Ok t \<and> text_key t = None")
      case True
      then have rest: "load_key_from ps w1 = (r, w')" using here by auto
      have fs: "w_fs w1 q = w_fs w q" if "(q, n) \<in> set ps" for q n
        using Cons.prems(2) same(2) that by auto
      have "fold (\<lambda>(p, m) k. if k = None then key_at m (w_fs w1 p) else k) ps None
          = fold (\<lambda>(p, m) k. if k = None then key_at m (w_fs w p) else k) ps None"
        by (rule fold_cong) (auto simp: fs)
      with Cons.IH [OF rest] Cons.prems(2) same quiet fs True pm show ?thesis by fastforce
    next
      case False
      with any quiet have "r1 = Panic \<and> \<not> no_faults (w_env w)
          \<or> (\<exists>t k. r1 = Ok t \<and> text_key t = Some k \<and> key_at m (w_fs w p) = Some k)"
        by fastforce
      with here show ?thesis by (auto simp: pm return_io_def fold_Some)
    qed
  qed
  show "r = Panic \<or> r = Ok None \<or> (\<exists>(p, m) \<in> set ps. r = Ok (key_at m (w_fs w p)))" using * by blast
  show "r = Ok (fold (\<lambda>(p, m) k. if k = None then key_at m (w_fs w p) else k) ps None)"
    if "no_faults (w_env w)" using * that by blast
qed

text \<open>
  Claim C23. Only a guarded file gives a plain-text key: whatever fails and whatever else is on the
  disk, the key \<open>load_key\<close> returns is the one in the live file or in its copy, a regular file of
  root's with no permission for others (and, for the copy, none to write), read through no link. When
  no call fails it is exactly the live key, and the copy's where there is none.
\<close>

theorem load_key_guarded:
  assumes "untouched KEY_PATH (w_env w)" "untouched KEY_BAK_PATH (w_env w)"
    "load_key w = (r, w')"
  shows "(r = Ok (Some k) \<longrightarrow>
        Some k \<in> {key_at o077 (w_fs w KEY_PATH), key_at o177 (w_fs w KEY_BAK_PATH)})
    \<and> (no_faults (w_env w) \<longrightarrow>
        r = Ok (case key_at o077 (w_fs w KEY_PATH) of
                  None \<Rightarrow> key_at o177 (w_fs w KEY_BAK_PATH) | Some k \<Rightarrow> Some k))"
  using load_key_from_result [OF assms(3) [unfolded load_key_def]] assms(1,2)
  by (auto split: option.splits)

text \<open>A key to save and a disk that holds it.\<close>

definition demo_key :: "u8 list" where
  "demo_key = replicate 16 0xA7"

definition key_disk :: fs where
  "key_disk = [KEY_DIR \<mapsto> Dir o700 0, KEY_PATH \<mapsto> File (as_bytes (key_hex demo_key) @ [10]) o600 0]"

lemma demo_untouched [simp]: "untouched p (w_env (demo_world fs))"
  by (simp add: untouched_def demo_world_def demo_env_def)

lemma demo_world_sel: "w_env (demo_world fs) = demo_env" "w_fs (demo_world fs) = fs"
  by (simp_all add: demo_world_def)

lemma demo_key_at: "key_at o077 (key_disk KEY_PATH) = Some demo_key"
proof -
  have "(o600 :: u32) AND o777 = o600" by code_simp
  then show ?thesis
    by (intro saved_key_at) (simp_all add: demo_key_def key_disk_def mode_600_def)
qed

theorem load_key_guarded_witness:
  "fst (load_key (demo_world key_disk)) = (Ok (Some demo_key) :: (u8 list option, any_error) result)"
proof -
  obtain r :: "(u8 list option, any_error) result" and w' where
    l: "load_key (demo_world key_disk) = (r, w')" by fastforce
  show ?thesis
    using load_key_guarded [OF _ _ l] demo_key_at demo_no_faults
    by (simp add: l) (simp add: demo_world_def demo_untouched [unfolded demo_world_def])
qed

lemma sealed_first:
  assumes "untouched KEY_TPM_PATH (w_env w)" "w_fs w KEY_TPM_PATH = Some (File d m u)"
    "e_fault (w_env w) (w_tick w) = None" "load_key_with_source K w = (r, w')"
  shows "(\<exists>e. r = Err e) \<or> r = Panic
    \<or> (\<exists>k w1 w2. r = Ok (Some (k, Tpm)) \<and> unseal K d w1 = (Ok k, w2) \<and> w' = w2)"
proof -
  let ?w1 = "step_world 0 w"
  have fs: "w_fs ?w1 KEY_TPM_PATH = Some (File d m u)"
    using assms(1,2) by (simp add: untouched_def)
  have "fs_exists KEY_TPM_PATH w = (Ok True :: (bool, any_error) result, ?w1)"
    using assms(3) fs follow_plain [of "w_fs ?w1" KEY_TPM_PATH]
    by (simp add: fs_exists_def match_io_def atomic_call_def syscall_def return_io_def result_simps
        del: step_world_simps)
  with assms(4) have run: "bind_io (with_context ''reading sealed key blob'' (fs_read KEY_TPM_PATH)) (\<lambda>blob.
            bind_io (map_err_io (Context ''unsealing TPM-protected host key'') (unseal K blob)) (\<lambda>key.
            return_io (Some (key, Tpm)))) ?w1 = (r, w')"
    unfolding load_key_with_source_def by (simp add: bind_io_def)
  obtain rb w2 where rd: "fs_read KEY_TPM_PATH ?w1 = (rb, w2)" by (cases "fs_read KEY_TPM_PATH ?w1")
  note look = atomic_look [OF rd [unfolded fs_read_def]]
  have "w_fs w2 KEY_TPM_PATH = Some (File d m u)"
    using look(3) [of KEY_TPM_PATH] fs assms(1) by simp
  then have "rb = result.Ok b \<Longrightarrow> b = d" for b
    using look(2) follow_plain [of "w_fs w2" KEY_TPM_PATH] by (auto simp: fs_lookup_def result_simps)
  then show ?thesis
    using run rd
    by (cases rb; cases "fst (unseal K d w2)"; cases "unseal K d w2")
      (auto simp: bind_io_def with_context_def map_err_io_def return_io_def)
qed


definition demo_services :: key_services where
  "demo_services = \<lparr>seal_pcrs = \<lambda>key pcrs. return_io (0x53 # key), seal_plain = \<lambda>key. return_io (0x4E # key),
     unseal = \<lambda>blob. return_io (tl blob), get_random = return_io demo_key\<rparr>"


text \<open>
  The call that looks for \<open>key.tpm\<close> can fail (\<open>EIO\<close>, \<open>EACCES\<close>), and \<open>Path::exists\<close> answers false
  then: the plain-text key is used although the sealed one is there.
\<close>

theorem failing_stat_uses_plaintext:
  "fst (load_key_with_source demo_services
     ((demo_world (key_disk(KEY_TPM_PATH \<mapsto> File (0x53 # demo_key) o600 0)))
       \<lparr>w_env := demo_env\<lparr>e_fault := (\<lambda>_. None)(0 := Some (Fail (Io_error Uncategorized []) 0))\<rparr>\<rparr>))
   = Ok (Some (demo_key, Plaintext))"
proof -
  have m: "(o600 :: u32) AND o777 = o600" "(o600 :: u32) AND o077 = 0" by code_simp+
  let ?s = "of_bytes (as_bytes (key_hex demo_key) @ [10])"
  have k: "utf8_valid ?s" "ok_of (parse_key_hex (trim ?s)) = Some demo_key"
    using demo_key_at m by (auto simp: key_at_def key_disk_def KEY_PATH_def KEY_DIR_def split: if_splits)
  have p: "KEY_PATH \<noteq> KEY_TPM_PATH" "KEY_DIR \<noteq> KEY_TPM_PATH" "KEY_PATH \<noteq> KEY_DIR"
    by (simp_all add: KEY_PATH_def KEY_TPM_PATH_def KEY_DIR_def)
  show ?thesis
    using m k p
    by (simp add: load_key_with_source_def bind_io_def fs_exists_def match_io_def atomic_call_def syscall_def
        step_world_def demo_world_def demo_env_def return_io_def load_key_def read_key_file_guarded_def
        guarded_calls key_disk_def)
qed

section \<open>Deleting\<close>

text \<open>Nothing is at the path, and no other process puts anything there.\<close>

definition gone :: "str \<Rightarrow> world \<Rightarrow> bool" where
  "gone p w \<longleftrightarrow> untouched p (w_env w) \<and> w_fs w p = None"

lemma stable_gone [simp]: "stable (gone p)"
  by (auto simp: stable_def gone_def untouched_def step_world_def)

lemma gone_write_at: "gone p w \<Longrightarrow> gone p (write_at q off bs w)"
  by (auto simp: gone_def write_at_def set_fs_def split: option.splits node.splits)

lemma gone_calls:
  "triple (gone p) (fs_set_permissions q m) (\<lambda>_. gone p) (gone p)"
  "triple (gone p) (fs_open_write q) (\<lambda>_. gone p) (gone p)"
  "triple (gone p) (fs_remove_file q) (\<lambda>_. gone p) (gone p)"
proof -
  show "triple (gone p) (fs_set_permissions q m) (\<lambda>_. gone p) (gone p)"
    unfolding fs_set_permissions_def
    by (rule triple_atomic [OF stable_gone], rule tripleI)
      (auto simp: gone_def set_fs_def split: option.splits result.splits)
  show "triple (gone p) (fs_open_write q) (\<lambda>_. gone p) (gone p)"
    unfolding fs_open_write_def by (rule keeps_look) simp_all
  show "triple (gone p) (fs_remove_file q) (\<lambda>_. gone p) (gone p)"
    unfolding fs_remove_file_def
    by (rule triple_atomic [OF stable_gone], rule tripleI)
      (auto simp: gone_def set_fs_def split: option.splits node.splits)
qed

lemma gone_write_all: "triple (gone p) (fs_write_all h bs) (\<lambda>_. gone p) (gone p)"
  unfolding fs_write_all_def
  by (rule triple_syscall [OF stable_gone], simp add: gone_def, rule gone_write_at, assumption,
      rule tripleI, simp add: gone_write_at)

lemma gone_shred: "triple (gone p) (shred_file q) (\<lambda>_. gone p) (gone p)"
  unfolding shred_file_def
  by (rule triple_match [OF gone_calls(2)])
    (auto intro!: keeps_bind gone_write_all keeps_sync_all triple_return triple_fail)

lemma gone_remove: "triple (gone p) (remove_if_there msg q) (\<lambda>_. gone p) (gone p)"
  unfolding remove_if_there_def
  by (rule triple_match [OF gone_calls(3)]) (auto intro: triple_return triple_fail)

lemma gone_delete_files: "triple (gone p) (delete_key_files ps) (\<lambda>_. gone p) (gone p)"
proof (induction ps)
  case Nil
  show ?case by (simp add: triple_return)
next
  case (Cons q ps)
  show ?case
    unfolding delete_key_files.simps
    by (intro keeps_bind triple_ignore gone_calls gone_shred gone_remove Cons.IH)
qed

text \<open>
  A removal that reports success leaves nothing there, unless a call claims the file was missing
  when it was not: no file system answers that, and \<open>truthful\<close> says so.
\<close>

definition truthful :: "env \<Rightarrow> bool" where
  "truthful e \<longleftrightarrow> (\<forall>t err n. e_fault e t = Some (Fail err n) \<longrightarrow> err_kind err \<noteq> NotFound)"

lemma remove_removes:
  "triple (\<lambda>w. truthful (w_env w) \<and> untouched p (w_env w)) (remove_if_there msg p) (\<lambda>_. gone p) (\<lambda>_. True)"
proof (rule tripleI, goal_cases)
  case (1 w)
  then show ?case
    by (auto simp: remove_if_there_def match_io_def fs_remove_file_def atomic_call_def syscall_def Let_def
        return_io_def fail_io_def gone_def untouched_def truthful_def set_fs_def
        split: option.splits fault.splits node.splits)
qed

lemma delete_calls_env:
  "triple (\<lambda>w. X (w_env w)) (fs_open_write p) (\<lambda>_ w. X (w_env w)) (\<lambda>w. X (w_env w))"
  "triple (\<lambda>w. X (w_env w)) (fs_remove_file p) (\<lambda>_ w. X (w_env w)) (\<lambda>w. X (w_env w))"
  unfolding fs_open_write_def fs_remove_file_def
  by (rule atomic_env; simp split: option.splits node.splits)+

lemma shred_env: "triple (\<lambda>w. X (w_env w)) (shred_file p) (\<lambda>_ w. X (w_env w)) (\<lambda>w. X (w_env w))"
  unfolding shred_file_def
  by (rule triple_match [OF delete_calls_env(1)])
    (auto intro!: keeps_bind write_all_env keeps_sync_all triple_return triple_fail)

lemma remove_env:
  "triple (\<lambda>w. X (w_env w)) (remove_if_there msg p) (\<lambda>_ w. X (w_env w)) (\<lambda>w. X (w_env w))"
  unfolding remove_if_there_def
  by (rule triple_match [OF delete_calls_env(2)]) (auto intro: triple_return triple_fail)

definition keys_private :: "env \<Rightarrow> bool" where
  "keys_private e \<longleftrightarrow> truthful e \<and> (\<forall>p \<in> {KEY_PATH, KEY_BAK_PATH, KEY_TPM_PATH}. untouched p e)"

lemma remove_key:
  assumes "p \<in> {KEY_PATH, KEY_BAK_PATH, KEY_TPM_PATH}"
  shows "triple (\<lambda>w. keys_private (w_env w)) (remove_if_there msg p)
    (\<lambda>_ w. keys_private (w_env w) \<and> gone p w) (\<lambda>_. True)"
  by (rule triple_conseq [OF triple_conj [OF remove_env [of keys_private] remove_removes]])
    (use assms in \<open>auto simp: keys_private_def\<close>)

lemma delete_files_remove:
  assumes "set ps \<subseteq> {KEY_PATH, KEY_BAK_PATH, KEY_TPM_PATH}"
  shows "triple (\<lambda>w. keys_private (w_env w)) (delete_key_files ps)
    (\<lambda>_ w. keys_private (w_env w) \<and> (\<forall>p \<in> set ps. gone p w)) (\<lambda>_. True)"
  using assms
proof (induction ps)
  case Nil
  show ?case by (simp add: triple_return)
next
  case (Cons q ps)
  then have rest: "triple (\<lambda>w. keys_private (w_env w) \<and> gone q w) (delete_key_files ps)
      (\<lambda>_ w. keys_private (w_env w) \<and> (\<forall>p \<in> set (q # ps). gone p w)) (\<lambda>_. True)"
    by (intro triple_conseq [OF triple_conj [OF Cons.IH gone_delete_files [of q]]]) auto
  have quiet: "triple (\<lambda>w. keys_private (w_env w)) (ignore_io m) (\<lambda>_ w. keys_private (w_env w)) (\<lambda>_. True)"
    if "triple (\<lambda>w. keys_private (w_env w)) m (\<lambda>_ w. keys_private (w_env w)) (\<lambda>w. keys_private (w_env w))"
    for m :: "(world, unit, io_error) io"
    by (rule triple_conseq [OF triple_ignore [OF that]]) auto
  show ?case
    unfolding delete_key_files.simps
    by (intro triple_bind [OF quiet [OF file_calls_env(2)]] triple_bind [OF quiet [OF shred_env]]
        triple_bind [OF remove_key] rest) (use Cons.prems in auto)
qed

lemma delete_all_triple:
  "triple (\<lambda>w. keys_private (w_env w)) delete_all_keys
      (\<lambda>_ w. \<forall>p \<in> {KEY_PATH, KEY_BAK_PATH, KEY_TPM_PATH}. gone p w) (\<lambda>_. True)"
proof -
  have gone_both: "triple (\<lambda>w. gone KEY_PATH w \<and> gone KEY_BAK_PATH w) delete_sealed_key
      (\<lambda>_ w. gone KEY_PATH w \<and> gone KEY_BAK_PATH w) (\<lambda>w. gone KEY_PATH w \<and> gone KEY_BAK_PATH w)"
    unfolding delete_sealed_key_def by (rule triple_conj [OF gone_remove gone_remove])
  show ?thesis
    unfolding delete_all_keys_def delete_key_def
  proof (rule triple_bind [OF delete_files_remove], simp)
    show "triple (\<lambda>w. keys_private (w_env w) \<and> (\<forall>p \<in> set [KEY_PATH, KEY_BAK_PATH]. gone p w)) delete_sealed_key
      (\<lambda>_ w. \<forall>p \<in> {KEY_PATH, KEY_BAK_PATH, KEY_TPM_PATH}. gone p w) (\<lambda>_. True)"
      unfolding delete_sealed_key_def
      by (rule triple_conseq [OF triple_conj [OF remove_key [of KEY_TPM_PATH]
            gone_both [unfolded delete_sealed_key_def]]]) auto
  qed
qed

text \<open>
  Claim C32. Unpairing erases the key: when \<open>delete_all_keys\<close> reports success, none of the live key,
  its copy and the sealed key is on the disk, whatever of the shredding failed.
\<close>

theorem delete_all_keys_erases:
  assumes "keys_private (w_env w)" "delete_all_keys w = (Ok (), w')" "p \<in> {KEY_PATH, KEY_BAK_PATH, KEY_TPM_PATH}"
  shows "w_fs w' p = None"
  using tripleD [OF delete_all_triple assms(1,2)] assms(3) by (auto simp: gone_def)

theorem delete_all_keys_erases_witness:
  "\<exists>w'. delete_all_keys (demo_world key_disk) = (Ok (), w') \<and> w_fs w' KEY_PATH = None"
proof -
  obtain r w' where d: "delete_all_keys (demo_world key_disk) = (r, w')" by (cases "delete_all_keys (demo_world key_disk)")
  have "fst (delete_all_keys (demo_world key_disk)) = Ok ()" by code_simp
  with d have d: "delete_all_keys (demo_world key_disk) = (Ok (), w')" by simp
  have "keys_private (w_env (demo_world key_disk))"
    by (simp add: keys_private_def truthful_def) (simp add: demo_world_def demo_env_def)
  with delete_all_keys_erases [OF _ d, of KEY_PATH] d show ?thesis by simp
qed

section \<open>Saving and loading\<close>

interpretation key_file: replaced_file KEY_DIR KEY_TMP KEY_PATH
  by unfold_locales (simp add: KEY_DIR_def KEY_TMP_def KEY_PATH_def)

interpretation sealed_file: replaced_file KEY_DIR KEY_TPM_TMP KEY_TPM_PATH
  by unfold_locales (simp add: KEY_DIR_def KEY_TPM_TMP_def KEY_TPM_PATH_def)

lemma copy_keeps:
  "triple (\<lambda>w. rf_pred KEY_DIR KEY_TMP KEY_PATH T F w \<and> plain_at KEY_BAK_PATH w) (fs_copy p KEY_BAK_PATH)
     (\<lambda>_ w. rf_pred KEY_DIR KEY_TMP KEY_PATH T F w \<and> plain_at KEY_BAK_PATH w)
     (\<lambda>w. rf_pred KEY_DIR KEY_TMP KEY_PATH T F w \<and> plain_at KEY_BAK_PATH w)"
proof -
  have q: "KEY_BAK_PATH \<notin> {KEY_DIR, KEY_TMP, KEY_PATH}"
    by (simp add: KEY_DIR_def KEY_TMP_def KEY_PATH_def KEY_BAK_PATH_def)
  note st = stable_conj [OF stable_rf_pred stable_plain_at]
  show ?thesis
    unfolding fs_copy_def
    by (rule triple_bind [OF keeps_metadata [OF st]] triple_bind [OF keeps_read [OF st]]
        triple_bind [OF key_file.other_calls(2) [OF q]] triple_bind [OF key_file.other_calls(1) [OF q]]
        triple_pure triple_bind [OF key_file.other_write [OF q]] triple_return
      | simp only: simp_thms)+
qed

text \<open>
  What is known of the directory before a save: it is the daemon's own, a left-over temporary file is
  regular and private, and the copy's name is not a link.
\<close>

definition key_dir_ok :: "world \<Rightarrow> bool" where
  "key_dir_ok w \<longleftrightarrow> rf_pred KEY_DIR KEY_TMP KEY_PATH file_secure (\<lambda>_ _. True) w \<and> plain_at KEY_BAK_PATH w"

lemma saving:
  "triple (\<lambda>w. rf_pred KEY_DIR KEY_TMP KEY_PATH file_secure (\<lambda>a wr. a = A \<and> wr = W) w \<and> plain_at KEY_BAK_PATH w)
     (save_key key)
     (\<lambda>_ w. key_dir_ok w \<and> mode_600 (as_bytes (key_hex key) @ [10]) (w_fs w KEY_PATH))
     (\<lambda>w. key_dir_ok w \<and> (w_fs w KEY_PATH = A \<or> mode_600 (as_bytes (key_hex key) @ [10]) (w_fs w KEY_PATH)))"
proof -
  let ?d = "as_bytes (key_hex key) @ [10]"
  let ?B = "plain_at KEY_BAK_PATH"
  let ?F = "\<lambda>a wr. a = A \<and> wr = W" and ?G = "\<lambda>a wr. mode_600 ?d a \<and> wr = W"
  let ?P = "\<lambda>F w. rf_pred KEY_DIR KEY_TMP KEY_PATH file_secure F w \<and> ?B w"
  let ?E = "\<lambda>w. key_dir_ok w \<and> (w_fs w KEY_PATH = A \<or> mode_600 ?d (w_fs w KEY_PATH))"
  let ?repl = "bind_io (with_context ''creating'' (fs_open_truncate KEY_TMP o600)) (\<lambda>f.
      bind_io (map_err_io From_io (fs_write_all f (as_bytes (key_hex key)))) (\<lambda>f.
      bind_io (map_err_io From_io (fs_write_all f [10])) (\<lambda>f.
      bind_io (map_err_io From_io (fs_sync_all f)) (\<lambda>_.
      with_context ''renaming'' (fs_rename KEY_TMP KEY_PATH)))))"
  have q: "KEY_BAK_PATH \<notin> {KEY_DIR, KEY_TMP, KEY_PATH}" "KEY_PATH \<noteq> KEY_BAK_PATH"
    by (simp_all add: KEY_DIR_def KEY_TMP_def KEY_PATH_def KEY_BAK_PATH_def)
  have whole: "save_key key = bind_io secure_key_dir (\<lambda>_. bind_io ?repl (\<lambda>_.
      bind_io (with_context ''copying'' (fs_copy KEY_PATH KEY_BAK_PATH)) (\<lambda>_.
      ignore_io (fs_set_permissions KEY_BAK_PATH o400))))"
    by (simp add: save_key_def bind_io_assoc)
  have "triple ?B ?repl (\<lambda>_. ?B) ?B"
    by (intro keeps_bind plain_rules q)
  then have repl: "triple (?P ?F) ?repl (\<lambda>_. ?P ?G) ?E"
    unfolding with_context_def
    by (rule triple_conseq [OF triple_conj [OF key_file.replace_two]]) (auto simp: key_dir_ok_def rf_pred_def)
  have sec: "triple (?P ?F) secure_key_dir (\<lambda>_. ?P ?F) ?E"
    unfolding secure_key_dir_def
    by (rule triple_conseq [OF triple_conj
          [OF keeps_bind [OF triple_with_context [OF key_file.keeps_create_dir [of file_secure ?F]]
                triple_ignore [OF key_file.keeps_dir_mode]]
              keeps_bind [OF triple_with_context [OF plain_calls(1)] triple_ignore [OF plain_calls(2)]]]])
      (auto simp: key_dir_ok_def rf_pred_def)
  have cp: "triple (?P ?G) (with_context ''copying'' (fs_copy KEY_PATH KEY_BAK_PATH)) (\<lambda>_. ?P ?G) ?E"
    by (rule triple_conseq [OF triple_with_context [OF copy_keeps [of file_secure ?G]]]) (auto simp: key_dir_ok_def rf_pred_def)
  have md: "triple (?P ?G) (ignore_io (fs_set_permissions KEY_BAK_PATH o400)) (\<lambda>_. ?P ?G) ?E"
    by (rule triple_conseq [OF triple_ignore [OF key_file.other_calls(1) [OF q(1), of file_secure ?G]]]) (auto simp: key_dir_ok_def rf_pred_def)
  show ?thesis
    unfolding whole
    by (rule triple_conseq [OF triple_bind [OF sec triple_bind [OF repl triple_bind [OF cp md]]]])
      (auto simp: key_dir_ok_def rf_pred_def)
qed

text \<open>
  Claim C33. A key that was saved is the key that is loaded: after a successful \<open>save_key\<close> the live
  file holds exactly the key (mode 0600, root's), and \<open>load_key\<close> returns it when no call fails; after
  a failure or a crash, at whatever call, the live file is the old one or the complete new one.
\<close>

theorem save_key_loads:
  fixes key :: "u8 list"
  assumes "length key = 16" "key_dir_ok w" "save_key key w = (r, w')"
  shows "(if is_ok r then key_at o077 (w_fs w' KEY_PATH) = Some key
       else w_fs w' KEY_PATH = w_fs w KEY_PATH \<or> key_at o077 (w_fs w' KEY_PATH) = Some key)
    \<and> (is_ok r \<longrightarrow> (\<forall>v. w_fs v KEY_PATH = w_fs w' KEY_PATH \<and> untouched KEY_PATH (w_env v)
         \<and> untouched KEY_BAK_PATH (w_env v) \<and> no_faults (w_env v)
         \<longrightarrow> fst (load_key v) = (Ok (Some key) :: (u8 list option, any_error) result)))"
proof -
  have pre: "rf_pred KEY_DIR KEY_TMP KEY_PATH file_secure (\<lambda>a wr. a = w_fs w KEY_PATH \<and> wr = w_wire w) w
      \<and> plain_at KEY_BAK_PATH w"
    using assms(2) by (simp add: key_dir_ok_def rf_pred_def)
  note end_state = tripleD [OF saving pre assms(3)]
  have ok: "key_dir_ok w'" using end_state by (cases r) auto
  have fin: "if is_ok r then key_at o077 (w_fs w' KEY_PATH) = Some key
       else w_fs w' KEY_PATH = w_fs w KEY_PATH \<or> key_at o077 (w_fs w' KEY_PATH) = Some key"
    using end_state saved_key_at [OF assms(1)] by (cases r) auto
  have "fst (load_key v) = (Ok (Some key) :: (u8 list option, any_error) result)"
    if "is_ok r" "w_fs v KEY_PATH = w_fs w' KEY_PATH" "untouched KEY_PATH (w_env v)"
      "untouched KEY_BAK_PATH (w_env v)" "no_faults (w_env v)" for v
  proof -
    obtain r2 :: "(u8 list option, any_error) result" and v2 where l: "load_key v = (r2, v2)"
      by fastforce
    with fin that load_key_guarded [OF that(3,4) l] show ?thesis by auto
  qed
  with fin show ?thesis by blast
qed

text \<open>The sealed key replaces an older one in one step.\<close>

lemma sealing:
  "triple (rf_pred KEY_DIR KEY_TPM_TMP KEY_TPM_PATH file_secure (\<lambda>a wr. a = A \<and> wr = W)) (persist_sealed_blob blob)
     (\<lambda>_. rf_pred KEY_DIR KEY_TPM_TMP KEY_TPM_PATH file_secure (\<lambda>a wr. mode_600 blob a \<and> wr = W))
     (rf_pred KEY_DIR KEY_TPM_TMP KEY_TPM_PATH file_secure (\<lambda>a wr. a = A \<and> wr = W))"
  unfolding persist_sealed_blob_def secure_key_dir_def with_context_def
  by (rule triple_bind, rule keeps_bind, rule triple_map_err [OF sealed_file.keeps_create_dir],
      rule triple_ignore [OF sealed_file.keeps_dir_mode], rule sealed_file.replace_one)

theorem save_key_loads_witness:
  "fst (load_key (demo_world (w_fs (snd (save_key demo_key (demo_world Map.empty))))))
     = (Ok (Some demo_key) :: (u8 list option, any_error) result)"
proof -
  obtain r w' where s: "save_key demo_key (demo_world Map.empty) = (r, w')"
    by (cases "save_key demo_key (demo_world Map.empty)")
  have "is_ok (fst (save_key demo_key (demo_world Map.empty)))" by code_simp
  moreover have "key_dir_ok (demo_world Map.empty)"
    using demo_private_paths
    by (simp add: key_dir_ok_def rf_pred_def plain_at_def demo_world_def file_secure_def demo_env_def)
  moreover have "length demo_key = 16" by (simp add: demo_key_def)
  ultimately show ?thesis
    using save_key_loads [OF _ _ s] demo_no_faults
    by (simp add: s demo_world_sel demo_untouched [unfolded demo_world_sel])
qed

text \<open>Deleting the plain-text copies leaves the sealed key alone when their names are no links to it.\<close>

lemma sealed_survives:
  fixes T F p
  assumes p: "p \<notin> {KEY_DIR, KEY_TPM_TMP, KEY_TPM_PATH}"
  defines "S \<equiv> \<lambda>q w. (rf_pred KEY_DIR KEY_TPM_TMP KEY_TPM_PATH T F w \<and> plain_at p w) \<and> plain_at q w"
  shows "triple (S q) (fs_set_permissions p m) (\<lambda>_. S q) (S q)"
    and "triple (S q) (shred_file p) (\<lambda>_. S q) (S q)"
    and "triple (S q) (remove_if_there msg p) (\<lambda>_. S q) (S q)"
proof -
  have st: "stable (S q)" unfolding S_def by (intro stable_conj stable_rf_pred stable_plain_at)
  show "triple (S q) (fs_set_permissions p m) (\<lambda>_. S q) (S q)"
    unfolding S_def by (rule triple_conj [OF sealed_file.other_calls(1) [OF p] plain_calls(2)])
  have opn: "triple (S q) (fs_open_write p) (\<lambda>h w. h = (p, 0) \<and> S q w) (S q)"
    unfolding fs_open_write_def
  proof (rule triple_atomic [OF st], rule tripleI, goal_cases)
    case (1 w)
    then have f: "follow (w_fs w) p = Ok p" by (simp add: S_def plain_follow)
    show ?case using 1 by (cases "w_fs w p"; cases "the (w_fs w p)") (simp_all add: f)
  qed
  have wr: "triple (S q) (fs_write_all (p, n) bs) (\<lambda>_. S q) (S q)" for n bs
    unfolding S_def by (rule triple_conj [OF sealed_file.other_write [OF p] plain_write_all])
  show "triple (S q) (shred_file p) (\<lambda>_. S q) (S q)"
    unfolding shred_file_def
  proof (rule triple_match [OF opn])
    show "triple (\<lambda>w. h = (p, 0) \<and> S q w) (bind_io (fs_write_all h bs) (\<lambda>f. fs_sync_all f)) (\<lambda>_. S q) (S q)" for h bs
      by (rule triple_pure) (simp add: keeps_bind [OF wr keeps_sync_all [OF st]])
  qed (auto intro: triple_return triple_fail)
  have "triple (S q) (fs_remove_file p) (\<lambda>_. S q) (S q)"
    unfolding fs_remove_file_def
  proof (rule triple_atomic [OF st], rule tripleI, goal_cases)
    case (1 w)
    then show ?case
      using p by (auto simp: S_def rf_pred_def plain_at_def set_fs_def split: option.splits node.splits)
  qed
  then show "triple (S q) (remove_if_there msg p) (\<lambda>_. S q) (S q)"
    unfolding remove_if_there_def by (rule triple_match) (auto intro: triple_return triple_fail)
qed

lemma delete_key_keeps_sealed:
  defines "S \<equiv> \<lambda>T F w. rf_pred KEY_DIR KEY_TPM_TMP KEY_TPM_PATH T F w \<and> plain_at KEY_PATH w \<and> plain_at KEY_BAK_PATH w"
  shows "triple (S T F) delete_key (\<lambda>_. S T F) (S T F)"
proof -
  have p: "KEY_PATH \<notin> {KEY_DIR, KEY_TPM_TMP, KEY_TPM_PATH}" "KEY_BAK_PATH \<notin> {KEY_DIR, KEY_TPM_TMP, KEY_TPM_PATH}"
    by (simp_all add: KEY_DIR_def KEY_TPM_TMP_def KEY_TPM_PATH_def KEY_PATH_def KEY_BAK_PATH_def)
  have live: "triple (S T F) m (\<lambda>_. S T F) (S T F)"
    if "triple (\<lambda>w. (rf_pred KEY_DIR KEY_TPM_TMP KEY_TPM_PATH T F w \<and> plain_at KEY_PATH w) \<and> plain_at KEY_BAK_PATH w) m
      (\<lambda>_ w. (rf_pred KEY_DIR KEY_TPM_TMP KEY_TPM_PATH T F w \<and> plain_at KEY_PATH w) \<and> plain_at KEY_BAK_PATH w)
      (\<lambda>w. (rf_pred KEY_DIR KEY_TPM_TMP KEY_TPM_PATH T F w \<and> plain_at KEY_PATH w) \<and> plain_at KEY_BAK_PATH w)"
    for m :: "(world, unit, 'e) io"
    by (rule triple_conseq [OF that]) (auto simp: S_def)
  have copy: "triple (S T F) m (\<lambda>_. S T F) (S T F)"
    if "triple (\<lambda>w. (rf_pred KEY_DIR KEY_TPM_TMP KEY_TPM_PATH T F w \<and> plain_at KEY_BAK_PATH w) \<and> plain_at KEY_PATH w) m
      (\<lambda>_ w. (rf_pred KEY_DIR KEY_TPM_TMP KEY_TPM_PATH T F w \<and> plain_at KEY_BAK_PATH w) \<and> plain_at KEY_PATH w)
      (\<lambda>w. (rf_pred KEY_DIR KEY_TPM_TMP KEY_TPM_PATH T F w \<and> plain_at KEY_BAK_PATH w) \<and> plain_at KEY_PATH w)"
    for m :: "(world, unit, 'e) io"
    by (rule triple_conseq [OF that]) (auto simp: S_def)
  show ?thesis
    unfolding delete_key_def delete_key_files.simps
    by (intro keeps_bind triple_ignore live [OF sealed_survives(1) [OF p(1)]] live [OF sealed_survives(2) [OF p(1)]]
        live [OF sealed_survives(3) [OF p(1)]] copy [OF sealed_survives(1) [OF p(2)]]
        copy [OF sealed_survives(2) [OF p(2)]] copy [OF sealed_survives(3) [OF p(2)]] triple_return) simp
qed

end
