(* ===== verification/Tpm_Blob.thy ===== *)
theory Tpm_Blob
  imports World Rust_Utf8
begin

text \<open>
  \<open>tpm.rs\<close>, the part that does not touch the TPM: the lists of PCR indices the operator gives, and
  the file format of a sealed key. A file starts with eight bytes that say which of the three formats
  it has: the default PCR and no list (1), a list (2), no policy (3); then come the two TPM
  structures, each behind its length. An index into the bytes that is out of range is a panic.
\<close>

section \<open>Bytes\<close>

text \<open>\<open>u32::from_le_bytes\<close> of a slice of four, as the \<open>usize\<close> the code makes of it at once, and back.\<close>

fun le_nat :: "u8 list \<Rightarrow> nat" where
  "le_nat [] = 0"
| "le_nat (b # bs) = unat b + 256 * le_nat bs"

fun le_bytes :: "nat \<Rightarrow> nat \<Rightarrow> u8 list" where
  "le_bytes 0 n = []"
| "le_bytes (Suc k) n = of_nat (n mod 256) # le_bytes k (n div 256)"

text \<open>\<open>n as u32\<close> keeps the low 32 bits; then \<open>to_le_bytes\<close>.\<close>

definition u32_le_bytes :: "nat \<Rightarrow> u8 list" where
  "u32_le_bytes n = le_bytes 4 (n mod 2 ^ 32)"

definition slice_bytes :: "u8 list \<Rightarrow> nat \<Rightarrow> nat \<Rightarrow> (u8 list, 'e) result" where
  "slice_bytes bs i j = (if i \<le> j \<and> j \<le> length bs then Ok (take (j - i) (drop i bs)) else Panic)"

text \<open>\<open>usize\<close> has 64 bits.\<close>

definition checked_add :: "nat \<Rightarrow> nat \<Rightarrow> nat option" where
  "checked_add a b = (if a + b < 2 ^ 64 then Some (a + b) else None)"

lemma length_le_bytes [simp]: "length (le_bytes k n) = k"
  by (induction k arbitrary: n) simp_all

lemma le_nat_bytes: "n < 256 ^ k \<Longrightarrow> le_nat (le_bytes k n) = n"
proof (induction k arbitrary: n)
  case (Suc k)
  then have "n div 256 < 256 ^ k" by (simp add: less_mult_imp_div_less mult.commute)
  with Suc.IH have "le_nat (le_bytes k (n div 256)) = n div 256" by simp
  moreover have "unat (of_nat (n mod 256) :: u8) = n mod 256" by (simp add: unat_of_nat_u8)
  ultimately show ?case by simp
qed simp

lemma le_bytes_nat: "length bs = k \<Longrightarrow> le_bytes k (le_nat bs) = bs"
proof (induction bs arbitrary: k)
  case (Cons b bs)
  have "unat b < 256" using unat_lt_2p8 [of b] by simp
  with Cons show ?case by (cases k) auto
qed simp

lemma le_nat_lt: "le_nat bs < 256 ^ length bs"
proof (induction bs)
  case (Cons b bs)
  have "unat b < 256" using unat_lt_2p8 [of b] by simp
  moreover have "Suc (le_nat bs) \<le> 256 ^ length bs" using Cons by simp
  then have "256 * Suc (le_nat bs) \<le> 256 * 256 ^ length bs" by (rule mult_le_mono2)
  ultimately show ?case by simp
qed simp

lemma length_u32_le_bytes [simp]: "length (u32_le_bytes n) = 4"
  by (simp add: u32_le_bytes_def)

lemma le_nat_u32: "n < 2 ^ 32 \<Longrightarrow> le_nat (u32_le_bytes n) = n"
  unfolding u32_le_bytes_def by (subst le_nat_bytes) simp_all

lemma u32_le_bytes_nat: "length bs = 4 \<Longrightarrow> u32_le_bytes (le_nat bs) = bs"
  using le_nat_lt [of bs] by (simp add: u32_le_bytes_def le_bytes_nat)

section \<open>PCR lists\<close>

definition validate_pcrs :: "u8 list \<Rightarrow> (unit, any_error) result" where
  "validate_pcrs pcrs =
     (if pcrs = [] then Err (Msg ''PCR list cannot be empty'')
      else if 24 < length pcrs then Err (Msg ''PCR list too long'')
      else if list_ex (\<lambda>p. 23 < p) pcrs then Err (Msg ''PCR index out of range'')
      else if length (remdups_adj (sort pcrs)) \<noteq> length pcrs then Err (Msg ''PCR list contains duplicates'')
      else Ok ())"

fun split_at :: "char \<Rightarrow> str \<Rightarrow> str \<Rightarrow> str list" where
  "split_at d acc [] = [acc]"
| "split_at d acc (c # cs) = (if c = d then acc # split_at d [] cs else split_at d (acc @ [c]) cs)"

definition split_char :: "char \<Rightarrow> str \<Rightarrow> str list" where
  "split_char d s = split_at d [] s"

fun pcr_tokens :: "str list \<Rightarrow> u8 list \<Rightarrow> (u8 list, any_error) result" where
  "pcr_tokens [] acc = Ok acc"
| "pcr_tokens (t # ts) acc =
     (let tok = trim t
      in if tok = [] then pcr_tokens ts acc
         else bind_r (ok_or (parse_uint 8 tok) (Msg ''PCR index is not a u8''))
           (\<lambda>n. pcr_tokens ts (acc @ [of_nat n])))"

definition parse_pcr_list :: "str \<Rightarrow> (u8 list, any_error) result" where
  "parse_pcr_list s =
     bind_r (pcr_tokens (split_char (CHR '','') s) []) (\<lambda>pcrs.
       if pcrs = [] then Err (Msg ''PCR list is empty'')
       else bind_r (validate_pcrs pcrs) (\<lambda>_. Ok pcrs))"

text \<open>
  \<open>PcrSlot\<close> is an enumeration of the TPM library, \<open>Slot0\<close> to \<open>Slot23\<close>; the catch-all of the
  conversion is \<open>unreachable!\<close>.
\<close>

datatype pcr_slot = Slot nat

definition u8_to_pcr_slot :: "u8 \<Rightarrow> (pcr_slot, 'e) result" where
  "u8_to_pcr_slot p = (if p \<le> 23 then Ok (Slot (unat p)) else Panic)"

fun pcr_slots :: "u8 list \<Rightarrow> (pcr_slot list, 'e) result" where
  "pcr_slots [] = Ok []"
| "pcr_slots (p # ps) = bind_r (u8_to_pcr_slot p) (\<lambda>s. map_r ((#) s) (pcr_slots ps))"

text \<open>The probe for the device, which does not open it.\<close>

definition TPM_DEVICE :: str where
  "TPM_DEVICE = ''/dev/tpmrm0''"

definition device_present :: "(world, bool, 'e) io" where
  "device_present = fs_exists TPM_DEVICE"

section \<open>The file\<close>

definition FILE_MAGIC_V1 :: "u8 list" where "FILE_MAGIC_V1 = as_bytes ''R503TPM'' @ [1]"
definition FILE_MAGIC_V2 :: "u8 list" where "FILE_MAGIC_V2 = as_bytes ''R503TPM'' @ [2]"
definition FILE_MAGIC_V3 :: "u8 list" where "FILE_MAGIC_V3 = as_bytes ''R503TPM'' @ [3]"
definition DEFAULT_PCRS :: "u8 list" where "DEFAULT_PCRS = [7]"
definition MAX_FIELD :: nat where "MAX_FIELD = 65536"

datatype seal_policy = Pcrs "u8 list" | No_policy

definition serialize_blob :: "seal_policy \<Rightarrow> u8 list \<Rightarrow> u8 list \<Rightarrow> u8 list" where
  "serialize_blob policy pub_bytes priv_bytes =
     (case policy of
        Pcrs pcrs \<Rightarrow> if pcrs = DEFAULT_PCRS then FILE_MAGIC_V1
                     else FILE_MAGIC_V2 @ [of_nat (length pcrs)] @ pcrs
      | No_policy \<Rightarrow> FILE_MAGIC_V3)
     @ u32_le_bytes (length pub_bytes) @ pub_bytes @ u32_le_bytes (length priv_bytes) @ priv_bytes"

definition blob_policy :: "u8 list \<Rightarrow> (seal_policy \<times> nat, any_error) result" where
  "blob_policy blob =
     (if take 8 blob = FILE_MAGIC_V1 then Ok (Pcrs DEFAULT_PCRS, length FILE_MAGIC_V1)
      else if take 8 blob = FILE_MAGIC_V2 then
        (let off = length FILE_MAGIC_V2
         in if length blob \<le> off then Err (Msg ''v2 sealed blob truncated before pcr_count'')
            else let pcr_count = unat (blob ! off); off = off + 1
            in if pcr_count = 0 \<or> 24 < pcr_count then Err (Msg ''v2 sealed blob has invalid pcr_count'')
            else if length blob < off + pcr_count then Err (Msg ''v2 sealed blob truncated in pcr_list'')
            else bind_r (slice_bytes blob off (off + pcr_count)) (\<lambda>pcrs.
                 bind_r (validate_pcrs pcrs) (\<lambda>_. Ok (Pcrs pcrs, off + pcr_count))))
      else if take 8 blob = FILE_MAGIC_V3 then Ok (No_policy, length FILE_MAGIC_V3)
      else Err (Msg ''sealed blob magic mismatch''))"

definition blob_fields ::
  "u8 list \<Rightarrow> seal_policy \<Rightarrow> nat \<Rightarrow> (seal_policy \<times> u8 list \<times> u8 list, any_error) result"
where
  "blob_fields blob policy off =
     bind_r (slice_bytes blob off (off + 4)) (\<lambda>lb.
       let pub_len = le_nat lb
       in if MAX_FIELD < pub_len then Err (Msg ''sealed blob pub field too large'')
       else let off = off + 4
       in bind_r (ok_or (Option.bind (checked_add off pub_len) (\<lambda>e. checked_add e 4))
            (Msg ''sealed blob length arithmetic overflow (pub field)'')) (\<lambda>pub_end.
       if length blob < pub_end then Err (Msg ''sealed blob truncated (pub field)'')
       else bind_r (slice_bytes blob off (off + pub_len)) (\<lambda>pub_bytes.
       let off = off + pub_len
       in bind_r (slice_bytes blob off (off + 4)) (\<lambda>lb.
       let priv_len = le_nat lb
       in if MAX_FIELD < priv_len then Err (Msg ''sealed blob priv field too large'')
       else let off = off + 4
       in bind_r (ok_or (checked_add off priv_len)
            (Msg ''sealed blob length arithmetic overflow (priv field)'')) (\<lambda>blob_end.
       if blob_end \<noteq> length blob then Err (Msg ''sealed blob length mismatch (priv field)'')
       else bind_r (slice_bytes blob off (off + priv_len)) (\<lambda>priv_bytes.
       Ok (policy, pub_bytes, priv_bytes)))))))"

definition deserialize_blob :: "u8 list \<Rightarrow> (seal_policy \<times> u8 list \<times> u8 list, any_error) result" where
  "deserialize_blob blob =
     (if length blob < length FILE_MAGIC_V1 + 8 then Err (Msg ''sealed blob too short'')
      else bind_r (blob_policy blob) (\<lambda>(policy, off). blob_fields blob policy off))"

definition policy_of_blob :: "u8 list \<Rightarrow> (seal_policy, any_error) result" where
  "policy_of_blob blob = map_r fst (deserialize_blob blob)"

section \<open>Which lists are accepted\<close>

definition valid_pcrs :: "u8 list \<Rightarrow> bool" where
  "valid_pcrs pcrs \<longleftrightarrow> pcrs \<noteq> [] \<and> length pcrs \<le> 24 \<and> (\<forall>p \<in> set pcrs. p \<le> 23) \<and> distinct pcrs"

lemma sorted_remdups_adj_distinct: "sorted xs \<Longrightarrow> distinct (remdups_adj xs)"
  by (induction xs rule: remdups_adj.induct) auto

lemma sort_dedup_length:
  fixes xs :: "'a::linorder list"
  shows "length (remdups_adj (sort xs)) = length xs \<longleftrightarrow> distinct xs"
proof -
  have "length (remdups_adj (sort xs)) = card (set xs)"
    using distinct_card [OF sorted_remdups_adj_distinct [OF sorted_sort [of xs]]] by simp
  then show ?thesis using card_distinct distinct_card by metis
qed

lemma validate_pcrs_Ok: "validate_pcrs pcrs = Ok u \<longleftrightarrow> valid_pcrs pcrs"
  by (auto simp: validate_pcrs_def valid_pcrs_def sort_dedup_length list_ex_iff not_less)
    (force simp: not_le)

lemma validate_pcrs_not_Panic [simp]: "validate_pcrs pcrs \<noteq> Panic"
  by (simp add: validate_pcrs_def)

lemma pcr_tokens_spec:
  "(\<exists>ps. pcr_tokens ts acc = Ok (acc @ ps)) \<or> (\<exists>e. pcr_tokens ts acc = Err e)"
proof (induction ts arbitrary: acc)
  case (Cons t ts)
  show ?case
  proof (cases "parse_uint 8 (trim t)")
    case (Some n)
    show ?thesis using Cons [of acc] Cons [of "acc @ [of_nat n]"] Some by (auto simp: Let_def)
  qed (use Cons [of acc] in \<open>auto simp: Let_def\<close>)
qed simp

section \<open>The file is read back\<close>

lemma slice_Ok:
  "slice_bytes bs i (i + n) = Ok x \<longleftrightarrow> length x = n \<and> i + n \<le> length bs \<and> drop i bs = x @ drop (i + n) bs"
proof -
  have "drop i bs = take n (drop i bs) @ drop (i + n) bs"
    by (metis add.commute append_take_drop_id drop_drop)
  then show ?thesis by (auto simp: slice_bytes_def append_eq_conv_conj)
qed

lemma fields_Ok:
  assumes "length pre \<le> 33" "length p \<le> MAX_FIELD" "length q \<le> MAX_FIELD"
  shows "blob_fields (pre @ u32_le_bytes (length p) @ p @ u32_le_bytes (length q) @ q) policy (length pre)
    = Ok (policy, p, q)"
proof -
  let ?lp = "u32_le_bytes (length p)" and ?lq = "u32_le_bytes (length q)"
  have "le_nat ?lp = length p" "le_nat ?lq = length q"
    using assms by (simp_all add: le_nat_u32 MAX_FIELD_def)
  then show ?thesis
    using assms by (simp add: blob_fields_def slice_bytes_def checked_add_def MAX_FIELD_def Let_def)
qed

lemma fields_inverse:
  assumes "blob_fields blob policy off = Ok (policy', p, q)"
  shows "policy' = policy \<and> length p \<le> MAX_FIELD \<and> length q \<le> MAX_FIELD
    \<and> blob = take off blob @ u32_le_bytes (length p) @ p @ u32_le_bytes (length q) @ q"
proof -
  obtain lp lq where "policy' = policy"
      and s1: "slice_bytes blob off (off + 4) = (Ok lp :: (_, any_error) result)" "le_nat lp \<le> MAX_FIELD"
      and s2: "slice_bytes blob (off + 4) (off + 4 + le_nat lp) = (Ok p :: (_, any_error) result)"
      and s3: "slice_bytes blob (off + 4 + le_nat lp) (off + 4 + le_nat lp + 4) = (Ok lq :: (_, any_error) result)"
        "le_nat lq \<le> MAX_FIELD"
      and s4: "slice_bytes blob (off + 4 + le_nat lp + 4) (off + 4 + le_nat lp + 4 + le_nat lq)
        = (Ok q :: (_, any_error) result)"
      and fin: "off + 4 + le_nat lp + 4 + le_nat lq = length blob"
    using assms unfolding blob_fields_def
    by (auto simp: result_simps Let_def checked_add_def split: if_splits option.splits)
  have "length lp = 4" "length p = le_nat lp" "length lq = 4" "length q = le_nat lq"
    using s1(1) s2 s3(1) s4 by (simp_all only: slice_Ok)
  moreover have "drop off blob = lp @ p @ lq @ q"
    using iffD1 [OF slice_Ok s1(1)] iffD1 [OF slice_Ok s2] iffD1 [OF slice_Ok s3(1)] iffD1 [OF slice_Ok s4] fin
    by simp
  ultimately show ?thesis
    using \<open>policy' = policy\<close> s1(2) s3(2) append_take_drop_id [of off blob] u32_le_bytes_nat by metis
qed

lemma fields_Panic:
  assumes "off \<le> length blob" "length blob < 2 ^ 63"
  shows "blob_fields blob policy off = Panic \<longleftrightarrow> length blob < off + 4"
  using assms unfolding blob_fields_def
  by (auto simp: result_simps Let_def slice_bytes_def checked_add_def MAX_FIELD_def split: if_splits option.splits)

lemma magics:
  "length FILE_MAGIC_V1 = 8" "length FILE_MAGIC_V2 = 8" "length FILE_MAGIC_V3 = 8"
  "FILE_MAGIC_V1 \<noteq> FILE_MAGIC_V2" "FILE_MAGIC_V1 \<noteq> FILE_MAGIC_V3" "FILE_MAGIC_V2 \<noteq> FILE_MAGIC_V3"
  by (simp_all add: FILE_MAGIC_V1_def FILE_MAGIC_V2_def FILE_MAGIC_V3_def)

lemmas magics' = magics magics(4-6) [symmetric]

definition policy_ok :: "seal_policy \<Rightarrow> bool" where
  "policy_ok policy \<longleftrightarrow> (case policy of Pcrs pcrs \<Rightarrow> valid_pcrs pcrs | No_policy \<Rightarrow> True)"

text \<open>The bytes in front of the two fields.\<close>

definition blob_head :: "seal_policy \<Rightarrow> u8 list" where
  "blob_head policy =
     (case policy of
        Pcrs pcrs \<Rightarrow> if pcrs = DEFAULT_PCRS then FILE_MAGIC_V1
                     else FILE_MAGIC_V2 @ [of_nat (length pcrs)] @ pcrs
      | No_policy \<Rightarrow> FILE_MAGIC_V3)"

lemma blob_policy_list:
  assumes "valid_pcrs pcrs"
  shows "blob_policy (FILE_MAGIC_V2 @ [of_nat (length pcrs)] @ pcrs @ rest) = Ok (Pcrs pcrs, 9 + length pcrs)"
proof -
  have n: "unat (of_nat (length pcrs) :: u8) = length pcrs" "0 < length pcrs" "length pcrs \<le> 24"
      "validate_pcrs pcrs = Ok ()"
    using assms by (auto simp: valid_pcrs_def unat_of_nat_u8 validate_pcrs_Ok)
  have "(FILE_MAGIC_V2 @ of_nat (length pcrs) # pcrs @ rest) ! 8 = of_nat (length pcrs)"
    using nth_append_length [of FILE_MAGIC_V2] by (simp add: magics)
  with n show ?thesis
    by (simp add: blob_policy_def magics' Let_def slice_bytes_def)
qed

lemma blob_head_policy:
  assumes "policy_ok policy"
  shows "length (blob_head policy) \<le> 33 \<and> blob_policy (blob_head policy @ rest) = Ok (policy, length (blob_head policy))"
proof (cases policy)
  case (Pcrs pcrs)
  then have v: "valid_pcrs pcrs" "length pcrs \<le> 24"
    using assms by (simp_all add: policy_ok_def valid_pcrs_def)
  then show ?thesis
    using blob_policy_list [OF v(1)]
    by (cases "pcrs = DEFAULT_PCRS") (simp_all add: Pcrs blob_head_def blob_policy_def magics)
qed (simp add: blob_head_def blob_policy_def magics')

lemma blob_policy_inverse:
  assumes "blob_policy blob = Ok (policy, off)" "8 \<le> length blob"
  shows "policy_ok policy \<and> off \<le> length blob \<and> off \<le> 33
    \<and> (take off blob = blob_head policy \<or> policy = Pcrs DEFAULT_PCRS \<and> take off blob = FILE_MAGIC_V2 @ [1] @ DEFAULT_PCRS)"
proof -
  have head: "take 8 blob = FILE_MAGIC_V1 \<or> take 8 blob = FILE_MAGIC_V3
      \<or> (\<exists>pcrs. take 8 blob = FILE_MAGIC_V2 \<and> 8 < length blob \<and> unat (blob ! 8) \<le> 24
         \<and> slice_bytes blob 9 (9 + unat (blob ! 8)) = (Ok pcrs :: (_, any_error) result)
         \<and> validate_pcrs pcrs = Ok () \<and> policy = Pcrs pcrs \<and> off = 9 + unat (blob ! 8))"
    using assms(1) by (auto simp: blob_policy_def magics' Let_def result_simps not_le not_less split: if_splits)
  then consider (plain) "take 8 blob = FILE_MAGIC_V1 \<or> take 8 blob = FILE_MAGIC_V3"
    | (list) pcrs where "take 8 blob = FILE_MAGIC_V2" "8 < length blob" "unat (blob ! 8) \<le> 24"
        "slice_bytes blob 9 (9 + unat (blob ! 8)) = (Ok pcrs :: (_, any_error) result)"
        "valid_pcrs pcrs" "policy = Pcrs pcrs" "off = 9 + unat (blob ! 8)"
    unfolding validate_pcrs_Ok by blast
  then show ?thesis
  proof cases
    case plain
    then show ?thesis
      using assms
      by (auto simp: blob_policy_def magics' policy_ok_def blob_head_def valid_pcrs_def DEFAULT_PCRS_def)
  next
    case list
    have sl: "length pcrs = unat (blob ! 8)" "9 + unat (blob ! 8) \<le> length blob" "take (unat (blob ! 8)) (drop 9 blob) = pcrs"
      using list(4) by (auto simp: slice_bytes_def split: if_splits)
    have "blob ! 8 = of_nat (length pcrs)" by (simp add: sl(1))
    moreover have "take 9 blob = take 8 blob @ [blob ! 8]"
      using take_Suc_conv_app_nth [of 8 blob] list(2) by simp
    then have "take off blob = take 8 blob @ [blob ! 8] @ take (unat (blob ! 8)) (drop 9 blob)"
      by (simp add: list(7) take_add)
    ultimately have "take off blob = FILE_MAGIC_V2 @ [of_nat (length pcrs)] @ pcrs"
      using list(1) sl(3) by simp
    then show ?thesis
      using list(3,5-7) sl by (cases "pcrs = DEFAULT_PCRS") (simp_all add: policy_ok_def blob_head_def DEFAULT_PCRS_def)
  qed
qed

lemma serialize_head:
  "serialize_blob policy p q
    = blob_head policy @ u32_le_bytes (length p) @ p @ u32_le_bytes (length q) @ q"
  by (cases policy) (simp_all add: serialize_blob_def blob_head_def)

lemma blob_read_back:
  assumes "blob_policy (pre @ rest) = Ok (policy, length pre)" "8 \<le> length pre" "length pre \<le> 33"
    and "rest = u32_le_bytes (length p) @ p @ u32_le_bytes (length q) @ q"
    and "length p \<le> MAX_FIELD" "length q \<le> MAX_FIELD"
  shows "deserialize_blob (pre @ rest) = Ok (policy, p, q)"
  using assms(1,2) fields_Ok [OF assms(3,5,6), of policy] by (simp add: deserialize_blob_def magics assms(4))

lemma blob_written_read:
  assumes "policy_ok policy" "length p \<le> MAX_FIELD" "length q \<le> MAX_FIELD"
  shows "deserialize_blob (serialize_blob policy p q) = Ok (policy, p, q)"
proof -
  have "8 \<le> length (blob_head policy)" by (cases policy) (auto simp: blob_head_def magics)
  then show ?thesis
    using blob_head_policy [OF assms(1)] assms(2,3) unfolding serialize_head
    by (intro blob_read_back) auto
qed

text \<open>
  Claim C34. The file of a sealed key is read back as it was written: for a policy the program makes (a
  valid PCR list, or none) and two structures within the size limit, the parser gives back the
  policy and both structures.
\<close>

theorem sealed_blob_roundtrip:
  assumes "policy_ok policy" "length p \<le> MAX_FIELD" "length q \<le> MAX_FIELD"
  shows "deserialize_blob (serialize_blob policy p q) = Ok (policy, p, q)"
  by (rule blob_written_read [OF assms])

theorem sealed_blob_roundtrip_witness:
  "deserialize_blob (serialize_blob (Pcrs [0, 4, 7, 11]) [1, 2, 3, 4, 5] [9, 8, 7])
     = Ok (Pcrs [0, 4, 7, 11], [1, 2, 3, 4, 5], [9, 8, 7])"
  by (rule sealed_blob_roundtrip) (simp_all add: policy_ok_def valid_pcrs_def MAX_FIELD_def)

lemma deserialized_policy:
  assumes "deserialize_blob blob = Ok (policy, p, q)"
  shows "policy_ok policy"
proof -
  have len: "8 \<le> length blob"
    using assms by (simp add: deserialize_blob_def magics split: if_splits)
  obtain policy' off where h: "blob_policy blob = Ok (policy', off)" and f: "blob_fields blob policy' off = Ok (policy, p, q)"
    using assms by (auto simp: deserialize_blob_def result_simps split: if_splits)
  from fields_inverse [OF f] blob_policy_inverse [OF h len] show ?thesis by simp
qed

text \<open>
  What the parser accepts is what the writer writes: the policy is valid, both structures are
  within the limit, nothing is left over, and the bytes are the ones \<open>serialize_blob\<close> makes of the
  result. One file has two forms: the list of the default PCR alone may also be spelled out.
\<close>

theorem sealed_blob_canonical:
  assumes "deserialize_blob blob = Ok (policy, p, q)"
  shows "policy_ok policy \<and> length p \<le> MAX_FIELD \<and> length q \<le> MAX_FIELD
    \<and> (blob = serialize_blob policy p q
      \<or> policy = Pcrs DEFAULT_PCRS \<and> blob = FILE_MAGIC_V2 @ [1] @ DEFAULT_PCRS
          @ u32_le_bytes (length p) @ p @ u32_le_bytes (length q) @ q)"
proof -
  have len: "8 \<le> length blob"
    using assms by (simp add: deserialize_blob_def magics split: if_splits)
  obtain policy' off where h: "blob_policy blob = Ok (policy', off)"
      and f: "blob_fields blob policy' off = Ok (policy, p, q)"
    using assms by (auto simp: deserialize_blob_def result_simps split: if_splits)
  from fields_inverse [OF f] have p: "policy' = policy" "length p \<le> MAX_FIELD" "length q \<le> MAX_FIELD"
      and b: "blob = take off blob @ u32_le_bytes (length p) @ p @ u32_le_bytes (length q) @ q"
    by simp_all
  from blob_policy_inverse [OF h len] consider "policy_ok policy" "take off blob = blob_head policy"
    | "policy_ok policy" "policy = Pcrs DEFAULT_PCRS" "take off blob = FILE_MAGIC_V2 @ [1] @ DEFAULT_PCRS"
    unfolding p(1) by blast
  then show ?thesis
  proof cases
    case 1
    from b [unfolded 1(2)] have "blob = serialize_blob policy p q" unfolding serialize_head .
    with 1(1) p(2,3) show ?thesis by simp
  next
    case 2
    have "blob = FILE_MAGIC_V2 @ [1] @ DEFAULT_PCRS
        @ u32_le_bytes (length p) @ p @ u32_le_bytes (length q) @ q"
      using trans [OF b arg_cong [OF 2(3), of "\<lambda>x. x @ u32_le_bytes (length p) @ p @ u32_le_bytes (length q) @ q"]]
      by (simp only: append_assoc)
    with 2(1,2) p(2,3) show ?thesis by (intro conjI disjI2)
  qed
qed

theorem sealed_blob_canonical_witness:
  "policy_ok (Pcrs [0, 4]) \<and> length [1, 2, 3 :: u8] \<le> MAX_FIELD"
proof -
  have d: "deserialize_blob ((FILE_MAGIC_V2 @ [of_nat (length [0, 4 :: u8])] @ [0, 4]) @ u32_le_bytes (length [1, 2, 3 :: u8]) @ [1, 2, 3]
      @ u32_le_bytes (length [9 :: u8]) @ [9]) = Ok (Pcrs [0, 4], [1, 2, 3], [9])"
    by (rule blob_read_back)
      (use blob_policy_list [of "[0, 4]"] in \<open>simp_all add: magics valid_pcrs_def MAX_FIELD_def\<close>)
  show ?thesis using sealed_blob_canonical [OF d] by blast
qed

text \<open>
  Claim C35. The parser panics exactly on files that end right after a valid PCR list, with fewer than
  four bytes behind it: the length check at the start does not count the list, and the read of the
  next length indexes past the end. Every other file is accepted or refused with an error.
\<close>

theorem sealed_blob_panics_iff:
  assumes "length blob < 2 ^ 63"
  shows "deserialize_blob blob = Panic
    \<longleftrightarrow> (\<exists>pcrs rest. blob = FILE_MAGIC_V2 @ [of_nat (length pcrs)] @ pcrs @ rest \<and> valid_pcrs pcrs
         \<and> length rest < 4 \<and> 16 \<le> length blob)"
proof -
  have not_Panic: "blob_policy blob \<noteq> Panic"
    by (auto simp: blob_policy_def Let_def result_simps slice_bytes_def split: if_splits)
  show ?thesis
  proof
    assume a: "deserialize_blob blob = Panic"
    then obtain policy off where h: "16 \<le> length blob" "blob_policy blob = Ok (policy, off)"
        and f: "blob_fields blob policy off = Panic"
      using not_Panic by (auto simp: deserialize_blob_def result_simps magics split: if_splits)
    have i: "policy_ok policy" "off \<le> length blob"
        "take off blob = blob_head policy \<or> policy = Pcrs DEFAULT_PCRS \<and> take off blob = FILE_MAGIC_V2 @ [1] @ DEFAULT_PCRS"
      using blob_policy_inverse [OF h(2)] h(1) by simp_all
    have short: "length blob < off + 4" using fields_Panic [OF i(2) assms] f by simp
    have off: "length (take off blob) = off" using i(2) by simp
    have rest: "blob = take off blob @ drop off blob" "length (drop off blob) < 4" using short i(2) by auto
    have "length (take off blob) \<noteq> 8" using off short h(1) by simp
    then have "take off blob \<noteq> FILE_MAGIC_V1" "take off blob \<noteq> FILE_MAGIC_V3" using magics by metis+
    then obtain pcrs where "policy = Pcrs pcrs" "take off blob = FILE_MAGIC_V2 @ [of_nat (length pcrs)] @ pcrs"
      using i(3) by (cases policy) (auto simp: blob_head_def DEFAULT_PCRS_def split: if_splits)
    with rest i(1) h(1)
    show "\<exists>pcrs rest. blob = FILE_MAGIC_V2 @ [of_nat (length pcrs)] @ pcrs @ rest \<and> valid_pcrs pcrs
         \<and> length rest < 4 \<and> 16 \<le> length blob"
      by (intro exI [of _ pcrs] exI [of _ "drop off blob"]) (simp add: policy_ok_def)
  next
    assume "\<exists>pcrs rest. blob = FILE_MAGIC_V2 @ [of_nat (length pcrs)] @ pcrs @ rest \<and> valid_pcrs pcrs
         \<and> length rest < 4 \<and> 16 \<le> length blob"
    then obtain pcrs rest where b: "blob = FILE_MAGIC_V2 @ [of_nat (length pcrs)] @ pcrs @ rest" "valid_pcrs pcrs"
        "length rest < 4" "16 \<le> length blob" by blast
    have "blob_fields blob (Pcrs pcrs) (9 + length pcrs) = Panic"
      using fields_Panic [OF _ assms, of "9 + length pcrs"] b(1,3) by (simp add: magics)
    then show "deserialize_blob blob = Panic"
      using blob_policy_list [OF b(2), of rest] b(4) by (simp add: deserialize_blob_def magics b(1))
  qed
qed

theorem sealed_blob_panics_iff_witness:
  "deserialize_blob (FILE_MAGIC_V2 @ [7, 0, 1, 2, 3, 4, 5, 7]) = Panic"
proof -
  have "\<exists>pcrs rest. FILE_MAGIC_V2 @ [7, 0, 1, 2, 3, 4, 5, 7] = FILE_MAGIC_V2 @ [of_nat (length pcrs)] @ pcrs @ rest
      \<and> valid_pcrs pcrs \<and> length rest < 4 \<and> 16 \<le> length (FILE_MAGIC_V2 @ [7, 0, 1, 2, 3, 4, 5, 7])"
    by (intro exI [of _ "[0, 1, 2, 3, 4, 5, 7]"] exI [of _ "[]"]) (simp add: valid_pcrs_def magics)
  then show ?thesis
    by (subst sealed_blob_panics_iff) (simp_all add: magics)
qed

section \<open>PCR lists are read back\<close>

lemma pcr_slots_small: "\<forall>p \<in> set ps. p \<le> 23 \<Longrightarrow> pcr_slots ps = Ok (map (\<lambda>p. Slot (unat p)) ps)"
  by (induction ps) (simp_all add: u8_to_pcr_slot_def)

text \<open>The list as an operator would write it.\<close>

fun show_pcrs :: "u8 list \<Rightarrow> str" where
  "show_pcrs [] = []"
| "show_pcrs [p] = show_nat (unat p)"
| "show_pcrs (p # q # ps) = show_nat (unat p) @ '','' @ show_pcrs (q # ps)"

lemma split_at_token: "d \<notin> set t \<Longrightarrow> split_at d acc (t @ d # s) = (acc @ t) # split_at d [] s"
  by (induction t arbitrary: acc) auto

lemma split_at_end: "d \<notin> set t \<Longrightarrow> split_at d acc t = [acc @ t]"
  by (induction t arbitrary: acc) auto

lemma comma_not_digit: "CHR '','' \<notin> set (show_nat n)"
  using show_nat_digits [of n] by (auto simp: list_all_iff is_ascii_digit_def ord_def)

lemma split_show_pcrs: "ps \<noteq> [] \<Longrightarrow> split_char (CHR '','') (show_pcrs ps) = map (\<lambda>p. show_nat (unat p)) ps"
  by (induction ps rule: show_pcrs.induct)
    (simp_all add: split_char_def split_at_token split_at_end comma_not_digit)

lemma trim_show_nat: "trim (show_nat n) = show_nat n"
  using show_nat_digits [of n] by (intro trim_visible) (auto simp: list_all_iff is_ascii_digit_def)

lemma pcr_tokens_shown: "pcr_tokens (map (\<lambda>p. show_nat (unat p)) ps) acc = Ok (acc @ ps)"
proof (induction ps arbitrary: acc)
  case (Cons p ps)
  have "unat p < 2 ^ 8" using unat_lt_2p8 [of p] by simp
  then show ?case using Cons by (simp add: trim_show_nat parse_uint_show_nat)
qed simp

text \<open>
  A PCR list that is accepted names between one and 24 different registers of the bank, so
  its conversion to the slots of the TPM library cannot panic; the parser itself never panics; and
  every such list is accepted when it is written out with commas.
\<close>

theorem pcr_list_parsed:
  "(parse_pcr_list s = Ok pcrs \<longrightarrow> valid_pcrs pcrs \<and> pcr_slots pcrs = Ok (map (\<lambda>p. Slot (unat p)) pcrs))
    \<and> parse_pcr_list s \<noteq> Panic
    \<and> (valid_pcrs ps \<longrightarrow> parse_pcr_list (show_pcrs ps) = Ok ps)"
proof (intro conjI impI)
  assume "parse_pcr_list s = Ok pcrs"
  then show "valid_pcrs pcrs"
    by (auto simp: parse_pcr_list_def result_simps validate_pcrs_Ok split: if_splits)
  then show "pcr_slots pcrs = Ok (map (\<lambda>p. Slot (unat p)) pcrs)"
    by (intro pcr_slots_small) (simp add: valid_pcrs_def)
next
  show "parse_pcr_list s \<noteq> Panic"
    using pcr_tokens_spec [of "split_char (CHR '','') s" "[]"]
    by (auto simp: parse_pcr_list_def result_simps)
next
  assume "valid_pcrs ps"
  then show "parse_pcr_list (show_pcrs ps) = Ok ps"
    using validate_pcrs_Ok [of ps "()"]
    by (simp add: parse_pcr_list_def split_show_pcrs pcr_tokens_shown valid_pcrs_def)
qed

theorem pcr_list_parsed_witness:
  "parse_pcr_list (show_pcrs [0, 4, 7, 11]) = Ok [0, 4, 7, 11]"
  using pcr_list_parsed [of "[]" "[]" "[0, 4, 7, 11]"] by (simp add: valid_pcrs_def)

end
