(* ===== verification/Pairing.thy ===== *)
theory Pairing
  imports Pair_Link Keystore Tpm_Blob
begin

text \<open>
  \<open>pairing.rs\<close>: the one-shot commands that pair, unpair and repair. The daemon is stopped while one
  runs. A flow is a computation on the world; once the link is open it runs on the link and the world,
  and the link is closed when it ends. What a flow prints is not modelled, except the report of
  \<open>run_status\<close>, which is all that flow is for, and which of its two messages \<open>run_unpair\<close> ends with;
  messages keep their fixed text.
\<close>

text \<open>The services of the TPM and the kernel, the crates, and \<open>ct_eq\<close> of two keys.\<close>

record pair_env =
  p_keys :: key_services
  p_libs :: libs
  p_key_eq :: "u8 list \<Rightarrow> u8 list \<Rightarrow> bool"

definition link_run :: "'a link_io \<Rightarrow> 'a any_io" where
  "link_run m w = (case m ([], w) of (r, rx, w') \<Rightarrow> (r, w'))"

definition locate_port :: "str option \<Rightarrow> str any_io" where
  "locate_port port_override =
     (case port_override of
        Some p \<Rightarrow> return_io p
      | None \<Rightarrow> map_err_io (\<lambda>_. Msg ''locating R503 serial port'') find_port)"

section \<open>Status\<close>

datatype warning = Paired_without_key | Stale_key | Both_key_forms | Counter_missing

record status_report =
  rep_port :: str
  rep_firmware :: firmware_status
  rep_key_tpm :: bool
  rep_key :: bool
  rep_key_bak :: bool
  rep_tpm_device :: bool
  rep_allow_pair :: bool
  rep_warnings :: "warning list"

definition status_warnings :: "bool \<Rightarrow> bool \<Rightarrow> bool \<Rightarrow> bool \<Rightarrow> bool \<Rightarrow> warning list" where
  "status_warnings paired tpm key bak state =
     (let host_has_key = key \<or> bak \<or> tpm
      in (case (paired, host_has_key) of
            (True, False) \<Rightarrow> [Paired_without_key] | (False, True) \<Rightarrow> [Stale_key] | _ \<Rightarrow> [])
         @ (if tpm \<and> (key \<or> bak) then [Both_key_forms] else [])
         @ (if paired \<and> host_has_key \<and> \<not> state then [Counter_missing] else []))"

definition run_status :: "str option \<Rightarrow> status_report any_io" where
  "run_status port_override =
     bind_io (locate_port port_override) (\<lambda>port.
     link_run (
       bind_io link_open (\<lambda>_.
       bind_io query_status (\<lambda>fw.
       bind_io (on_world (fs_exists KEY_PATH)) (\<lambda>key.
       bind_io (on_world (fs_exists KEY_BAK_PATH)) (\<lambda>bak.
       bind_io (on_world (fs_exists KEY_TPM_PATH)) (\<lambda>tpm.
       bind_io (on_world allow_pair_present) (\<lambda>allow.
       bind_io (on_world device_present) (\<lambda>dev.
       bind_io (on_world (fs_exists STATE_PATH)) (\<lambda>state.
       return_io \<lparr>rep_port = port, rep_firmware = fw, rep_key_tpm = tpm, rep_key = key,
         rep_key_bak = bak, rep_tpm_device = dev, rep_allow_pair = allow,
         rep_warnings = status_warnings (st_paired fw) tpm key bak state\<rparr>))))))))))"

section \<open>Pairing\<close>

text \<open>From the opt-in check to the generated key; then what happens once the marker is gone.\<close>

definition pair_send :: "u8 list \<Rightarrow> unit link_io" where
  "pair_send key =
     bind_io (cmd_labeled (''pair '' @ key_hex key) ''pair'' (from_millis 2000)) (\<lambda>reply.
     if reply \<noteq> ''OK paired'' then fail_io (Msg ''Nano refused pair'')
     else bind_io query_status (\<lambda>post.
     if \<not> st_paired post then fail_io (Msg ''paired ok but status still reports paired=false'')
     else return_io ()))"

definition pair_store :: "pair_env \<Rightarrow> bool \<Rightarrow> str option \<Rightarrow> u8 list \<Rightarrow> unit any_io" where
  "pair_store E seal_tpm seal_tpm_pcrs key =
     bind_io
       (if seal_tpm
        then bind_io (case seal_tpm_pcrs of
                 Some s \<Rightarrow> map_err_io (Context ''parsing --seal-tpm-pcrs'') (result_io (parse_pcr_list s))
               | None \<Rightarrow> return_io [7]) (\<lambda>pcrs.
             map_err_io (Context ''sealing host key to TPM'') (save_key_sealed_with_pcrs (p_keys E) key pcrs))
        else map_err_io (Context ''saving host key'') (save_key key)) (\<lambda>_.
     map_err_io (Context ''initializing client counter state'')
       (state_save (state_json (p_libs E)) state_fresh))"

definition pair_finish :: "pair_env \<Rightarrow> bool \<Rightarrow> str option \<Rightarrow> u8 list \<Rightarrow> unit link_io" where
  "pair_finish E seal_tpm seal_tpm_pcrs key =
     bind_io (pair_send key) (\<lambda>_. on_world (pair_store E seal_tpm seal_tpm_pcrs key))"

definition run_pair :: "pair_env \<Rightarrow> str option \<Rightarrow> bool \<Rightarrow> str option \<Rightarrow> unit any_io" where
  "run_pair E port_override seal_tpm seal_tpm_pcrs =
     bind_io allow_pair_present (\<lambda>allowed.
     if \<not> allowed then fail_io (Msg ''host opt-in missing'')
     else bind_io (if seal_tpm then device_present else return_io True) (\<lambda>tpm.
     if \<not> tpm then fail_io (Msg ''--seal-tpm requested but no TPM device'')
     else bind_io (locate_port port_override) (\<lambda>port.
     link_run (
       bind_io link_open (\<lambda>_.
       bind_io query_status (\<lambda>pre.
       if st_paired pre then fail_io (Msg ''Nano already paired'')
       else bind_io (on_world (map_err_io (Context ''generating 128-bit key'') (generate_key (p_keys E)))) (\<lambda>key.
       bind_io (on_world (map_err_io (Context ''closing allow-pair gate before sending key'') remove_allow_pair)) (\<lambda>_.
       pair_finish E seal_tpm seal_tpm_pcrs key))))))))"

section \<open>Sealing again\<close>

definition run_reseal_tpm :: "pair_env \<Rightarrow> str option \<Rightarrow> str option \<Rightarrow> unit any_io" where
  "run_reseal_tpm E port_override seal_tpm_pcrs =
     bind_io device_present (\<lambda>tpm.
     if \<not> tpm then fail_io (Msg ''no TPM device present'')
     else bind_io allow_pair_present (\<lambda>allowed.
     if \<not> allowed then fail_io (Msg ''host opt-in missing'')
     else bind_io (locate_port port_override) (\<lambda>port.
     bind_io (link_run (bind_io link_open (\<lambda>_. query_status))) (\<lambda>pre.
     if st_paired pre then fail_io (Msg ''Nano still reports paired=true'')
     else bind_io (ignore_io delete_all_keys) (\<lambda>_.
     bind_io (ignore_io state_delete) (\<lambda>_.
     run_pair E port_override True seal_tpm_pcrs))))))"

definition run_reseal_policy :: "pair_env \<Rightarrow> u8 list option \<Rightarrow> unit any_io" where
  "run_reseal_policy E new_pcrs =
     bind_io (map_err_io (Context ''existing key.tpm cannot be unsealed'') (load_key_with_source (p_keys E))) (\<lambda>loaded.
     case loaded of
       None \<Rightarrow> fail_io (Msg ''no host key present'')
     | Some (key, source) \<Rightarrow>
         bind_io (case source of
             Plaintext \<Rightarrow> return_io ()
           | Tpm \<Rightarrow> bind_io (with_context ''re-reading'' (fs_read KEY_TPM_PATH)) (\<lambda>old_blob.
               ignore_io (result_io (policy_of_blob old_blob)))) (\<lambda>_.
         bind_io (case new_pcrs of
             Some pcrs \<Rightarrow> map_err_io (Context ''sealing key to TPM'') (seal_pcrs (p_keys E) key pcrs)
           | None \<Rightarrow> map_err_io (Context ''sealing key to TPM (no policy)'') (seal_plain (p_keys E) key)) (\<lambda>new_blob.
         bind_io (map_err_io (Context ''verifying freshly-sealed blob'') (unseal (p_keys E) new_blob)) (\<lambda>reunsealed.
         if \<not> p_key_eq E reunsealed key then fail_io (Msg ''reseal verification mismatch'')
         else bind_io (map_err_io (Context ''writing resealed key.tpm'') (persist_sealed_blob new_blob)) (\<lambda>_.
         if source = Plaintext then ignore_io delete_key else return_io ())))))"

section \<open>Recovering the counter\<close>

definition resync_target :: "u64 \<Rightarrow> (u64, any_error) result" where
  "resync_target reported_last_seen =
     (if COUNTER_CEILING - 1 \<le> reported_last_seen
      then Err (Msg ''reported counter is at/above the reserved ceiling'')
      else Ok (reported_last_seen + 1))"

definition run_resync :: "pair_env \<Rightarrow> str option \<Rightarrow> unit any_io" where
  "run_resync E port_override =
     bind_io (map_err_io (Context ''checking for a host key before resync'') (load_key_with_source (p_keys E))) (\<lambda>loaded.
     if loaded = None then fail_io (Msg ''no host key'')
     else bind_io (locate_port port_override) (\<lambda>port.
     link_run (
       bind_io link_open (\<lambda>_.
       bind_io query_status (\<lambda>fw.
       if \<not> st_paired fw then fail_io (Msg ''Nano reports paired=false'')
       else bind_io (map_err_io (Context ''refusing to resync'') (result_io (resync_target (st_counter fw)))) (\<lambda>new_counter.
       bind_io (on_world (map_err_io (Context ''loading current client counter state'')
         (state_load (state_json (p_libs E))))) (\<lambda>old.
       on_world (map_err_io (Context ''writing resynced client counter state'')
         (state_save (state_json (p_libs E)) \<lparr>next_cmd_counter = new_counter\<rparr>)))))))))"

section \<open>Unpairing\<close>

text \<open>The framed command, with the counter that was saved before; then what follows its answer.\<close>

definition unpair_send :: "pair_env \<Rightarrow> u8 list \<Rightarrow> u64 \<Rightarrow> unit link_io" where
  "unpair_send E key counter =
     bind_io (cmd_labeled (encode_command key counter ''unpair'') ''unpair'' (from_millis 2000)) (\<lambda>raw_reply.
     if \<not> starts_with raw_reply ''R '' then fail_io (Msg ''Nano refused framed unpair (unframed reply)'')
     else bind_io (map_err_io (\<lambda>_. Msg ''response framing'')
       (result_io (verify_response (ct_eq (p_libs E)) key raw_reply))) (\<lambda>(got_ctr, got_seq, body).
     if got_ctr \<noteq> counter then fail_io (Msg ''unpair response counter mismatch'')
     else if body \<noteq> ''OK unpaired'' then fail_io (Msg ''Nano refused unpair'')
     else return_io ()))"

datatype unpair_outcome = Already_unpaired | Unpaired firmware_status

definition run_unpair :: "pair_env \<Rightarrow> str option \<Rightarrow> unpair_outcome any_io" where
  "run_unpair E port_override =
     bind_io (map_err_io (Context ''loading host key for unpair'') (load_key_with_source (p_keys E))) (\<lambda>loaded.
     case loaded of
       None \<Rightarrow> fail_io (Msg ''no host key; cannot authenticate unpair'')
     | Some (key, source) \<Rightarrow>
         bind_io (locate_port port_override) (\<lambda>port.
         link_run (
           bind_io link_open (\<lambda>_.
           bind_io query_status (\<lambda>pre.
           if \<not> st_paired pre
           then bind_io (on_world (ignore_io delete_key)) (\<lambda>_. return_io Already_unpaired)
           else bind_io (on_world (map_err_io (Context ''loading client counter state'')
               (state_load (state_json (p_libs E))))) (\<lambda>st.
             let counter = next_cmd_counter (case st of Some s \<Rightarrow> s | None \<Rightarrow> state_fresh)
             in if COUNTER_CEILING \<le> counter then fail_io (Msg ''v2 counter is at/above the reserved ceiling'')
             else bind_io (on_world (map_err_io (Context ''persisting client counter before unpair'')
               (state_save (state_json (p_libs E)) \<lparr>next_cmd_counter = counter + 1\<rparr>))) (\<lambda>_.
             bind_io (unpair_send E key counter) (\<lambda>_.
             bind_io query_status (\<lambda>post.
             if st_paired post then fail_io (Msg ''unpair ok but status still reports paired=true'')
             else bind_io (on_world (map_err_io (Context ''removing host key files'') delete_all_keys)) (\<lambda>_.
             bind_io (on_world (map_err_io (Context ''removing client counter state'') state_delete)) (\<lambda>_.
             return_io (Unpaired post))))))))))))"

end
