(* ===== verification/Pairing_Safety.thy ===== *)
theory Pairing_Safety
  imports Pairing
begin

text \<open>
  What the pairing commands guarantee: the key is sent only after the opt-in marker is gone, and
  unpairing that reports success has removed every copy of the key. Both rest on the computations that
  leave the files and the wire alone, the quiet ones.
\<close>

section \<open>Computations that leave files and wire alone\<close>

text \<open>
  \<open>quiet\<close>: every stable assertion survives. That the services of the TPM and of the kernel are quiet
  is the hypothesis on them: they touch neither the daemon's files nor the serial port.
\<close>

definition quiet :: "(world, 'a, 'e) io \<Rightarrow> bool" where
  "quiet m \<longleftrightarrow> (\<forall>P. stable P \<longrightarrow> triple P m (\<lambda>_. P) P)"

lemma quietD: "quiet m \<Longrightarrow> stable P \<Longrightarrow> triple P m (\<lambda>_. P) P"
  by (simp add: quiet_def)

lemma quiet_rules:
  "quiet (return_io x)" "quiet (fail_io e)" "quiet (fs_exists p)" "quiet (fs_read p)" "quiet (fs_metadata p)"
  by (auto simp: quiet_def intro: triple_return triple_fail keeps_exists keeps_read keeps_metadata)

lemma quiet_result: "quiet (result_io r)"
  by (auto simp: quiet_def intro: triple_result)

lemma quiet_bind: "quiet m \<Longrightarrow> (\<And>x. quiet (f x)) \<Longrightarrow> quiet (bind_io m f)"
  unfolding quiet_def by (blast intro: keeps_bind)

lemma quiet_map_err: "quiet m \<Longrightarrow> quiet (map_err_io g m)"
  unfolding quiet_def by (blast intro: triple_map_err)

lemma quiet_context: "quiet m \<Longrightarrow> quiet (with_context msg m)"
  unfolding quiet_def by (blast intro: triple_with_context)

lemma quiet_ignore: "quiet m \<Longrightarrow> quiet (ignore_io m)"
  unfolding quiet_def by (blast intro: triple_ignore)

lemma quiet_match: "quiet m \<Longrightarrow> (\<And>x. quiet (f x)) \<Longrightarrow> (\<And>e. quiet (g e)) \<Longrightarrow> quiet (match_io m f g)"
  unfolding quiet_def
  by (intro allI impI, rule triple_match [where R = "\<lambda>_. P" and E' = P for P]) auto

lemma quiet_look: "(\<And>w. snd (full w) = w) \<Longrightarrow> quiet (atomic_call full)"
  by (simp add: quiet_def keeps_look)

lemma quiet_guarded: "quiet (read_key_file_guarded p m)"
  unfolding read_key_file_guarded_def
  by (intro quiet_match) (auto simp: guarded_calls intro!: quiet_look quiet_match quiet_rules)

lemma quiet_load_key_from: "quiet (load_key_from ps)"
proof (induction ps)
  case (Cons p ps)
  then show ?case
    by (cases p) (auto intro!: quiet_bind quiet_guarded quiet_rules split: option.split)
qed (simp add: quiet_rules)

lemma quiet_load_key: "quiet load_key"
  unfolding load_key_def by (rule quiet_load_key_from)

definition quiet_services :: "key_services \<Rightarrow> bool" where
  "quiet_services K \<longleftrightarrow> (\<forall>key pcrs. quiet (seal_pcrs K key pcrs)) \<and> (\<forall>key. quiet (seal_plain K key))
     \<and> (\<forall>blob. quiet (unseal K blob)) \<and> quiet (get_random K)"

lemma quiet_load_key_with_source: "quiet_services K \<Longrightarrow> quiet (load_key_with_source K)"
  unfolding load_key_with_source_def quiet_services_def
  by (auto intro!: quiet_bind quiet_rules quiet_context quiet_map_err quiet_load_key)

lemma quiet_find_port: "quiet find_port"
proof -
  have dev: "quiet fs_read_dev"
    unfolding quiet_def
  proof (intro allI impI, rule tripleI)
    fix P :: "world \<Rightarrow> bool" and w assume "stable P" "P w"
    then show "post (\<lambda>_. P) P (fst (fs_read_dev w)) (snd (fs_read_dev w))"
      using keeps_look [of P "return_io (e_dev (w_env w) (w_tick w))"]
      by (simp add: fs_read_dev_def triple_def return_io_def)
  qed
  have "quiet (find_pattern ps)" for ps
    by (induction ps) (auto intro!: quiet_bind quiet_rules quiet_match dev simp: ok_io_def split: list.split)
  then show ?thesis
    unfolding find_port_def by (auto intro!: quiet_bind quiet_rules simp del: find_pattern.simps)
qed

lemma quiet_locate: "quiet (locate_port po)"
  unfolding locate_port_def
  by (cases po) (auto intro: quiet_rules quiet_map_err quiet_find_port)

lemma quiet_link: "quiet m \<Longrightarrow> stable P \<Longrightarrow> triple (linked P) (on_world m) (\<lambda>_. linked P) (linked P)"
  by (intro linked_world quietD)

lemma triple_if:
  "(\<not> b \<Longrightarrow> triple P m' Q E) \<Longrightarrow> (b \<Longrightarrow> triple P m Q E) \<Longrightarrow> triple P (if b then m else m') Q E"
  by simp

text \<open>A flow on a link, as a flow on the world.\<close>

lemma triple_link_run:
  assumes "triple (linked P) m (\<lambda>x. linked (Q x)) (linked E)"
  shows "triple P (link_run m) Q E"
proof (rule tripleI)
  fix w assume P: "P w"
  obtain r rx w' where m: "m ([], w) = (r, rx, w')" by (cases "m ([], w)")
  have "post (\<lambda>x. linked (Q x)) (linked E) r (rx, w')" by (rule tripleD [OF assms _ m]) (simp add: P)
  then show "post Q E (fst (link_run m w)) (snd (link_run m w))"
    by (cases r) (simp_all add: link_run_def m)
qed

lemma triple_value:
  assumes "triple P m (\<lambda>_. Q) E"
  shows "triple P m (\<lambda>x s. (\<exists>s0 s1. m s0 = (Ok x, s1)) \<and> Q s) E"
proof (rule tripleI)
  fix s assume "P s"
  then have "post (\<lambda>_. Q) E (fst (m s)) (snd (m s))" using assms by (simp add: triple_def)
  then show "post (\<lambda>x s. (\<exists>s0 s1. m s0 = (Ok x, s1)) \<and> Q s) E (fst (m s)) (snd (m s))"
    by (cases "m s"; cases "fst (m s)") auto
qed

section \<open>The key is sent behind a closed gate\<close>

definition key_sent :: "world \<Rightarrow> bool" where
  "key_sent w \<longleftrightarrow> (\<exists>(bs, n) \<in> set (w_wire w). starts_with (of_bytes bs) ''pair '')"

definition gate_private :: "env \<Rightarrow> bool" where
  "gate_private e \<longleftrightarrow> truthful e \<and> untouched ALLOW_PAIR_PATH e"

definition no_key_yet :: "world \<Rightarrow> bool" where
  "no_key_yet w \<longleftrightarrow> \<not> key_sent w \<and> gate_private (w_env w)"

lemma stable_no_key [simp]: "stable no_key_yet"
  by (auto simp: stable_def no_key_yet_def key_sent_def step_world_def)

lemma no_key_sends:
  "sends_ok no_key_yet (as_bytes ''ping'' @ [10])" "sends_ok no_key_yet (as_bytes ''status'')"
  "sends_ok no_key_yet [10]"
proof -
  have "\<not> starts_with (of_bytes (as_bytes ''ping'' @ [10])) ''pair ''"
    "\<not> starts_with (of_bytes (as_bytes ''status'')) ''pair ''"
    "\<not> starts_with (of_bytes [10]) ''pair ''"
    by code_simp+
  then show "sends_ok no_key_yet (as_bytes ''ping'' @ [10])" "sends_ok no_key_yet (as_bytes ''status'')"
    "sends_ok no_key_yet [10]"
    by (auto simp: sends_ok_def no_key_yet_def key_sent_def)
qed

lemmas no_key_link = linked_open [OF stable_no_key no_key_sends(1)]
  linked_query [OF stable_no_key no_key_sends(2,3)]

lemma close_gate:
  "triple no_key_yet (map_err_io g remove_allow_pair) (\<lambda>_ w. gone ALLOW_PAIR_PATH w \<and> \<not> key_sent w) (\<lambda>w. \<not> key_sent w)"
proof -
  have wire: "triple (\<lambda>w. \<not> key_sent w) (fs_remove_file p) (\<lambda>_ w. \<not> key_sent w) (\<lambda>w. \<not> key_sent w)" for p
    unfolding fs_remove_file_def
    by (rule triple_atomic) (auto simp: stable_def key_sent_def step_world_def keeps_triple [symmetric]
        keeps_def set_fs_def split: option.split node.split)
  have "triple (\<lambda>w. \<not> key_sent w) remove_allow_pair (\<lambda>_ w. \<not> key_sent w) (\<lambda>w. \<not> key_sent w)"
    unfolding remove_allow_pair_def remove_if_there_def
    by (rule triple_match [OF wire]) (auto intro: triple_return triple_fail)
  from triple_conj [OF remove_removes this [unfolded remove_allow_pair_def]] show ?thesis
    unfolding remove_allow_pair_def
    by (intro triple_map_err) (rule triple_conseq, assumption, auto simp: no_key_yet_def gate_private_def)
qed

text \<open>
  Claim C8. The opt-in marker is gone before the key is sent: whatever fails, and wherever the process
  dies, if the command that carries the key was handed to the port at all, then the run reached a
  state in which the marker was gone from the disk and nothing of the key was out, and did the rest
  from there. Without the marker nothing is sent and the flow fails.
\<close>

theorem gate_closed_before_key:
  assumes "gate_private (w_env w)" "quiet_services (p_keys E)" "\<not> key_sent w"
    and "run_pair E po seal pcrs w = (r, w')"
  shows "(key_sent w' \<longrightarrow> (\<exists>key rx v. gone ALLOW_PAIR_PATH v \<and> \<not> key_sent v
        \<and> w' = snd (snd (pair_finish E seal pcrs key (rx, v)))))
    \<and> (w_fs w ALLOW_PAIR_PATH = None \<longrightarrow> \<not> is_ok r \<and> w_wire w' = w_wire w)"
proof
  let ?E = "\<lambda>v. key_sent v \<longrightarrow> (\<exists>key rx u. gone ALLOW_PAIR_PATH u \<and> \<not> key_sent u
        \<and> v = snd (snd (pair_finish E seal pcrs key (rx, u))))"
  have early: "triple (linked no_key_yet) m (\<lambda>_. linked no_key_yet) (linked ?E)"
    if "triple (linked no_key_yet) m (\<lambda>_. linked no_key_yet) (linked no_key_yet)" for m :: "'b link_io"
    by (rule triple_conseq [OF that]) (auto simp: no_key_yet_def)
  have fail: "triple (linked no_key_yet) (fail_io e) Q (linked ?E)" for e and Q :: "unit \<Rightarrow> link \<times> world \<Rightarrow> bool"
    by (rule triple_fail) (auto simp: no_key_yet_def)
  have gate: "triple (linked no_key_yet) (on_world (map_err_io g remove_allow_pair))
      (\<lambda>_ (rx, v). gone ALLOW_PAIR_PATH v \<and> \<not> key_sent v) (linked ?E)" for g
    by (rule triple_on_world, rule triple_conseq [OF close_gate]) auto
  have rest: "triple (\<lambda>(rx, v). gone ALLOW_PAIR_PATH v \<and> \<not> key_sent v) (pair_finish E seal pcrs key)
      (\<lambda>_. linked ?E) (linked ?E)" for key
  proof (rule tripleI, goal_cases)
    case (1 s)
    obtain rx v where s: "s = (rx, v)" by (cases s)
    obtain r1 rx1 v1 where f: "pair_finish E seal pcrs key (rx, v) = (r1, rx1, v1)"
      by (cases "pair_finish E seal pcrs key (rx, v)")
    then have "v1 = snd (snd (pair_finish E seal pcrs key (rx, v)))" by simp
    with 1 have "?E v1" unfolding s by blast
    with f show ?case unfolding s by (cases r1) simp_all
  qed
  have gen: "quiet (map_err_io (Context ''generating 128-bit key'') (generate_key (p_keys E)))"
    using assms(2) by (simp add: generate_key_def quiet_services_def quiet_map_err)
  have flow: "triple no_key_yet (link_run (bind_io link_open (\<lambda>_. bind_io query_status (\<lambda>pre.
       if st_paired pre then fail_io (Msg ''Nano already paired'')
       else bind_io (on_world (map_err_io (Context ''generating 128-bit key'') (generate_key (p_keys E)))) (\<lambda>key.
       bind_io (on_world (map_err_io (Context ''closing allow-pair gate before sending key'') remove_allow_pair)) (\<lambda>_.
       pair_finish E seal pcrs key)))))) (\<lambda>_. ?E) ?E"
    by (rule triple_link_run, rule triple_bind [OF early [OF no_key_link(1)]],
        rule triple_bind [OF early [OF no_key_link(2)]])
      (simp add: fail triple_bind [OF early [OF quiet_link [OF gen stable_no_key]] triple_bind [OF gate rest]])
  have step: "triple no_key_yet (bind_io m f) (\<lambda>_. ?E) ?E"
    if "quiet m" "\<And>x. triple no_key_yet (f x) (\<lambda>_. ?E) ?E" for m :: "'b any_io" and f :: "'b \<Rightarrow> unit any_io"
    by (rule triple_bind [OF triple_conseq [OF quietD [OF that(1) stable_no_key]] that(2)]) (auto simp: no_key_yet_def)
  have stop: "triple no_key_yet (fail_io e) (\<lambda>_. ?E) ?E" for e :: any_error
    by (rule triple_fail) (simp add: no_key_yet_def)
  have probes: "quiet (if seal then device_present else return_io True)" "quiet allow_pair_present"
    by (simp_all add: device_present_def allow_pair_present_def quiet_rules)
  have "triple no_key_yet (run_pair E po seal pcrs) (\<lambda>_. ?E) ?E"
    unfolding run_pair_def by (rule step triple_if stop flow probes quiet_locate)+
  from tripleD [OF this _ assms(4)] assms(1,3) show "?E w'"
    by (cases r) (auto simp: no_key_yet_def)
next
  show "w_fs w ALLOW_PAIR_PATH = None \<longrightarrow> \<not> is_ok r \<and> w_wire w' = w_wire w"
  proof
    assume none: "w_fs w ALLOW_PAIR_PATH = None"
    obtain r1 :: "(bool, any_error) result" and w1 where a: "allow_pair_present w = (r1, w1)" by fastforce
    have "r1 \<noteq> Ok True \<and> (\<forall>e. r1 \<noteq> Err e) \<and> w_wire w1 = w_wire w"
      using a none assms(1) follow_plain [of "w_fs (step_world 0 w)" ALLOW_PAIR_PATH]
      by (auto simp: allow_pair_present_def fs_exists_def match_io_def atomic_call_def syscall_def Let_def
          return_io_def gate_private_def untouched_def split: option.splits fault.splits result.splits)
    with a assms(4) show "\<not> is_ok r \<and> w_wire w' = w_wire w"
      by (cases r1) (auto simp: run_pair_def bind_io_def fail_io_def)
  qed
qed

section \<open>Unpairing erases the key\<close>

lemma state_delete_removes: "state_delete = remove_if_there ''removing'' STATE_PATH"
  by (simp add: state_delete_def remove_if_there_def)

definition unpair_private :: "env \<Rightarrow> bool" where
  "unpair_private e \<longleftrightarrow> keys_private e \<and> untouched STATE_PATH e"

lemma env_sends [simp]: "sends_ok (\<lambda>w. X (w_env w)) bs"
  by (simp add: sends_ok_def)

lemma env_link:
  "triple (linked (\<lambda>w. X (w_env w))) link_open (\<lambda>_. linked (\<lambda>w. X (w_env w))) (linked (\<lambda>w. X (w_env w)))"
  "triple (linked (\<lambda>w. X (w_env w))) query_status (\<lambda>_. linked (\<lambda>w. X (w_env w))) (linked (\<lambda>w. X (w_env w)))"
  by (rule linked_open linked_query; rule stable_env env_sends)+

lemma delete_key_env: "triple (\<lambda>w. X (w_env w)) (delete_key_files ps) (\<lambda>_ w. X (w_env w)) (\<lambda>w. X (w_env w))"
  by (induction ps) (auto intro!: triple_return keeps_bind triple_ignore file_calls_env shred_env remove_env)

lemma delete_all_env: "triple (\<lambda>w. X (w_env w)) delete_all_keys (\<lambda>_ w. X (w_env w)) (\<lambda>w. X (w_env w))"
  unfolding delete_all_keys_def delete_key_def delete_sealed_key_def
  by (intro keeps_bind delete_key_env remove_env)

lemma linked_cmd_env:
  "triple (linked (\<lambda>w. X (w_env w))) (cmd_labeled c label t) (\<lambda>_. linked (\<lambda>w. X (w_env w))) (linked (\<lambda>w. X (w_env w)))"
  by (rule linked_cmd) simp_all

lemma unpair_send_env:
  "triple (linked (\<lambda>w. X (w_env w))) (unpair_send E key c) (\<lambda>_. linked (\<lambda>w. X (w_env w))) (linked (\<lambda>w. X (w_env w)))"
  unfolding unpair_send_def
  by (auto intro!: keeps_bind linked_cmd_env triple_if triple_fail triple_return triple_map_err triple_result)

definition all_gone :: "world \<Rightarrow> bool" where
  "all_gone w \<longleftrightarrow> (\<forall>p \<in> {KEY_PATH, KEY_BAK_PATH, KEY_TPM_PATH, STATE_PATH}. w_fs w p = None)"

lemma wipe:
  "triple (\<lambda>w. unpair_private (w_env w))
     (bind_io (map_err_io g1 delete_all_keys) (\<lambda>_. bind_io (map_err_io g2 state_delete) (\<lambda>_. return_io x)))
     (\<lambda>_. all_gone) (\<lambda>_. True)"
proof -
  let ?G = "\<lambda>w. \<forall>p \<in> {KEY_PATH, KEY_BAK_PATH, KEY_TPM_PATH}. gone p w"
  have keys: "triple (\<lambda>w. unpair_private (w_env w)) delete_all_keys (\<lambda>_ w. ?G w \<and> unpair_private (w_env w)) (\<lambda>_. True)"
    by (rule triple_conseq [OF triple_conj [OF delete_all_triple delete_all_env [of unpair_private]]])
      (auto simp: unpair_private_def)
  have still: "triple ?G (remove_if_there msg STATE_PATH) (\<lambda>_. ?G) ?G" for msg
    by (rule triple_conseq [OF triple_conj [OF gone_remove [of KEY_PATH]
          triple_conj [OF gone_remove [of KEY_BAK_PATH] gone_remove [of KEY_TPM_PATH]]]]) auto
  have "triple (\<lambda>w. ?G w \<and> unpair_private (w_env w)) state_delete (\<lambda>_. all_gone) (\<lambda>_. True)"
    unfolding state_delete_removes
    by (rule triple_conseq [OF triple_conj [OF still remove_removes [of STATE_PATH]]])
      (auto simp: unpair_private_def keys_private_def all_gone_def gone_def)
  then show ?thesis
    by (intro triple_bind [OF triple_map_err [OF keys]] triple_bind [OF triple_map_err] triple_return)
qed

text \<open>
  Claim C21. Unpairing that reports the key and state files removed has removed them: the live key, its
  copy, the sealed key and the counter file are all gone, whatever of the shredding failed.
\<close>

theorem unpair_erases:
  assumes "unpair_private (w_env w)" "quiet_services (p_keys E)" "run_unpair E po w = (Ok (Unpaired st), w')"
  shows "all_gone w'"
proof -
  let ?X = "\<lambda>w. unpair_private (w_env w)"
  let ?Q = "\<lambda>x w. \<forall>st. x = Unpaired st \<longrightarrow> all_gone w"
  have quietly: "triple ?X (bind_io m f) ?Q (\<lambda>_. True)" if "quiet m" "\<And>x. triple ?X (f x) ?Q (\<lambda>_. True)"
    for m :: "'b any_io" and f
    by (rule triple_bind [OF triple_conseq [OF quietD [OF that(1) stable_env [of unpair_private]]] that(2)]) auto
  have step: "triple (linked ?X) (bind_io m f) (\<lambda>x. linked (?Q x)) (linked (\<lambda>_. True))"
    if "triple (linked ?X) m (\<lambda>_. linked ?X) (linked ?X)" "\<And>x. triple (linked ?X) (f x) (\<lambda>x. linked (?Q x)) (linked (\<lambda>_. True))"
    for m :: "'b link_io" and f
    by (rule triple_bind [OF triple_conseq [OF that(1)] that(2)]) auto
  have stop: "triple ?X (fail_io e) ?Q (\<lambda>_. True)" "triple (linked ?X) (fail_io e) (\<lambda>x. linked (?Q x)) (linked (\<lambda>_. True))"
    for e :: any_error
    by (auto intro: triple_fail)
  note env = env_link(1) [where X = unpair_private] env_link(2) [where X = unpair_private]
    unpair_send_env [where X = unpair_private]
  have del: "triple (linked ?X) (on_world (ignore_io delete_key)) (\<lambda>_. linked ?X) (linked ?X)"
    unfolding delete_key_def by (intro linked_world triple_ignore delete_key_env)
  have already: "triple (linked ?X) (return_io Already_unpaired) (\<lambda>x. linked (?Q x)) (linked (\<lambda>_. True))"
    by (rule triple_return) auto
  have load: "triple (linked ?X) (on_world (map_err_io g (state_load J))) (\<lambda>_. linked ?X) (linked ?X)" for g J
    by (intro linked_world triple_map_err state_load_keeps stable_env)
  have save: "triple (linked ?X) (on_world (map_err_io g (state_save J s))) (\<lambda>_. linked ?X) (linked ?X)" for g J s
    by (intro linked_world triple_map_err state_save_env)
  have erase: "triple (linked ?X)
     (bind_io (on_world (map_err_io g1 delete_all_keys)) (\<lambda>_. bind_io (on_world (map_err_io g2 state_delete)) (\<lambda>_. return_io x)))
     (\<lambda>x. linked (?Q x)) (linked (\<lambda>_. True))" for g1 g2 :: "any_error \<Rightarrow> any_error" and x
  proof -
    have "bind_io (on_world (map_err_io g1 delete_all_keys)) (\<lambda>_. bind_io (on_world (map_err_io g2 state_delete)) (\<lambda>_. return_io x))
        = (on_world (bind_io (map_err_io g1 delete_all_keys) (\<lambda>_. bind_io (map_err_io g2 state_delete) (\<lambda>_. return_io x))) :: unpair_outcome link_io)"
      by (auto simp: fun_eq_iff bind_io_def on_world_def return_io_def split: prod.splits result.splits)
    moreover have "triple (linked ?X) (on_world (bind_io (map_err_io g1 delete_all_keys) (\<lambda>_. bind_io (map_err_io g2 state_delete) (\<lambda>_. return_io x))))
       (\<lambda>x. linked (?Q x)) (linked (\<lambda>_. True))"
      by (rule triple_on_world, rule triple_conseq [OF wipe]) auto
    ultimately show ?thesis by simp
  qed
  have "triple ?X (run_unpair E po) ?Q (\<lambda>_. True)"
    unfolding run_unpair_def
  proof (rule quietly [OF quiet_map_err [OF quiet_load_key_with_source [OF assms(2)]]], goal_cases)
    case (1 loaded)
    show ?case
    proof (cases loaded)
      case (Some ks)
      show ?thesis
        unfolding Some option.case prod.case_eq_if
        by (rule quietly [OF quiet_locate] triple_link_run env triple_if stop del already load save erase step
          | simp only: Let_def)+
    qed (auto intro: triple_fail)
  qed
  from tripleD [OF this assms(1,3)] show ?thesis by simp
qed

end
