(* ===== verification/Pairing_Counter.thy ===== *)
theory Pairing_Counter
  imports Pairing_Safety Sensor_Actor
begin

text \<open>
  The counter of the framed commands, in the one-shot commands that use or repair it: \<open>run_unpair\<close>
  saves the next one before it sends, and \<open>run_resync\<close> writes one below the reserved band or nothing.
\<close>

section \<open>The counter of the framed command\<close>

text \<open>What the wire shows of the counters, whatever becomes of the files.\<close>

definition wire_ok :: "world \<Rightarrow> bool" where
  "wire_ok w \<longleftrightarrow> sorted_wrt (<) (frame_counters (w_wire w)) \<and> (\<forall>c \<in> set (frame_counters (w_wire w)). c < COUNTER_CEILING)"

lemma stable_wire_ok: "stable wire_ok"
  by (simp add: stable_def wire_ok_def step_world_def)

lemma stable_steady: "stable (steady_world L)"
  by (auto simp: stable_def steady_world_def world_inv_def st_pred_def private_env_def step_world_def)

lemma steady_wire: "steady_world L w \<Longrightarrow> wire_ok w"
  by (auto simp: steady_world_def world_inv_def st_pred_def counters_ok_def wire_ok_def)

lemma plain_bytes:
  "frame_counter (as_bytes ''ping'' @ [10]) = None" "frame_counter (as_bytes ''status'') = None"
proof -
  have "\<not> starts_with (of_bytes (as_bytes ''ping'' @ [10])) ''C ''" "\<not> starts_with (of_bytes (as_bytes ''status'')) ''C ''"
    by code_simp+
  then show "frame_counter (as_bytes ''ping'' @ [10]) = None" "frame_counter (as_bytes ''status'') = None"
    by (simp_all add: frame_counter_plain)
qed

lemma plain_sends:
  "frame_counter bs = None \<Longrightarrow> sends_ok (steady_world L) bs"
  "frame_counter bs = None \<Longrightarrow> sends_ok wire_ok bs"
  by (auto simp: sends_ok_def steady_world_def world_inv_def st_pred_def counters_ok_def wire_ok_def
      frame_counters_append)

lemma steady_link:
  "triple (linked (steady_world L)) link_open (\<lambda>_. linked (steady_world L)) (linked (steady_world L))"
  "triple (linked (steady_world L)) query_status (\<lambda>_. linked (steady_world L)) (linked (steady_world L))"
  "triple (linked wire_ok) query_status (\<lambda>_. linked wire_ok) (linked wire_ok)"
  by (intro linked_open linked_query stable_steady stable_wire_ok plain_sends plain_bytes frame_counter_newline)+

text \<open>Calls on files leave the wire alone.\<close>

lemma stable_wire: "stable (\<lambda>w. w_wire w = W)"
  by (simp add: stable_def step_world_def)

lemma wire_file_calls:
  "triple (\<lambda>w. w_wire w = W) (fs_set_permissions p m) (\<lambda>_ w. w_wire w = W) (\<lambda>w. w_wire w = W)"
  "triple (\<lambda>w. w_wire w = W) (fs_open_write p) (\<lambda>_ w. w_wire w = W) (\<lambda>w. w_wire w = W)"
  "triple (\<lambda>w. w_wire w = W) (fs_remove_file p) (\<lambda>_ w. w_wire w = W) (\<lambda>w. w_wire w = W)"
  "triple (\<lambda>w. w_wire w = W) (fs_write_all h bs) (\<lambda>_ w. w_wire w = W) (\<lambda>w. w_wire w = W)"
proof -
  have at: "w_wire (write_at q off cs w) = w_wire w" for q off cs w
    by (simp add: write_at_def set_fs_def split: option.split node.split)
  show "triple (\<lambda>w. w_wire w = W) (fs_set_permissions p m) (\<lambda>_ w. w_wire w = W) (\<lambda>w. w_wire w = W)"
    unfolding fs_set_permissions_def
    by (rule triple_atomic [OF stable_wire], rule tripleI) (simp add: set_fs_def split: result.split option.split)
  show "triple (\<lambda>w. w_wire w = W) (fs_open_write p) (\<lambda>_ w. w_wire w = W) (\<lambda>w. w_wire w = W)"
    unfolding fs_open_write_def by (rule keeps_look [OF stable_wire]) simp
  show "triple (\<lambda>w. w_wire w = W) (fs_remove_file p) (\<lambda>_ w. w_wire w = W) (\<lambda>w. w_wire w = W)"
    unfolding fs_remove_file_def
    by (rule triple_atomic [OF stable_wire], rule tripleI) (simp add: set_fs_def split: option.split node.split)
  show "triple (\<lambda>w. w_wire w = W) (fs_write_all h bs) (\<lambda>_ w. w_wire w = W) (\<lambda>w. w_wire w = W)"
    unfolding fs_write_all_def
    by (rule triple_syscall [OF stable_wire]) (auto simp: at intro!: tripleI)
qed

lemma wire_remove: "triple (\<lambda>w. w_wire w = W) (remove_if_there msg p) (\<lambda>_ w. w_wire w = W) (\<lambda>w. w_wire w = W)"
  unfolding remove_if_there_def by (rule triple_match [OF wire_file_calls(3)]) (auto intro: triple_return triple_fail)

lemma wire_delete: "triple (\<lambda>w. w_wire w = W) (delete_key_files ps) (\<lambda>_ w. w_wire w = W) (\<lambda>w. w_wire w = W)"
proof (induction ps)
  case (Cons p ps)
  have "triple (\<lambda>w. w_wire w = W) (shred_file p) (\<lambda>_ w. w_wire w = W) (\<lambda>w. w_wire w = W)"
    unfolding shred_file_def
    by (rule triple_match [OF wire_file_calls(2)])
      (auto intro!: keeps_bind wire_file_calls keeps_sync_all stable_wire triple_return triple_fail)
  then show ?case
    unfolding delete_key_files.simps by (intro keeps_bind triple_ignore wire_file_calls wire_remove Cons)
qed (simp add: triple_return)

lemma wire_ok_of: "(\<And>W. triple (\<lambda>w. w_wire w = W) m (\<lambda>_ w. w_wire w = W) (\<lambda>w. w_wire w = W)) \<Longrightarrow>
    triple wire_ok m (\<lambda>_. wire_ok) wire_ok"
  unfolding keeps_triple [symmetric] keeps_def wire_ok_def by metis

lemma wire_deletes:
  "triple wire_ok delete_key (\<lambda>_. wire_ok) wire_ok"
  "triple wire_ok delete_all_keys (\<lambda>_. wire_ok) wire_ok"
  "triple wire_ok state_delete (\<lambda>_. wire_ok) wire_ok"
  unfolding delete_all_keys_def delete_key_def delete_sealed_key_def state_delete_removes
  by (rule wire_ok_of; intro keeps_bind wire_delete wire_remove)+

text \<open>What is loaded is above what was sent; once the next counter is saved, the frame may go.\<close>

definition below :: "u64 \<Rightarrow> world \<Rightarrow> bool" where
  "below n w \<longleftrightarrow> (\<forall>c \<in> set (frame_counters (w_wire w)). c < n)"

definition primed :: "libs \<Rightarrow> u64 \<Rightarrow> world \<Rightarrow> bool" where
  "primed L n = st_pred file_secure (\<lambda>a wr. file_secure a
     \<and> node_counter (state_json L) a = Some (n + 1) \<and> counters_ok L (Some n) a wr)"

definition counter_of :: "state option \<Rightarrow> u64" where
  "counter_of st = next_cmd_counter (case st of Some s \<Rightarrow> s | None \<Rightarrow> state_fresh)"

lemma load_below:
  "triple (steady_world L) (state_load (state_json L)) (\<lambda>st w. steady_world L w \<and> below (counter_of st) w) wire_ok"
proof (rule tripleI)
  fix w assume s: "steady_world L w"
  obtain r w1 where l: "state_load (state_json L) w = (r, w1)" by (cases "state_load (state_json L) w")
  have "stable (\<lambda>v. steady_world L v \<and> w_wire v = w_wire w)"
    by (intro stable_conj stable_steady stable_wire)
  from tripleD [OF state_load_keeps [OF this] _ l] s
  have k: "steady_world L w1" "w_wire w1 = w_wire w" by (cases r; simp)+
  have "below (counter_of st) w1" if "r = Ok st" for st
    using loaded_counter [of L w] s l k(2) that
    by (fastforce simp: steady_world_def below_def counter_of_def)
  with k(1) show "post (\<lambda>st w. steady_world L w \<and> below (counter_of st) w) wire_ok
      (fst (state_load (state_json L) w)) (snd (state_load (state_json L) w))"
    by (cases r) (auto simp: l steady_wire)
qed

lemma save_primes:
  assumes "n < COUNTER_CEILING"
  shows "triple (\<lambda>w. steady_world L w \<and> below n w) (state_save (state_json L) \<lparr>next_cmd_counter = n + 1\<rparr>)
    (\<lambda>_. primed L n) wire_ok"
proof (rule triple_cases)
  fix w0 assume s: "steady_world L w0 \<and> below n w0"
  then have J: "json_law (state_json L)" and st: "st_pred file_secure (counters_ok L None) w0"
    by (auto simp: steady_world_def world_inv_def)
  have ok: "sorted_wrt (<) (frame_counters (w_wire w0))" "\<forall>c \<in> set (frame_counters (w_wire w0)). c < COUNTER_CEILING \<and> c < n"
    using s st by (auto simp: st_pred_def counters_ok_def below_def)
  have up: "n < n + 1" by (rule counter_less_Suc [OF assms])
  show "triple (\<lambda>w. w = w0) (state_save (state_json L) \<lparr>next_cmd_counter = n + 1\<rparr>) (\<lambda>_. primed L n) wire_ok"
  proof (rule triple_conseq [OF state_save_triple [OF J, of "w_fs w0 STATE_PATH" "w_wire w0"]])
    show "st_pred file_secure (\<lambda>a wr. a = w_fs w0 STATE_PATH \<and> wr = w_wire w0) w" if "w = w0" for w
      using that st by (simp add: st_pred_def)
    show "primed L n w" if "st_pred file_secure (\<lambda>a wr. (\<exists>d. mode_600 d a \<and> from_slice (state_json L) d = Some \<lparr>next_cmd_counter = n + 1\<rparr>)
        \<and> wr = w_wire w0) w" for w
      using that ok up
      by (auto simp: primed_def st_pred_def counters_ok_def node_counter_def mode_600_def file_secure_def
          intro: less_trans)
    show "wire_ok w" if "st_pred file_secure (\<lambda>a wr. a = w_fs w0 STATE_PATH \<and> wr = w_wire w0) w" for w
      using that ok by (auto simp: wire_ok_def st_pred_def)
  qed
qed

lemma primed_wire: "primed L n w \<Longrightarrow> wire_ok w"
  by (auto simp: primed_def st_pred_def counters_ok_def wire_ok_def)

lemma unpair_send_wire:
  assumes "n < COUNTER_CEILING"
  shows "triple (linked (primed L n)) (unpair_send E key n) (\<lambda>_. linked wire_ok) (linked wire_ok)"
proof -
  have st: "stable (primed L n)" by (simp add: primed_def)
  have u: "utf8_valid ''unpair''" by (rule ascii_utf8_valid) (simp add: is_ascii_def ord_def)
  have send: "wire_ok (w\<lparr>w_wire := w_wire w @ [(as_bytes (encode_command key n ''unpair''), m)]\<rparr>)"
    if "primed L n w" for w m
  proof -
    have "counters_ok L (Some (n + 1)) (w_fs w STATE_PATH) (w_wire w @ [(as_bytes (encode_command key n ''unpair''), m)])"
      using that assms frame_counter_encode [OF u, of key n]
      by (intro counters_ok_send) (auto simp: primed_def st_pred_def)
    then show ?thesis by (auto simp: wire_ok_def counters_ok_def)
  qed
  have cmd: "triple (linked (primed L n)) (cmd_labeled (encode_command key n ''unpair'') ''unpair'' t)
      (\<lambda>_. linked wire_ok) (linked wire_ok)" for t
    by (rule linked_cmd [OF st stable_wire_ok primed_wire plain_sends(2) send]) simp_all
  show ?thesis
    unfolding unpair_send_def
    by (rule triple_bind [OF cmd])
      (auto intro!: triple_if keeps_bind triple_fail triple_return triple_map_err triple_result)
qed


section \<open>Recovering the counter\<close>

lemma state_file_sends: "sends_ok (st_pred T (\<lambda>a wr. a = A)) bs"
  by (simp add: sends_ok_def st_pred_def)

lemma resync_target_bounds:
  assumes "resync_target n = Ok c"
  shows "unat c = unat n + 1 \<and> c < COUNTER_CEILING"
proof -
  have lt: "n < COUNTER_CEILING - 1" and c: "c = n + 1"
    using assms by (auto simp: resync_target_def not_le split: if_splits)
  have u: "unat n < unat (COUNTER_CEILING - 1)" using lt by (simp add: word_less_nat_alt)
  have k: "unat (COUNTER_CEILING - 1) = 18446744073709486079" "unat COUNTER_CEILING = 18446744073709486080"
    by (simp_all add: COUNTER_CEILING_def)
  have "unat (n + 1) = unat n + 1" using u k(1) by (simp add: unat_word_ariths)
  then show ?thesis using u k c by (simp add: word_less_nat_alt)
qed


end
