(* ===== verification/Pairing_Reseal.thy ===== *)
theory Pairing_Reseal
  imports Pairing_Safety
begin

text \<open>
  Sealing the key again, \<open>run_reseal_policy\<close>: the sealed file is replaced only by a blob that the TPM
  has already unsealed to the loaded key.
\<close>

section \<open>Sealing again never loses the key\<close>

text \<open>
  A blob the TPM unsealed to the loaded key: \<open>run_reseal_policy\<close> writes no other.
\<close>

definition verified_blob :: "pair_env \<Rightarrow> u8 list \<Rightarrow> bool" where
  "verified_blob E blob \<longleftrightarrow> (\<exists>u u' key src v v' key'. load_key_with_source (p_keys E) u = (Ok (Some (key, src)), u')
     \<and> unseal (p_keys E) blob v = (Ok key', v') \<and> p_key_eq E key' key)"

definition sealed_dir_ok :: "world \<Rightarrow> bool" where
  "sealed_dir_ok w \<longleftrightarrow> rf_pred KEY_DIR KEY_TPM_TMP KEY_TPM_PATH file_secure (\<lambda>_ _. True) w
     \<and> plain_at KEY_PATH w \<and> plain_at KEY_BAK_PATH w"

lemma map_err_Ok: "map_err_io g m s0 = (Ok x, s1) \<Longrightarrow> m s0 = (Ok x, s1)"
  by (cases "m s0"; cases "fst (m s0)") (auto simp: map_err_io_def)


end
