(* ===== verification/Pair_Status.thy ===== *)
theory Pair_Status
  imports Pair_Link Sensor_Answers
begin

text \<open>
  The status line, from the firmware's side: what \<open>handleStatus\<close> prints is read back field by field.
\<close>

definition status_text :: "bool \<Rightarrow> u64 \<Rightarrow> u8 \<Rightarrow> str \<Rightarrow> str" where
  "status_text b c m v = ''OK paired='' @ (if b then ''true'' else ''false'') @ '' counter='' @ show_u64 c
     @ '' fmt='' @ show_nat (unat m) @ '' fw='' @ v"

lemma show_nat_token [simp]: "token (show_nat n)"
  using show_nat_digits [of n] by (auto simp: token_def list_all_iff is_ascii_digit_def)

lemma token_Cons: "33 \<le> ord c \<Longrightarrow> ord c < 127 \<Longrightarrow> t = [] \<or> token t \<Longrightarrow> token (c # t)"
  by (auto simp: token_def)

lemma split_one_token: "token t \<Longrightarrow> list_all is_ascii s \<Longrightarrow> split_whitespace (t @ CHR '' '' # s) = t # split_whitespace s"
  using split_ws_token [of t "[]" "[CHR '' ''] # map (\<lambda>c. [c]) s"] token_ascii [of t]
  by (simp add: split_whitespace_def ascii_utf8_chars is_ascii_def ord_def token_def)

lemma split_last_token: "token t \<Longrightarrow> split_whitespace t = [t]"
  using split_ws_token [of t "[]" "[]"] token_ascii [of t]
  by (simp add: split_whitespace_def ascii_utf8_chars token_def)

lemma split_four_tokens:
  assumes "token t1" "token t2" "token t3" "token t4"
  shows "split_whitespace (t1 @ CHR '' '' # t2 @ CHR '' '' # t3 @ CHR '' '' # t4) = [t1, t2, t3, t4]"
  using assms by (simp add: split_one_token split_last_token token_ascii is_ascii_def ord_def)

lemma status_tokens:
  assumes "token v"
  shows "split_whitespace (drop 3 (status_text b c m v))
    = [''paired='' @ (if b then ''true'' else ''false''), ''counter='' @ show_u64 c, ''fmt='' @ show_nat (unat m), ''fw='' @ v]"
proof -
  have t: "token (''paired='' @ (if b then ''true'' else ''false''))" "token (''counter='' @ show_u64 c)"
    "token (''fmt='' @ show_nat (unat m))" "token (''fw='' @ v)"
    using assms by (auto simp: show_u64_def ord_def intro!: token_Cons)
  have eq: "drop 3 (status_text b c m v) = (''paired='' @ (if b then ''true'' else ''false'')) @ CHR '' ''
    # (''counter='' @ show_u64 c) @ CHR '' '' # (''fmt='' @ show_nat (unat m)) @ CHR '' '' # ''fw='' @ v"
    by (simp add: status_text_def)
  show ?thesis unfolding eq by (rule split_four_tokens [OF t])
qed

lemma status_line_fields:
  assumes "token v"
  shows "parse_status (status_text b c m v) = Ok \<lparr>st_paired = b, st_counter = c, st_fmt = m, st_fw = v\<rparr>"
proof -
  have p: "strip_prefix (status_text b c m v) ''OK '' = Some (drop 3 (status_text b c m v))"
    by (simp add: status_text_def strip_prefix_def starts_with_def)
  have n: "parse_uint 64 (show_u64 c) = Some (unat c)" "parse_uint 8 (show_nat (unat m)) = Some (unat m)"
    using unat_lt_2p64 [of c] unat_lt_2p8 [of m] by (simp_all add: show_u64_def parse_uint_show_nat)
  show ?thesis
    unfolding parse_status_def p ok_or.simps bind_r.simps status_tokens [OF assms] Let_def
    by (simp add: status_token_def split_once_def n)
qed

text \<open>
  The status query reads what the firmware prints: the line \<open>handleStatus\<close> writes for a pairing
  state, a counter, a format and a version gives back exactly these, for every 64-bit counter.
\<close>

theorem status_line_parsed:
  assumes "token v"
  shows "parse_status (status_text b c m v) = Ok \<lparr>st_paired = b, st_counter = c, st_fmt = m, st_fw = v\<rparr>"
  by (rule status_line_fields [OF assms])

theorem status_line_parsed_witness:
  "parse_status ''OK paired=true counter=41 fmt=2 fw=1.1'' = Ok \<lparr>st_paired = True, st_counter = 41, st_fmt = 2, st_fw = ''1.1''\<rparr>"
proof -
  have "status_text True 41 2 ''1.1'' = ''OK paired=true counter=41 fmt=2 fw=1.1''"
    by (simp add: status_text_def show_u64_def show_nat.simps digit_char_def) code_simp
  then show ?thesis using status_line_parsed [of "''1.1''" True 41 2] by (simp add: token_def ord_def)
qed

end
