(* ===== verification/Pairing_Runs.thy ===== *)
theory Pairing_Runs
  imports Pairing_Counter Pairing_Reseal Pair_Status
begin

text \<open>
  The pairing commands against a simulated firmware, evaluated: the hypotheses of their properties hold
  in these runs. In \<open>calm R\<close> no call fails, nobody else touches a file, and \<open>R\<close> says what a read of
  the port delivers, by the number of the call.
\<close>

definition calm :: "(nat \<Rightarrow> (u8 list, io_error) result) \<Rightarrow> env" where
  "calm R = demo_env\<lparr>e_read := R\<rparr>"

definition later :: "nat \<Rightarrow> nat \<Rightarrow> world \<Rightarrow> world" where
  "later k d w = w\<lparr>w_tick := w_tick w + k, w_now := w_now w + d\<rparr>"

lemma calm_simps [simp]:
  "e_dur (calm R) = (\<lambda>_. 1)" "e_fault (calm R) = (\<lambda>_. None)" "e_other (calm R) = (\<lambda>_ fs. fs)"
  "e_read (calm R) = R" "e_umask (calm R) = 18"
  by (simp_all add: calm_def demo_env_def)

lemma later_simps [simp]:
  "w_env (later k d w) = w_env w" "w_fs (later k d w) = w_fs w" "w_wire (later k d w) = w_wire w"
  "w_tick (later k d w) = w_tick w + k" "w_now (later k d w) = w_now w + d"
  "later k d (later k' d' w) = later (k' + k) (d' + d) w"
  "(later k d w)\<lparr>w_wire := X\<rparr> = later k d (w\<lparr>w_wire := X\<rparr>)"
  by (simp_all add: later_def add.assoc)

lemma calm_step: "w_env w = calm R \<Longrightarrow> step_world n w = later 1 (n + 1) w"
  by (simp add: step_world_def later_def)

lemma calm_calls:
  assumes "w_env w = calm R"
  shows "port_call w = (Ok (), later 1 1 w)"
    "port_write_all bs w = (Ok (), later 1 1 (w\<lparr>w_wire := w_wire w @ [(bs, length bs)]\<rparr>))"
    "port_read w = (R (w_tick w), later 1 2 w)"
    "atomic_call full w = full (later 1 1 w)"
  using assms
  by (simp_all add: port_call_def port_write_all_def port_read_def atomic_call_def syscall_def calm_step
      Let_def return_io_def eval_nat_numeral)

lemmas io_simps = bind_io_def match_io_def ignore_io_def map_err_io_def return_io_def fail_io_def
  result_io_def with_context_def on_world_def get_io_def modify_io_def

text \<open>A line that the next read delivers.\<close>

lemma printable_line:
  assumes "printable l"
  shows "link_line (as_bytes l) = l"
proof (cases "l = []")
  case False
  then have l: "last (as_bytes l) = of_char (last l)" by (simp add: as_bytes_def last_map)
  have "32 \<le> ord (last l)" using assms last_in_set [OF False] by (auto simp: printable_def list_all_iff)
  then have "unat (of_char (last l) :: u8) \<noteq> unat (13 :: u8)" by (simp add: unat_of_char)
  with l have "last (as_bytes l) \<noteq> 13" by metis
  then show ?thesis by (simp add: link_line_def from_utf8_lossy_id printable_utf8 [OF assms])
qed (simp add: link_line_def as_bytes_def of_bytes_def from_utf8_lossy.simps)

lemma link_read_one:
  assumes "w_env w = calm R" "w_now w < d" "R (Suc (w_tick w)) = Ok (as_bytes l @ [10])"
    and "printable l" "length l < 256"
  shows "link_read d ([], w) = (Ok (Some l), [], later 2 3 w)"
proof -
  have "10 \<notin> set (as_bytes l)"
    by (intro newline_free_bytes printable_no_control assms) (simp add: ord_def)
  then have "position 10 (as_bytes l @ [10]) = Some (length l)"
    using position_first [of 10 "as_bytes l" "[]"] by simp
  then show ?thesis
    using assms
    by (simp add: link_read.simps port_poll_def io_simps calm_calls printable_line eval_nat_numeral)
qed

lemma link_open_answered:
  assumes "w_env w = calm R" "R (w_tick w + 5) = Ok (as_bytes ''OK pong'' @ [10])"
  shows "link_open (rx, w) = (Ok (), [], later 6 7 (w\<lparr>w_wire := w_wire w @ [(as_bytes ''ping'' @ [10], 5)]\<rparr>))"
proof -
  have five: "R (Suc (Suc (Suc (Suc (Suc (w_tick w)))))) = Ok (as_bytes ''OK pong'' @ [10])"
    using assms(2) by (simp add: eval_nat_numeral)
  have p: "printable ''OK pong''" by (simp add: printable_Cons ord_def)
  show ?thesis
    using assms(1) p five
    by (simp add: link_open_def clear_rx_def now_def link_sync.simps link_attempt_def link_port_def io_simps
        calm_calls pong_loop.simps link_read_line_def link_read_one [where l = "''OK pong''"] from_millis_def,
      simp add: eval_nat_numeral)
qed

lemma cmd_answered:
  assumes "w_env w = calm R" "R (w_tick w + 5) = Ok (as_bytes l @ [10])" "printable l" "length l < 256"
    and "l \<noteq> []" "\<not> starts_with l ''PROGRESS ''" "0 < t"
  shows "cmd_labeled c label t (rx, w) = (Ok l, [], later 6 7 (w\<lparr>w_wire := w_wire w @ [(as_bytes c, length c), ([10], 1)]\<rparr>))"
  using assms
  by (simp add: cmd_labeled_def clear_rx_def now_def link_port_def io_simps calm_calls reply_loop.simps
      link_read_line_def link_read_one [where l = l] eval_nat_numeral)

lemma query_answered:
  assumes "w_env w = calm R" "R (w_tick w + 5) = Ok (as_bytes l @ [10])" "printable l" "length l < 256"
    and "l \<noteq> []" "\<not> starts_with l ''PROGRESS ''" "parse_status l = Ok st"
  shows "query_status (rx, w) = (Ok st, [], later 6 7 (w\<lparr>w_wire := w_wire w @ [(as_bytes ''status'', 6), ([10], 1)]\<rparr>))"
  using assms by (simp add: query_status_def cmd_def cmd_answered io_simps from_millis_def) (simp add: eval_nat_numeral)

text \<open>The lines the firmware answers with.\<close>

definition status_line :: "bool \<Rightarrow> str" where
  "status_line b = status_text b 41 2 ''1.1''"

definition demo_status :: "bool \<Rightarrow> firmware_status" where
  "demo_status b = \<lparr>st_paired = b, st_counter = 41, st_fmt = 2, st_fw = ''1.1''\<rparr>"

lemma status_line_text:
  "status_line b = (if b then ''OK paired=true counter=41 fmt=2 fw=1.1'' else ''OK paired=false counter=41 fmt=2 fw=1.1'')"
  by (simp add: status_line_def status_text_def show_u64_def show_nat.simps digit_char_def) code_simp

lemma demo_lines:
  "printable (status_line b)" "length (status_line b) < 256" "status_line b \<noteq> []"
  "\<not> starts_with (status_line b) ''PROGRESS ''" "parse_status (status_line b) = Ok (demo_status b)"
proof -
  show "parse_status (status_line b) = Ok (demo_status b)"
    using status_line_fields [of "''1.1''" b 41 2] by (simp add: status_line_def demo_status_def token_def ord_def)
qed (simp_all add: status_line_text printable_Cons ord_def starts_with_def)

lemmas query_demo = query_answered [OF _ _ demo_lines]

definition demo_pair_env :: pair_env where
  "demo_pair_env = \<lparr>p_keys = demo_services, p_libs = demo_libs, p_key_eq = (=)\<rparr>"

lemma demo_keys: "p_keys demo_pair_env = demo_services" "get_random demo_services = return_io demo_key"
  by (simp_all add: demo_pair_env_def demo_services_def)

lemma demo_quiet: "quiet_services (p_keys demo_pair_env)"
  by (simp add: quiet_services_def demo_pair_env_def demo_services_def quiet_rules)

lemmas calm_files = calm_calls(4) fs_exists_def fs_metadata_def fs_symlink_metadata_def fs_read_def fs_create_dir_all_def
  fs_set_permissions_def fs_open_truncate_def fs_open_write_def fs_open_nofollow_def fs_write_all_def
  fs_sync_all_def fs_rename_def fs_remove_file_def follow_plain fs_lookup_def set_fs_def write_at_def
  syscall_def calm_step result_simps io_simps Let_def

section \<open>A pairing that succeeds\<close>

text \<open>Asking for the TPM first is one call more, and everything is one call later.\<close>

definition pairing_reads :: "bool \<Rightarrow> nat \<Rightarrow> (u8 list, io_error) result" where
  "pairing_reads seal n =
     (let t = (if seal then n - 1 else n)
      in if t = 6 then Ok (as_bytes ''OK pong'' @ [10])
      else if t = 12 then Ok (as_bytes (status_line False) @ [10])
      else if t = 19 then Ok (as_bytes ''OK paired'' @ [10])
      else if t = 25 then Ok (as_bytes (status_line True) @ [10])
      else Err (Io_error TimedOut []))"

definition pairing_world :: "bool \<Rightarrow> fs \<Rightarrow> world" where
  "pairing_world seal F = (demo_world (F(ALLOW_PAIR_PATH \<mapsto> File [] o600 0)))\<lparr>w_env := calm (pairing_reads seal)\<rparr>"

lemma pairing_world_simps [simp]:
  "w_env (pairing_world seal F) = calm (pairing_reads seal)" "w_tick (pairing_world seal F) = 0" "w_wire (pairing_world seal F) = []"
  "w_fs (pairing_world seal F) = F(ALLOW_PAIR_PATH \<mapsto> File [] o600 0)"
  by (simp_all add: pairing_world_def demo_world_def)

lemma keystore_paths [simp]:
  "KEY_TPM_PATH \<noteq> KEY_PATH" "KEY_PATH \<noteq> KEY_TPM_PATH" "KEY_BAK_PATH \<noteq> KEY_PATH" "KEY_PATH \<noteq> KEY_BAK_PATH"
  "KEY_TPM_PATH \<noteq> KEY_BAK_PATH" "KEY_BAK_PATH \<noteq> KEY_TPM_PATH"
  by (simp_all add: KEY_TPM_PATH_def KEY_PATH_def KEY_BAK_PATH_def)

lemma unpaths:
  "STATE_DIR \<noteq> STATE_PATH" "STATE_DIR \<noteq> KEY_TPM_PATH" "STATE_DIR \<noteq> STATE_TMP" "STATE_PATH \<noteq> STATE_TMP"
  "STATE_PATH \<noteq> KEY_TPM_PATH" "STATE_TMP \<noteq> KEY_TPM_PATH" "STATE_PATH \<noteq> KEY_PATH" "STATE_PATH \<noteq> KEY_BAK_PATH"
  "STATE_DIR \<noteq> KEY_PATH" "STATE_DIR \<noteq> KEY_BAK_PATH" "STATE_TMP \<noteq> KEY_PATH" "STATE_TMP \<noteq> KEY_BAK_PATH"
  by (simp_all add: STATE_DIR_def STATE_PATH_def STATE_TMP_def KEY_TPM_PATH_def KEY_PATH_def KEY_BAK_PATH_def)

lemmas sep = unpaths unpaths [symmetric] keystore_paths

lemma pair_send_answered:
  assumes "w_env w = calm (pairing_reads seal)" "w_tick w = (if seal then 15 else 14)"
  shows "pair_send key (rx, w) = (Ok (), [], later 12 14 (w\<lparr>w_wire := w_wire w
    @ [(as_bytes (''pair '' @ key_hex key), length (''pair '' @ key_hex key)), ([10], 1), (as_bytes ''status'', 6), ([10], 1)]\<rparr>))"
proof -
  have a: "cmd_labeled c label (from_millis 2000) (rx, w)
      = (Ok ''OK paired'', [], later 6 7 (w\<lparr>w_wire := w_wire w @ [(as_bytes c, length c), ([10], 1)]\<rparr>))" for c label
    by (rule cmd_answered [where R = "pairing_reads seal"]) (simp_all add: assms pairing_reads_def Let_def printable_Cons ord_def starts_with_def from_millis_def)
  have b: "query_status (rx', v) = (Ok (demo_status True), [], later 6 7 (v\<lparr>w_wire := w_wire v @ [(as_bytes ''status'', 6), ([10], 1)]\<rparr>))"
    if "w_env v = calm (pairing_reads seal)" "w_tick v = (if seal then 21 else 20)" for rx' v
    by (rule query_demo [where R = "pairing_reads seal"]) (simp_all add: that pairing_reads_def Let_def)
  show ?thesis
    by (simp add: pair_send_def bind_io_def return_io_def a b assms) (simp add: demo_status_def return_io_def)
qed

lemma pairing_sends:
  assumes "seal \<Longrightarrow> \<exists>d m u. F TPM_DEVICE = Some (File d m u)"
  shows "\<exists>v. w_env v = calm (pairing_reads seal) \<and> w_fs v = F(ALLOW_PAIR_PATH := None) \<and> key_sent v
    \<and> run_pair demo_pair_env (Some po) seal pcrs (pairing_world seal F) = pair_store demo_pair_env seal pcrs demo_key v"
proof -
  define w0 where "w0 = later 1 1 (pairing_world seal F)"
  define w1 where "w1 = (if seal then later 1 1 w0 else w0)"
  have w1: "w_env w1 = calm (pairing_reads seal)" "w_tick w1 = (if seal then 2 else 1)" "w_fs w1 = w_fs (pairing_world seal F)"
    by (simp_all add: w1_def w0_def)
  have a: "allow_pair_present (pairing_world seal F) = (Ok True, w0)"
    by (simp add: allow_pair_present_def calm_files w0_def)
  have "TPM_DEVICE \<noteq> ALLOW_PAIR_PATH" by (simp add: TPM_DEVICE_def ALLOW_PAIR_PATH_def)
  then have t: "(if seal then device_present else return_io True) w0 = (Ok True, w1)"
    using assms by (auto simp: device_present_def calm_files w0_def w1_def)
  define w2 where "w2 = later 6 7 (w1\<lparr>w_wire := w_wire w1 @ [(as_bytes ''ping'' @ [10], 5)]\<rparr>)"
  have w2: "w_env w2 = calm (pairing_reads seal)" "w_tick w2 = (if seal then 8 else 7)" "w_fs w2 = w_fs w1" by (simp_all add: w1 w2_def)
  have b: "link_open ([], w1) = (Ok (), [], w2)"
    unfolding w2_def by (rule link_open_answered [where R = "pairing_reads seal"]) (simp_all add: w1 pairing_reads_def Let_def)
  define w3 where "w3 = later 6 7 (w2\<lparr>w_wire := w_wire w2 @ [(as_bytes ''status'', 6), ([10], 1)]\<rparr>)"
  have w3: "w_env w3 = calm (pairing_reads seal)" "w_tick w3 = (if seal then 14 else 13)" "w_fs w3 = w_fs w2" by (simp_all add: w2 w3_def)
  have c: "query_status ([], w2) = (Ok (demo_status False), [], w3)"
    unfolding w3_def by (rule query_demo [where R = "pairing_reads seal"]) (simp_all add: w2 pairing_reads_def Let_def)
  define w4 where "w4 = (later 1 1 w3)\<lparr>w_fs := F(ALLOW_PAIR_PATH := None)\<rparr>"
  have w4: "w_env w4 = calm (pairing_reads seal)" "w_tick w4 = (if seal then 15 else 14)" "w_fs w4 = F(ALLOW_PAIR_PATH := None)" by (simp_all add: w3 w4_def)
  have d: "remove_allow_pair w3 = (Ok (), w4)"
    by (simp add: remove_allow_pair_def remove_if_there_def calm_files w1 w2 w3 w4_def)
  define w5 where "w5 = later 12 14 (w4\<lparr>w_wire := w_wire w4
    @ [(as_bytes (''pair '' @ key_hex demo_key), length (''pair '' @ key_hex demo_key)), ([10], 1), (as_bytes ''status'', 6), ([10], 1)]\<rparr>)"
  have e: "pair_send demo_key ([], w4) = (Ok (), [], w5)"
    unfolding w5_def by (rule pair_send_answered [OF w4(1,2)])
  have "run_pair demo_pair_env (Some po) seal pcrs (pairing_world seal F) = pair_store demo_pair_env seal pcrs demo_key w5"
    unfolding run_pair_def locate_port_def option.case
    by (cases "pair_store demo_pair_env seal pcrs demo_key w5")
      (simp add: bind_io_def [of allow_pair_present] bind_io_def [of "if seal then device_present else return_io True"] a t, simp add: io_simps link_run_def b c d e pair_finish_def demo_status_def generate_key_def demo_keys)
  moreover have "key_sent w5" by (simp add: key_sent_def starts_with_def w5_def)
  moreover have "w_env w5 = calm (pairing_reads seal)" "w_fs w5 = F(ALLOW_PAIR_PATH := None)" by (simp_all add: w4 w5_def)
  ultimately show ?thesis by blast
qed

lemma store_paths:
  "KEY_DIR \<noteq> KEY_PATH" "KEY_DIR \<noteq> KEY_TMP" "KEY_DIR \<noteq> KEY_BAK_PATH" "KEY_TMP \<noteq> KEY_PATH" "KEY_TMP \<noteq> KEY_BAK_PATH"
  by (simp_all add: KEY_DIR_def KEY_PATH_def KEY_TMP_def KEY_BAK_PATH_def)

lemma key_saved:
  assumes "w_env v = calm R" "\<And>p. p \<in> {KEY_DIR, KEY_TMP, KEY_PATH, KEY_BAK_PATH} \<Longrightarrow> w_fs v p = None"
  shows "\<exists>u. save_key key v = (Ok (), u) \<and> w_wire u = w_wire v \<and> w_env u = w_env v \<and> w_fs u KEY_DIR = Some (Dir o700 0)
    \<and> (\<forall>p. p \<notin> {KEY_DIR, KEY_TMP, KEY_PATH, KEY_BAK_PATH} \<longrightarrow> w_fs u p = w_fs v p)"
proof -
  have m: "(384 :: u32) AND NOT 18 = 384" by code_simp
  show ?thesis
    using assms m store_paths store_paths [symmetric]
    by (simp add: save_key_def secure_key_dir_def fs_copy_def calm_files)
qed

lemma counter_saved:
  assumes "w_env v = calm R" "w_fs v STATE_DIR = Some (Dir m 0)" "w_fs v STATE_TMP = None" "w_fs v STATE_PATH = None"
  shows "\<exists>u. state_save demo_json st v = (Ok (), u) \<and> w_wire u = w_wire v \<and> w_env u = w_env v
    \<and> w_fs u KEY_TPM_PATH = w_fs v KEY_TPM_PATH"
proof -
  have m: "(384 :: u32) AND NOT 18 = 384" by code_simp
  show ?thesis
    using assms m sep
    by (simp add: state_save_def calm_files demo_json_def)
qed

lemma stored:
  assumes "w_env v = calm R" "\<And>p. p \<in> {KEY_DIR, KEY_TMP, KEY_PATH, KEY_BAK_PATH, STATE_TMP, STATE_PATH} \<Longrightarrow> w_fs v p = None"
  shows "\<exists>u. pair_store demo_pair_env False None key v = (Ok (), u) \<and> w_wire u = w_wire v \<and> w_env u = w_env v
    \<and> w_fs u KEY_TPM_PATH = w_fs v KEY_TPM_PATH"
proof -
  have n: "w_fs v p = None" if "p \<in> {KEY_DIR, KEY_TMP, KEY_PATH, KEY_BAK_PATH}" for p
    using that by (intro assms(2)) auto
  obtain u where u: "save_key key v = (Ok (), u)" "w_wire u = w_wire v" "w_env u = w_env v" "w_fs u KEY_DIR = Some (Dir o700 0)"
    "\<And>p. p \<notin> {KEY_DIR, KEY_TMP, KEY_PATH, KEY_BAK_PATH} \<Longrightarrow> w_fs u p = w_fs v p"
    using key_saved [OF assms(1) n, of key] by blast
  have "w_fs u STATE_DIR = Some (Dir o700 0)" using u(4) by (simp add: STATE_DIR_def KEY_DIR_def)
  moreover have "w_fs u STATE_TMP = None" "w_fs u STATE_PATH = None"
    by (subst u(5); simp add: assms(2); simp add: STATE_TMP_def STATE_PATH_def KEY_DIR_def KEY_TMP_def KEY_PATH_def KEY_BAK_PATH_def)+
  moreover have "w_fs u KEY_TPM_PATH = w_fs v KEY_TPM_PATH"
    by (rule u(5)) (simp add: KEY_TPM_PATH_def KEY_DIR_def KEY_TMP_def KEY_PATH_def KEY_BAK_PATH_def)
  ultimately obtain u' where "state_save demo_json state_fresh u = (Ok (), u')" "w_wire u' = w_wire u"
    "w_env u' = w_env u" "w_fs u' KEY_TPM_PATH = w_fs v KEY_TPM_PATH"
    using counter_saved [of u R o700 state_fresh] u(3) assms(1) by auto
  with u show ?thesis by (simp add: pair_store_def io_simps demo_pair_env_def demo_libs_def)
qed

lemma pairing_stored:
  assumes "\<And>p. p \<in> {KEY_DIR, KEY_TMP, KEY_PATH, KEY_BAK_PATH, STATE_TMP, STATE_PATH} \<Longrightarrow> F p = None"
  shows "\<exists>u. run_pair demo_pair_env (Some po) False None (pairing_world False F) = (Ok (), u) \<and> key_sent u
    \<and> w_env u = calm (pairing_reads False) \<and> w_fs u KEY_TPM_PATH = F KEY_TPM_PATH"
proof -
  obtain v where v: "w_env v = calm (pairing_reads False)" "w_fs v = F(ALLOW_PAIR_PATH := None)" "key_sent v"
    "run_pair demo_pair_env (Some po) False None (pairing_world False F) = pair_store demo_pair_env False None demo_key v"
    using pairing_sends [of False] by blast
  have n: "w_fs v p = None" if "p \<in> {KEY_DIR, KEY_TMP, KEY_PATH, KEY_BAK_PATH, STATE_TMP, STATE_PATH}" for p
    using assms [OF that] by (simp add: v(2))
  obtain u where u: "pair_store demo_pair_env False None demo_key v = (Ok (), u)" "w_wire u = w_wire v" "w_env u = w_env v"
    "w_fs u KEY_TPM_PATH = w_fs v KEY_TPM_PATH"
    using stored [OF v(1) n, of demo_key] by blast
  have "KEY_TPM_PATH \<noteq> ALLOW_PAIR_PATH" by (simp add: KEY_TPM_PATH_def ALLOW_PAIR_PATH_def)
  with u v show ?thesis by (intro exI [of _ u]) (simp add: key_sent_def)
qed

lemma gate_private_calm: "gate_private (calm R)"
  by (simp add: gate_private_def truthful_def untouched_def)

theorem gate_closed_before_key_witness:
  "\<exists>w'. run_pair demo_pair_env (Some ''/dev/ttyUSB0'') False None (pairing_world False Map.empty) = (Ok (), w') \<and> key_sent w'
    \<and> (\<exists>key rx v. gone ALLOW_PAIR_PATH v \<and> \<not> key_sent v
        \<and> w' = snd (snd (pair_finish demo_pair_env False None key (rx, v))))"
proof -
  obtain u where u: "run_pair demo_pair_env (Some ''/dev/ttyUSB0'') False None (pairing_world False Map.empty) = (Ok (), u)" "key_sent u"
    using pairing_stored [of Map.empty "''/dev/ttyUSB0''"] by auto
  have "\<not> key_sent (pairing_world False Map.empty)" by (simp add: key_sent_def)
  with gate_closed_before_key [OF _ demo_quiet _ u(1)] gate_private_calm u show ?thesis
    by (auto simp: key_sent_def)
qed

section \<open>An unpairing that succeeds\<close>

definition unpaired_frame :: str where
  "unpaired_frame = encode_response demo_key 5 0 ''OK unpaired''"

definition unpair_reads :: "nat \<Rightarrow> (u8 list, io_error) result" where
  "unpair_reads t =
     (if t = 7 then Ok (as_bytes ''OK pong'' @ [10])
      else if t = 13 then Ok (as_bytes (status_line True) @ [10])
      else if t = 29 then Ok (as_bytes unpaired_frame @ [10])
      else if t = 35 then Ok (as_bytes (status_line False) @ [10])
      else Err (Io_error TimedOut []))"

definition unpair_fs :: fs where
  "unpair_fs = Map.empty(STATE_DIR \<mapsto> Dir o700 0, KEY_TPM_PATH \<mapsto> File (0x53 # demo_key) o600 0,
     STATE_PATH \<mapsto> File (u64_to_le_bytes 5) o600 0)"

definition unpair_world :: world where
  "unpair_world = (demo_world unpair_fs)\<lparr>w_env := calm unpair_reads\<rparr>"

lemma unpair_world_simps [simp]:
  "w_env unpair_world = calm unpair_reads" "w_tick unpair_world = 0" "w_wire unpair_world = []"
  "w_fs unpair_world = unpair_fs"
  by (simp_all add: unpair_world_def demo_world_def)

lemma sealed_loads:
  assumes "w_env w = calm R" "w_fs w KEY_TPM_PATH = Some (File (b # key) m 0)"
  shows "load_key_with_source demo_services w = (Ok (Some (key, Tpm)), later 2 2 w)"
proof -
  have f: "follow (w_fs w) KEY_TPM_PATH = Ok KEY_TPM_PATH" by (rule follow_plain) (simp add: assms)
  have a: "fs_exists KEY_TPM_PATH w = (Ok True, later 1 1 w)"
    by (simp add: fs_exists_def calm_calls(4) [OF assms(1)] match_io_def return_io_def f assms)
  have r: "fs_read KEY_TPM_PATH (later 1 1 w) = (Ok (b # key), later 2 2 w)"
    using assms(1) by (simp add: fs_read_def calm_calls(4) [where R = R] f fs_lookup_def assms eval_nat_numeral)
  show ?thesis
    by (simp add: load_key_with_source_def io_simps a r [simplified] demo_services_def)
qed

lemma unpair_loads: "load_key_with_source demo_services unpair_world = (Ok (Some (demo_key, Tpm)), later 2 2 unpair_world)"
  using sep by (intro sealed_loads [where R = unpair_reads and b = "0x53" and m = o600]) (simp_all add: unpair_fs_def)

lemma counter_loaded:
  assumes "w_env v = calm R" "w_fs v = unpair_fs"
  shows "state_load demo_json v = (Ok (Some \<lparr>next_cmd_counter = 5\<rparr>), later 3 3 v)"
proof -
  have m: "(384 :: u32) AND 511 = 384" by code_simp
  show ?thesis
    using sep assms m
    by (simp add: state_load_def calm_files unpair_fs_def demo_json_def eval_nat_numeral)
qed

lemma counter_stepped:
  assumes "w_env v = calm R" "w_fs v = unpair_fs"
  shows "\<exists>u d. state_save demo_json st v = (Ok (), u) \<and> w_env u = w_env v \<and> w_tick u = w_tick v + 7 \<and> w_wire u = w_wire v
    \<and> w_fs u KEY_PATH = None \<and> w_fs u KEY_BAK_PATH = None \<and> w_fs u KEY_TPM_PATH = Some (File (0x53 # demo_key) o600 0)
    \<and> w_fs u STATE_PATH = Some (File d o600 0)"
proof -
  have m: "(384 :: u32) AND NOT 18 = 384" by code_simp
  show ?thesis
    using sep assms m
    by (simp add: state_save_def calm_files unpair_fs_def demo_json_def)
qed

lemma all_deleted:
  assumes "w_env v = calm R" "w_fs v KEY_PATH = None" "w_fs v KEY_BAK_PATH = None"
    "w_fs v KEY_TPM_PATH = Some (File (0x53 # demo_key) o600 0)" "w_fs v STATE_PATH = Some (File d o600 0)"
  shows "\<exists>u u'. delete_all_keys v = (Ok (), u) \<and> state_delete u = (Ok (), u') \<and> w_wire u' = w_wire v"
  using sep assms
  by (simp add: delete_all_keys_def delete_key_def delete_sealed_key_def remove_if_there_def shred_file_def
      state_delete_def calm_files)

lemma unpair_answered:
  assumes "w_env w = calm unpair_reads" "w_tick w = 24"
  shows "unpair_send demo_pair_env demo_key 5 (rx, w) = (Ok (), [], later 6 7 (w\<lparr>w_wire := w_wire w
    @ [(as_bytes (encode_command demo_key 5 ''unpair''), length (encode_command demo_key 5 ''unpair'')), ([10], 1)]\<rparr>))"
proof -
  have r: "starts_with unpaired_frame ''R ''" "printable unpaired_frame" "length unpaired_frame < 256"
    "\<not> starts_with unpaired_frame ''PROGRESS ''" "unpaired_frame \<noteq> []"
    by (auto simp: unpaired_frame_def encode_response_def show_u64_def show_u32_def show_nat.simps digit_char_def
        starts_with_def printable_Cons ord_def)
  have v: "verify_response (=) demo_key unpaired_frame = Ok (5, 0, ''OK unpaired'')"
    using rsp.verify_encode [of "''OK unpaired''" "(=)" demo_key "(5, 0)"]
    by (auto simp: result_simps ct_eq_law_def ascii_utf8_valid is_ascii_def ord_def unpaired_frame_def)
  have a: "cmd_labeled c label (from_millis 2000) (rx, w)
      = (Ok unpaired_frame, [], later 6 7 (w\<lparr>w_wire := w_wire w @ [(as_bytes c, length c), ([10], 1)]\<rparr>))" for c label
    by (rule cmd_answered [where R = unpair_reads]) (simp_all add: assms unpair_reads_def r from_millis_def)
  show ?thesis
    by (simp add: unpair_send_def io_simps a r v demo_pair_env_def demo_libs_def)
qed

lemma unpair_done:
  "\<exists>w'. run_unpair demo_pair_env (Some po) unpair_world = (Ok (Unpaired (demo_status False)), w')
    \<and> frame_counters (w_wire w') = [5]"
proof -
  define w1 where "w1 = later 2 2 unpair_world"
  have w1: "w_env w1 = calm unpair_reads" "w_tick w1 = 2" "w_fs w1 = unpair_fs" by (simp_all add: w1_def)
  define w2 where "w2 = later 6 7 (w1\<lparr>w_wire := w_wire w1 @ [(as_bytes ''ping'' @ [10], 5)]\<rparr>)"
  have w2: "w_env w2 = calm unpair_reads" "w_tick w2 = 8" "w_fs w2 = unpair_fs" by (simp_all add: w1 w2_def)
  have b: "link_open ([], w1) = (Ok (), [], w2)"
    unfolding w2_def by (rule link_open_answered [where R = unpair_reads]) (simp_all add: w1 unpair_reads_def)
  define w3 where "w3 = later 6 7 (w2\<lparr>w_wire := w_wire w2 @ [(as_bytes ''status'', 6), ([10], 1)]\<rparr>)"
  have w3: "w_env w3 = calm unpair_reads" "w_tick w3 = 14" "w_fs w3 = unpair_fs" by (simp_all add: w2 w3_def)
  have c: "query_status ([], w2) = (Ok (demo_status True), [], w3)"
    unfolding w3_def by (rule query_demo [where R = unpair_reads]) (simp_all add: w2 unpair_reads_def)
  define w4 where "w4 = later 3 3 w3"
  have w4: "w_env w4 = calm unpair_reads" "w_tick w4 = 17" "w_fs w4 = unpair_fs" by (simp_all add: w3 w4_def)
  have d: "state_load demo_json w3 = (Ok (Some \<lparr>next_cmd_counter = 5\<rparr>), w4)"
    unfolding w4_def by (rule counter_loaded [OF w3(1,3)])
  obtain w5 x where s: "state_save demo_json \<lparr>next_cmd_counter = 6\<rparr> w4 = (Ok (), w5)"
    and w5: "w_env w5 = calm unpair_reads" "w_tick w5 = 24" "w_fs w5 KEY_PATH = None" "w_fs w5 KEY_BAK_PATH = None"
      "w_fs w5 KEY_TPM_PATH = Some (File (0x53 # demo_key) o600 0)" "w_fs w5 STATE_PATH = Some (File x o600 0)" "w_wire w5 = w_wire w4"
    using counter_stepped [OF w4(1,3), of "\<lparr>next_cmd_counter = 6\<rparr>"] w4 by auto
  define w6 where "w6 = later 6 7 (w5\<lparr>w_wire := w_wire w5
    @ [(as_bytes (encode_command demo_key 5 ''unpair''), length (encode_command demo_key 5 ''unpair'')), ([10], 1)]\<rparr>)"
  have w6: "w_env w6 = calm unpair_reads" "w_tick w6 = 30" "w_fs w6 = w_fs w5" by (simp_all add: w5 w6_def)
  have e: "unpair_send demo_pair_env demo_key 5 ([], w5) = (Ok (), [], w6)"
    unfolding w6_def by (rule unpair_answered [OF w5(1,2)])
  define w7 where "w7 = later 6 7 (w6\<lparr>w_wire := w_wire w6 @ [(as_bytes ''status'', 6), ([10], 1)]\<rparr>)"
  have w7: "w_env w7 = calm unpair_reads" "w_fs w7 = w_fs w5" by (simp_all add: w6 w7_def)
  have f: "query_status ([], w6) = (Ok (demo_status False), [], w7)"
    unfolding w7_def by (rule query_demo [where R = unpair_reads]) (simp_all add: w6 unpair_reads_def)
  obtain w8 w9 where g: "delete_all_keys w7 = (Ok (), w8)" "state_delete w8 = (Ok (), w9)" "w_wire w9 = w_wire w7"
    using all_deleted [of w7 unpair_reads x] w7 w5 by auto
  have l: "load_key_with_source (p_keys demo_pair_env) unpair_world = (Ok (Some (demo_key, Tpm)), w1)"
    by (simp add: unpair_loads demo_keys w1_def)
  have j: "state_json (p_libs demo_pair_env) = demo_json" by (simp add: demo_pair_env_def demo_libs_def)
  have "run_unpair demo_pair_env (Some po) unpair_world = (Ok (Unpaired (demo_status False)), w9)"
    unfolding run_unpair_def locate_port_def option.case j
    by (simp add: io_simps l link_run_def b c d s e f g demo_status_def COUNTER_CEILING_def Let_def)
  moreover have "frame_counters (w_wire w9) = [5]"
  proof -
    have u: "utf8_valid ''unpair''" by (rule ascii_utf8_valid) (simp add: is_ascii_def ord_def)
    have "w_wire w9 = [(as_bytes ''ping'' @ [10], 5), (as_bytes ''status'', 6), ([10], 1),
       (as_bytes (encode_command demo_key 5 ''unpair''), length (encode_command demo_key 5 ''unpair'')), ([10], 1),
       (as_bytes ''status'', 6), ([10], 1)]"
      by (simp add: g w7_def w6_def w5 w4_def w3_def w2_def w1_def)
    with frame_counter_encode [OF u, of demo_key 5] plain_bytes show ?thesis
      by (simp add: frame_counters_def List.map_filter_simps)
  qed
  ultimately show ?thesis by blast
qed

lemma calm_unpair_private: "unpair_private (calm R)"
  using demo_private_paths
  by (simp add: unpair_private_def keys_private_def untouched_def truthful_def)

theorem unpair_erases_witness:
  "\<exists>w'. run_unpair demo_pair_env (Some ''/dev/ttyUSB0'') unpair_world = (Ok (Unpaired (demo_status False)), w') \<and> all_gone w'"
proof -
  obtain w' where w': "run_unpair demo_pair_env (Some ''/dev/ttyUSB0'') unpair_world = (Ok (Unpaired (demo_status False)), w')"
    using unpair_done by blast
  with unpair_erases [OF _ demo_quiet w'] show ?thesis by (simp add: calm_unpair_private)
qed

lemma unpair_world_inv: "world_inv (p_libs demo_pair_env) unpair_world"
proof -
  have "private_env (calm R)" for R
    using demo_private by (simp add: calm_def demo_env_def private_env_def private_paths_def)
  with sep show ?thesis
    by (simp add: world_inv_def st_pred_def counters_ok_def file_secure_def mode_600_def unpair_fs_def frame_counters_def)
qed


section \<open>A counter recovered, a key sealed again\<close>

lemma resync_done: "\<exists>w'. run_resync demo_pair_env (Some po) unpair_world = (Ok (), w')"
proof -
  define w1 where "w1 = later 2 2 unpair_world"
  have w1: "w_env w1 = calm unpair_reads" "w_tick w1 = 2" "w_fs w1 = unpair_fs" by (simp_all add: w1_def)
  define w2 where "w2 = later 6 7 (w1\<lparr>w_wire := w_wire w1 @ [(as_bytes ''ping'' @ [10], 5)]\<rparr>)"
  have w2: "w_env w2 = calm unpair_reads" "w_tick w2 = 8" "w_fs w2 = unpair_fs" by (simp_all add: w1 w2_def)
  have b: "link_open ([], w1) = (Ok (), [], w2)"
    unfolding w2_def by (rule link_open_answered [where R = unpair_reads]) (simp_all add: w1 unpair_reads_def)
  define w3 where "w3 = later 6 7 (w2\<lparr>w_wire := w_wire w2 @ [(as_bytes ''status'', 6), ([10], 1)]\<rparr>)"
  have w3: "w_env w3 = calm unpair_reads" "w_fs w3 = unpair_fs" by (simp_all add: w2 w3_def)
  have c: "query_status ([], w2) = (Ok (demo_status True), [], w3)"
    unfolding w3_def by (rule query_demo [where R = unpair_reads]) (simp_all add: w2 unpair_reads_def)
  obtain w5 where s: "state_save demo_json \<lparr>next_cmd_counter = 42\<rparr> (later 3 3 w3) = (Ok (), w5)"
    using counter_stepped [of "later 3 3 w3" unpair_reads "\<lparr>next_cmd_counter = 42\<rparr>"] w3 by auto
  have l: "load_key_with_source (p_keys demo_pair_env) unpair_world = (Ok (Some (demo_key, Tpm)), w1)"
    by (simp add: unpair_loads demo_keys w1_def)
  have j: "state_json (p_libs demo_pair_env) = demo_json" by (simp add: demo_pair_env_def demo_libs_def)
  have "run_resync demo_pair_env (Some po) unpair_world = (Ok (), w5)"
    unfolding run_resync_def locate_port_def option.case j
    by (simp add: io_simps l link_run_def b c s counter_loaded [OF w3] demo_status_def resync_target_def COUNTER_CEILING_def)
  then show ?thesis by blast
qed


definition reseal_world :: world where
  "reseal_world = (demo_world (Map.empty(KEY_DIR \<mapsto> Dir o700 0, KEY_TPM_PATH \<mapsto> File (0x53 # demo_key) o600 0)))
     \<lparr>w_env := calm (\<lambda>_. Err (Io_error TimedOut []))\<rparr>"

lemma reseal_paths:
  "KEY_DIR \<noteq> KEY_PATH" "KEY_DIR \<noteq> KEY_BAK_PATH" "KEY_DIR \<noteq> KEY_TPM_PATH" "KEY_DIR \<noteq> KEY_TPM_TMP" "KEY_TPM_TMP \<noteq> KEY_TPM_PATH"
  "KEY_TPM_TMP \<noteq> KEY_PATH" "KEY_TPM_TMP \<noteq> KEY_BAK_PATH"
  by (simp_all add: KEY_DIR_def KEY_PATH_def KEY_BAK_PATH_def KEY_TPM_PATH_def KEY_TPM_TMP_def)

lemma reseal_done: "\<exists>w'. run_reseal_policy demo_pair_env None reseal_world = (Ok (), w')"
proof -
  have m: "(384 :: u32) AND NOT 18 = 384" by code_simp
  obtain x where e: "policy_of_blob (0x53 # demo_key) = Err x"
    by (simp add: policy_of_blob_def deserialize_blob_def blob_policy_def FILE_MAGIC_V1_def FILE_MAGIC_V2_def
        FILE_MAGIC_V3_def demo_key_def as_bytes_def result_simps)
  show ?thesis
    using reseal_paths reseal_paths [symmetric] m e
    by (simp add: run_reseal_policy_def load_key_with_source_def persist_sealed_blob_def secure_key_dir_def
        calm_files reseal_world_def demo_world_def demo_pair_env_def demo_services_def)
qed

lemma reseal_world_ok: "sealed_dir_ok reseal_world"
proof -
  have "private_paths ps (calm R)" for ps R
    using demo_private_paths [of ps] by (simp add: private_paths_def calm_def demo_env_def)
  with reseal_paths reseal_paths [symmetric] show ?thesis
    by (simp add: sealed_dir_ok_def rf_pred_def plain_at_def reseal_world_def demo_world_def file_secure_def)
qed


end
