(* ===== verification/Pairing_Findings.thy ===== *)
theory Pairing_Findings
  imports Pairing_Runs
begin

text \<open>
  Runs of the pairing commands that do not do what the code around them, or its comments, mean them to.
\<close>

section \<open>A sealed key of an earlier pairing\<close>

text \<open>
  Pairing without \<open>--seal-tpm\<close> on a host that still has a \<open>key.tpm\<close> (the firmware was wiped, the files
  were not): the flow succeeds, the firmware has the new key, and the daemon goes on loading the old
  one, because the sealed file is looked at first and \<open>save_key\<close> does not remove it.
\<close>

definition stale_key :: "u8 list" where
  "stale_key = replicate 16 0x11"

definition stale_fs :: fs where
  "stale_fs = Map.empty(KEY_TPM_PATH \<mapsto> File (0x53 # stale_key) o600 0)"

theorem plain_pairing_keeps_stale_key:
  "\<exists>u. run_pair demo_pair_env (Some po) False None (pairing_world False stale_fs) = (Ok (), u) \<and> key_sent u
    \<and> fst (load_key_with_source demo_services u) = Ok (Some (stale_key, Tpm))"
proof -
  have z: "stale_fs p = None" if "p \<in> {KEY_DIR, KEY_TMP, KEY_PATH, KEY_BAK_PATH, STATE_TMP, STATE_PATH}" for p
  proof -
    have "KEY_TPM_PATH \<notin> {KEY_DIR, KEY_TMP, KEY_PATH, KEY_BAK_PATH, STATE_TMP, STATE_PATH}"
      by (simp add: KEY_TPM_PATH_def KEY_DIR_def KEY_TMP_def KEY_PATH_def KEY_BAK_PATH_def STATE_TMP_def STATE_PATH_def)
    with that have "p \<noteq> KEY_TPM_PATH" by blast
    then show ?thesis by (simp add: stale_fs_def)
  qed
  have "\<exists>u. run_pair demo_pair_env (Some po) False None (pairing_world False stale_fs) = (Ok (), u) \<and> key_sent u
    \<and> w_env u = calm (pairing_reads False) \<and> w_fs u KEY_TPM_PATH = stale_fs KEY_TPM_PATH"
    by (rule pairing_stored) (rule z)
  then obtain u where u: "run_pair demo_pair_env (Some po) False None (pairing_world False stale_fs) = (Ok (), u)" "key_sent u"
    "w_env u = calm (pairing_reads False)" "w_fs u KEY_TPM_PATH = stale_fs KEY_TPM_PATH"
    by (elim exE conjE)
  have "fst (load_key_with_source demo_services u) = Ok (Some (stale_key, Tpm))"
    using sealed_loads [of u "pairing_reads False" "0x53" stale_key o600] u(3,4) by (simp add: stale_fs_def)
  with u show ?thesis by blast
qed

section \<open>A PCR list read after the key is sent\<close>

text \<open>
  The TPM is looked for before anything is touched, so that a pairing that cannot be stored does not
  start; the list of PCRs is parsed after the firmware has accepted the key. With a list that does not
  parse the firmware is paired, the marker is gone, and the key is nowhere on the host.
\<close>

definition tpm_fs :: fs where
  "tpm_fs = Map.empty(TPM_DEVICE \<mapsto> File [] o600 0)"

theorem bad_pcr_list_found_late:
  "\<exists>e u. run_pair demo_pair_env (Some po) True (Some ''x'') (pairing_world True tpm_fs) = (Err e, u) \<and> key_sent u
    \<and> (\<forall>p \<in> {KEY_PATH, KEY_BAK_PATH, KEY_TPM_PATH, ALLOW_PAIR_PATH}. w_fs u p = None)"
proof -
  have "trim ''x'' = ''x''" by (rule trim_visible) (simp add: ord_def)
  then obtain e where e: "parse_pcr_list ''x'' = Err e"
    by (simp add: parse_pcr_list_def split_char_def parse_uint_def is_ascii_digit_def ord_def)
  obtain v where v: "w_fs v = tpm_fs(ALLOW_PAIR_PATH := None)" "key_sent v"
    "run_pair demo_pair_env (Some po) True (Some ''x'') (pairing_world True tpm_fs) = pair_store demo_pair_env True (Some ''x'') demo_key v"
    using pairing_sends [of True tpm_fs po "Some ''x''"] by (auto simp: tpm_fs_def)
  have "pair_store demo_pair_env True (Some ''x'') demo_key v = (Err (Context ''parsing --seal-tpm-pcrs'' e), v)"
    by (simp add: pair_store_def io_simps e)
  moreover have "TPM_DEVICE \<notin> {KEY_PATH, KEY_BAK_PATH, KEY_TPM_PATH}"
    by (simp add: TPM_DEVICE_def KEY_PATH_def KEY_BAK_PATH_def KEY_TPM_PATH_def)
  ultimately show ?thesis using v by (auto simp: tpm_fs_def)
qed

section \<open>The sealed key of an unpaired firmware\<close>

text \<open>
  Unpairing a firmware that reports itself unpaired removes the plain-text files only, and says that
  the host's key files are cleared: \<open>key.tpm\<close> and the counter are still there.
\<close>

definition tidy_reads :: "nat \<Rightarrow> (u8 list, io_error) result" where
  "tidy_reads t =
     (if t = 7 then Ok (as_bytes ''OK pong'' @ [10])
      else if t = 13 then Ok (as_bytes (status_line False) @ [10])
      else Err (Io_error TimedOut []))"

definition tidy_world :: world where
  "tidy_world = (demo_world unpair_fs)\<lparr>w_env := calm tidy_reads\<rparr>"

theorem unpair_leaves_sealed_key:
  "\<exists>w'. run_unpair demo_pair_env (Some po) tidy_world = (Ok Already_unpaired, w')
    \<and> w_fs w' KEY_TPM_PATH = w_fs tidy_world KEY_TPM_PATH \<and> w_fs w' STATE_PATH = w_fs tidy_world STATE_PATH
    \<and> w_fs w' KEY_TPM_PATH \<noteq> None \<and> w_fs w' STATE_PATH \<noteq> None"
proof -
  define w1 where "w1 = later 2 2 tidy_world"
  have w1: "w_env w1 = calm tidy_reads" "w_tick w1 = 2" "w_fs w1 = unpair_fs"
    by (simp_all add: w1_def tidy_world_def demo_world_def)
  have l: "load_key_with_source demo_services tidy_world = (Ok (Some (demo_key, Tpm)), w1)"
    unfolding w1_def using sep
    by (intro sealed_loads [where R = tidy_reads and b = "0x53" and m = o600])
      (simp_all add: tidy_world_def demo_world_def unpair_fs_def)
  define w2 where "w2 = later 6 7 (w1\<lparr>w_wire := w_wire w1 @ [(as_bytes ''ping'' @ [10], 5)]\<rparr>)"
  have w2: "w_env w2 = calm tidy_reads" "w_tick w2 = 8" "w_fs w2 = unpair_fs" by (simp_all add: w1 w2_def)
  have b: "link_open ([], w1) = (Ok (), [], w2)"
    unfolding w2_def by (rule link_open_answered [where R = tidy_reads]) (simp_all add: w1 tidy_reads_def)
  define w3 where "w3 = later 6 7 (w2\<lparr>w_wire := w_wire w2 @ [(as_bytes ''status'', 6), ([10], 1)]\<rparr>)"
  have w3: "w_env w3 = calm tidy_reads" "w_fs w3 = unpair_fs" by (simp_all add: w2 w3_def)
  have c: "query_status ([], w2) = (Ok (demo_status False), [], w3)"
    unfolding w3_def by (rule query_demo [where R = tidy_reads]) (simp_all add: w2 tidy_reads_def)
  obtain w4 where d: "delete_key w3 = (Ok (), w4)" "w_fs w4 = unpair_fs"
    using sep w3 by (simp add: delete_key_def remove_if_there_def shred_file_def calm_files unpair_fs_def)
  have k: "load_key_with_source (p_keys demo_pair_env) tidy_world = (Ok (Some (demo_key, Tpm)), w1)"
    by (simp add: l demo_keys)
  have "run_unpair demo_pair_env (Some po) tidy_world = (Ok Already_unpaired, w4)"
    unfolding run_unpair_def locate_port_def option.case
    by (simp add: io_simps k link_run_def b c d demo_status_def)
  with d(2) sep show ?thesis by (simp add: tidy_world_def demo_world_def) (simp add: unpair_fs_def)
qed

section \<open>A counter moved back\<close>

text \<open>
  The status answer is not authenticated, and the counter it makes \<open>run_resync\<close> write may be below the
  one on disk: here 100 is on disk, the firmware's answer says 41, and 42 is written. From then on the
  driver accepts the recorded response frames of the counters 42 to 99 again.
\<close>

definition high_fs :: fs where
  "high_fs = unpair_fs(STATE_PATH \<mapsto> File (u64_to_le_bytes 100) o600 0)"

definition high_world :: world where
  "high_world = (demo_world high_fs)\<lparr>w_env := calm unpair_reads\<rparr>"

theorem resync_moves_counter_back:
  "disk_counter demo_json high_world = Some 100
    \<and> (\<exists>w'. run_resync demo_pair_env (Some po) high_world = (Ok (), w') \<and> disk_counter demo_json w' = Some 42)"
proof -
  have hp: "high_fs = Map.empty(STATE_DIR \<mapsto> Dir o700 0, KEY_TPM_PATH \<mapsto> File (0x53 # demo_key) o600 0,
     STATE_PATH \<mapsto> File (u64_to_le_bytes 100) o600 0)"
    by (simp add: high_fs_def unpair_fs_def)
  define w1 where "w1 = later 2 2 high_world"
  have w1: "w_env w1 = calm unpair_reads" "w_tick w1 = 2" "w_fs w1 = high_fs"
    by (simp_all add: w1_def high_world_def demo_world_def)
  have l: "load_key_with_source demo_services high_world = (Ok (Some (demo_key, Tpm)), w1)"
    unfolding w1_def using sep
    by (intro sealed_loads [where R = unpair_reads and b = "0x53" and m = o600])
      (simp_all add: high_world_def demo_world_def hp)
  define w2 where "w2 = later 6 7 (w1\<lparr>w_wire := w_wire w1 @ [(as_bytes ''ping'' @ [10], 5)]\<rparr>)"
  have w2: "w_env w2 = calm unpair_reads" "w_tick w2 = 8" "w_fs w2 = high_fs" by (simp_all add: w1 w2_def)
  have b: "link_open ([], w1) = (Ok (), [], w2)"
    unfolding w2_def by (rule link_open_answered [where R = unpair_reads]) (simp_all add: w1 unpair_reads_def)
  define w3 where "w3 = later 6 7 (w2\<lparr>w_wire := w_wire w2 @ [(as_bytes ''status'', 6), ([10], 1)]\<rparr>)"
  have w3: "w_env w3 = calm unpair_reads" "w_fs w3 = high_fs" by (simp_all add: w2 w3_def)
  have c: "query_status ([], w2) = (Ok (demo_status True), [], w3)"
    unfolding w3_def by (rule query_demo [where R = unpair_reads]) (simp_all add: w2 unpair_reads_def)
  have m: "(384 :: u32) AND 511 = 384" "(384 :: u32) AND NOT 18 = 384" by code_simp+
  obtain w4 st where d: "state_load demo_json w3 = (Ok st, w4)" "w_env w4 = calm unpair_reads" "w_fs w4 = high_fs"
    using sep w3 m by (simp add: state_load_def calm_files hp demo_json_def)
  obtain w5 where s: "state_save demo_json \<lparr>next_cmd_counter = 42\<rparr> w4 = (Ok (), w5)" "disk_counter demo_json w5 = Some 42"
    using sep d m by (simp add: state_save_def calm_files hp demo_json_def disk_counter_def node_counter_def overwrite_def)
  have k: "load_key_with_source (p_keys demo_pair_env) high_world = (Ok (Some (demo_key, Tpm)), w1)"
    by (simp add: l demo_keys)
  have j: "state_json (p_libs demo_pair_env) = demo_json" by (simp add: demo_pair_env_def demo_libs_def)
  have "run_resync demo_pair_env (Some po) high_world = (Ok (), w5)"
    unfolding run_resync_def locate_port_def option.case j
    by (simp add: io_simps k link_run_def b c d s demo_status_def resync_target_def COUNTER_CEILING_def)
  moreover have "disk_counter demo_json high_world = Some 100"
    by (simp add: disk_counter_def node_counter_def high_world_def demo_world_def high_fs_def demo_json_def)
  ultimately show ?thesis using s(2) by blast
qed

end
