(* ===== verification/Tpm_Calls.thy ===== *)
theory Tpm_Calls
  imports Tpm_Blob Hex
begin

text \<open>
  \<open>tpm.rs\<close>, the part that drives the TPM: the order of the calls, what each is given, which session
  authorises it, and what is flushed on which path. The library \<open>tss-esapi\<close> and the TPM behind it are a
  parameter: what the n-th call answers may depend on all calls so far and on nothing the code knows, and
  any call may fail or be the one at which the process dies (\<open>Panic\<close>). Sessions and objects are the
  handles the TPM gives out; a public or private structure is its bytes.
\<close>

section \<open>Calls\<close>

datatype session_kind = Hmac | Policy | Trial

datatype tpm_handle = Session nat | Object nat

text \<open>The attributes and the authorisation of a sealed object.\<close>

record sealed_template =
  fixed_tpm :: bool
  fixed_parent :: bool
  no_da :: bool
  admin_with_policy :: bool
  user_with_auth :: bool
  auth_policy :: "u8 list option"

datatype tpm_call =
    Open
  | Build_selection "pcr_slot list"
  | Start_session session_kind
  | Set_attributes nat
  | To_policy_session nat
  | Policy_pcr nat "pcr_slot list"
  | Get_digest nat
  | Build_srk
  | Create_primary
  | Build_public sealed_template
  | Wrap_sensitive "u8 list"
  | Create nat sealed_template "u8 list"
  | Marshall "u8 list"
  | Unmarshall "u8 list"
  | To_private "u8 list"
  | Load nat "u8 list" "u8 list"
  | Unseal nat
  | Flush tpm_handle
  | Pcr_read "pcr_slot list"

text \<open>The calls so far, the last one at the end, each with the session that was set when it was made.\<close>

type_synonym tpm_log = "(nat option \<times> tpm_call) list"

record tpm_lib =
  t_unit :: "tpm_log \<Rightarrow> (unit, any_error) result"
  t_session :: "tpm_log \<Rightarrow> (nat option, any_error) result"
  t_object :: "tpm_log \<Rightarrow> (nat, any_error) result"
  t_created :: "tpm_log \<Rightarrow> (u8 list \<times> u8 list, any_error) result"
  t_bytes :: "tpm_log \<Rightarrow> (u8 list, any_error) result"
  t_digests :: "tpm_log \<Rightarrow> (u8 list list, any_error) result"

record tpm_ctx =
  cx_session :: "nat option"
  cx_log :: tpm_log

type_synonym 'a tpm_io = "(tpm_ctx, 'a, any_error) io"

definition new_ctx :: tpm_ctx where
  "new_ctx = \<lparr>cx_session = None, cx_log = []\<rparr>"

definition ask :: "(tpm_log \<Rightarrow> ('a, any_error) result) \<Rightarrow> tpm_call \<Rightarrow> 'a tpm_io" where
  "ask f c x = (let l = cx_log x @ [(cx_session x, c)] in (f l, x\<lparr>cx_log := l\<rparr>))"

definition set_session :: "nat option \<Rightarrow> unit tpm_io" where
  "set_session s = modify_io (\<lambda>x. x\<lparr>cx_session := s\<rparr>)"

definition flush :: "tpm_lib \<Rightarrow> tpm_handle \<Rightarrow> unit tpm_io" where
  "flush T h = ignore_io (ask (t_unit T) (Flush h))"

text \<open>\<open>let attempt = (|| ...)(); clean-up; attempt\<close>: the clean-up runs on success and on error.\<close>

definition finally_io :: "('s, 'a, 'e) io \<Rightarrow> ('s, unit, 'e) io \<Rightarrow> ('s, 'a, 'e) io" where
  "finally_io m f s =
     (case m s of (Panic, s') \<Rightarrow> (Panic, s') | (r, s') \<Rightarrow> bind_io f (\<lambda>_. result_io r) s')"

definition ctx_err :: "str \<Rightarrow> 'a tpm_io \<Rightarrow> 'a tpm_io" where
  "ctx_err msg = map_err_io (Context msg)"

section \<open>Sessions and selections\<close>

definition open_context :: "tpm_lib \<Rightarrow> unit tpm_io" where
  "open_context T = ctx_err ''opening TPM2 device'' (ask (t_unit T) Open)"

definition pcr_selection_for :: "tpm_lib \<Rightarrow> u8 list \<Rightarrow> pcr_slot list tpm_io" where
  "pcr_selection_for T pcrs =
     bind_io (result_io (pcr_slots pcrs)) (\<lambda>slots.
     bind_io (ctx_err ''building PCR selection'' (ask (t_unit T) (Build_selection slots))) (\<lambda>_.
     return_io slots))"

definition start_session :: "tpm_lib \<Rightarrow> session_kind \<Rightarrow> str \<Rightarrow> str \<Rightarrow> str \<Rightarrow> nat tpm_io" where
  "start_session T kind starting none attrs =
     bind_io (ctx_err starting (ask (t_session T) (Start_session kind))) (\<lambda>s.
     case s of
       None \<Rightarrow> fail_io (Msg none)
     | Some s \<Rightarrow> bind_io (ctx_err attrs (ask (t_unit T) (Set_attributes s))) (\<lambda>_. return_io s))"

definition start_hmac_session :: "tpm_lib \<Rightarrow> nat tpm_io" where
  "start_hmac_session T = start_session T Hmac ''starting HMAC session''
     ''start_auth_session returned None for HMAC'' ''setting HMAC session attributes''"

definition start_policy_session :: "tpm_lib \<Rightarrow> nat tpm_io" where
  "start_policy_session T = start_session T Policy ''starting policy session''
     ''start_auth_session returned None for Policy'' ''setting policy session attributes''"

text \<open>\<open>PolicyPCR\<close> with an empty digest: the current values of the registers.\<close>

definition policy_pcr :: "tpm_lib \<Rightarrow> str \<Rightarrow> str \<Rightarrow> nat \<Rightarrow> pcr_slot list \<Rightarrow> unit tpm_io" where
  "policy_pcr T conv msg s slots =
     bind_io (map_err_io (\<lambda>_. Msg conv) (ask (t_unit T) (To_policy_session s))) (\<lambda>_.
     ctx_err msg (ask (t_unit T) (Policy_pcr s slots)))"

definition trial_policy_pcr_digest :: "tpm_lib \<Rightarrow> pcr_slot list \<Rightarrow> u8 list tpm_io" where
  "trial_policy_pcr_digest T slots =
     bind_io (get_io cx_session) (\<lambda>old.
     bind_io (set_session None) (\<lambda>_.
     bind_io (start_session T Trial ''starting trial session'' ''trial start_auth_session returned None''
       ''trial session attrs'') (\<lambda>trial.
     bind_io (policy_pcr T ''trial auth to policy session'' ''trial policy_pcr'' trial slots) (\<lambda>_.
     bind_io (ctx_err ''policy_get_digest on trial session'' (ask (t_bytes T) (Get_digest trial))) (\<lambda>digest.
     bind_io (flush T (Session trial)) (\<lambda>_.
     bind_io (set_session old) (\<lambda>_. return_io digest)))))))"

section \<open>Templates\<close>

definition sealed_object_template :: "u8 list \<Rightarrow> sealed_template" where
  "sealed_object_template policy_digest =
     \<lparr>fixed_tpm = True, fixed_parent = True, no_da = True, admin_with_policy = True, user_with_auth = False,
      auth_policy = Some policy_digest\<rparr>"

definition sealed_object_template_no_policy :: sealed_template where
  "sealed_object_template_no_policy =
     \<lparr>fixed_tpm = True, fixed_parent = True, no_da = True, admin_with_policy = False, user_with_auth = True,
      auth_policy = None\<rparr>"

definition create_primary :: "tpm_lib \<Rightarrow> str \<Rightarrow> nat tpm_io" where
  "create_primary T msg =
     bind_io (ctx_err ''building SRK-like primary template'' (ask (t_unit T) Build_srk)) (\<lambda>_.
     ctx_err msg (ask (t_object T) Create_primary))"

section \<open>Sealing\<close>

definition seal_attempt :: "tpm_lib \<Rightarrow> u8 list \<Rightarrow> nat \<Rightarrow> sealed_template \<Rightarrow> (u8 list \<times> u8 list) tpm_io" where
  "seal_attempt T key hmac template =
     bind_io (set_session (Some hmac)) (\<lambda>_.
     bind_io (create_primary T ''creating primary key on Owner hierarchy'') (\<lambda>primary.
     bind_io (ctx_err ''building sealed-object Public'' (ask (t_unit T) (Build_public template))) (\<lambda>_.
     bind_io (map_err_io (\<lambda>_. Msg ''wrapping 16 bytes into SensitiveData'') (ask (t_unit T) (Wrap_sensitive key))) (\<lambda>_.
     bind_io (ctx_err ''creating sealed object under primary'' (ask (t_created T) (Create primary template key))) (\<lambda>(public, private).
     bind_io (ctx_err ''marshalling out_public'' (ask (t_bytes T) (Marshall public))) (\<lambda>pub_bytes.
     bind_io (flush T (Object primary)) (\<lambda>_. return_io (pub_bytes, private))))))))"

definition seal_key_with_pcrs :: "tpm_lib \<Rightarrow> u8 list \<Rightarrow> u8 list \<Rightarrow> u8 list tpm_io" where
  "seal_key_with_pcrs T key pcrs =
     bind_io (result_io (validate_pcrs pcrs)) (\<lambda>_.
     bind_io (open_context T) (\<lambda>_.
     bind_io (pcr_selection_for T pcrs) (\<lambda>slots.
     bind_io (trial_policy_pcr_digest T slots) (\<lambda>policy_digest.
     bind_io (start_hmac_session T) (\<lambda>hmac.
     bind_io (finally_io (seal_attempt T key hmac (sealed_object_template policy_digest)) (flush T (Session hmac)))
       (\<lambda>(pub_bytes, priv_bytes). return_io (serialize_blob (Pcrs pcrs) pub_bytes priv_bytes)))))))"

definition seal_key_no_policy :: "tpm_lib \<Rightarrow> u8 list \<Rightarrow> u8 list tpm_io" where
  "seal_key_no_policy T key =
     bind_io (open_context T) (\<lambda>_.
     bind_io (start_hmac_session T) (\<lambda>hmac.
     bind_io (finally_io (seal_attempt T key hmac sealed_object_template_no_policy) (flush T (Session hmac)))
       (\<lambda>(pub_bytes, priv_bytes). return_io (serialize_blob No_policy pub_bytes priv_bytes))))"

definition seal_key :: "tpm_lib \<Rightarrow> u8 list \<Rightarrow> u8 list tpm_io" where
  "seal_key T key = seal_key_with_pcrs T key DEFAULT_PCRS"

section \<open>Unsealing\<close>

text \<open>The sixteen bytes of a key, from what the TPM unsealed.\<close>

definition key_of_unsealed :: "u8 list \<Rightarrow> (u8 list, any_error) result" where
  "key_of_unsealed bytes =
     (if length bytes \<noteq> 16 then Err (Msg ''unsealed payload has the wrong length'') else Ok bytes)"

definition load_sealed :: "tpm_lib \<Rightarrow> nat \<Rightarrow> u8 list \<Rightarrow> u8 list \<Rightarrow> nat tpm_io" where
  "load_sealed T primary private public =
     ctx_err ''loading sealed object under primary'' (ask (t_object T) (Load primary private public))"

definition pcr_unseal_attempt :: "tpm_lib \<Rightarrow> pcr_slot list \<Rightarrow> nat \<Rightarrow> nat \<Rightarrow> u8 list \<Rightarrow> u8 list \<Rightarrow> u8 list tpm_io" where
  "pcr_unseal_attempt T slots hmac policy public private =
     bind_io (set_session (Some hmac)) (\<lambda>_.
     bind_io (create_primary T ''re-creating primary key'') (\<lambda>primary.
     bind_io (load_sealed T primary private public) (\<lambda>loaded.
     bind_io (policy_pcr T ''auth to policy session'' ''PolicyPCR'' policy slots) (\<lambda>_.
     bind_io (set_session (Some policy)) (\<lambda>_.
     bind_io (ctx_err ''Unseal: PCR policy mismatch'' (ask (t_bytes T) (Unseal loaded))) (\<lambda>unsealed.
     bind_io (set_session (Some hmac)) (\<lambda>_.
     bind_io (flush T (Object loaded)) (\<lambda>_.
     bind_io (flush T (Object primary)) (\<lambda>_.
     result_io (key_of_unsealed unsealed))))))))))"

definition unseal_with_pcr_policy :: "tpm_lib \<Rightarrow> u8 list \<Rightarrow> u8 list \<Rightarrow> u8 list \<Rightarrow> u8 list tpm_io" where
  "unseal_with_pcr_policy T pcrs public private =
     bind_io (pcr_selection_for T pcrs) (\<lambda>slots.
     bind_io (start_hmac_session T) (\<lambda>hmac.
     bind_io (start_policy_session T) (\<lambda>policy.
     finally_io (pcr_unseal_attempt T slots hmac policy public private)
       (bind_io (flush T (Session policy)) (\<lambda>_. flush T (Session hmac))))))"

definition plain_unseal_attempt :: "tpm_lib \<Rightarrow> nat \<Rightarrow> u8 list \<Rightarrow> u8 list \<Rightarrow> u8 list tpm_io" where
  "plain_unseal_attempt T hmac public private =
     bind_io (set_session (Some hmac)) (\<lambda>_.
     bind_io (create_primary T ''re-creating primary key'') (\<lambda>primary.
     bind_io (load_sealed T primary private public) (\<lambda>loaded.
     bind_io (ctx_err ''Unseal (no-policy blob) failed'' (ask (t_bytes T) (Unseal loaded))) (\<lambda>unsealed.
     bind_io (flush T (Object loaded)) (\<lambda>_.
     bind_io (flush T (Object primary)) (\<lambda>_.
     result_io (key_of_unsealed unsealed)))))))"

definition unseal_with_no_policy :: "tpm_lib \<Rightarrow> u8 list \<Rightarrow> u8 list \<Rightarrow> u8 list tpm_io" where
  "unseal_with_no_policy T public private =
     bind_io (start_hmac_session T) (\<lambda>hmac.
     finally_io (plain_unseal_attempt T hmac public private) (flush T (Session hmac)))"

definition unseal_key :: "tpm_lib \<Rightarrow> u8 list \<Rightarrow> u8 list tpm_io" where
  "unseal_key T blob =
     bind_io (result_io (deserialize_blob blob)) (\<lambda>(policy, pub_bytes, priv_bytes).
     bind_io (ctx_err ''unmarshalling stored sealed Public'' (ask (t_bytes T) (Unmarshall pub_bytes))) (\<lambda>public.
     bind_io (map_err_io (\<lambda>_. Msg ''rebuilding Private from blob bytes'') (ask (t_unit T) (To_private priv_bytes))) (\<lambda>_.
     bind_io (open_context T) (\<lambda>_.
     case policy of
       Pcrs pcrs \<Rightarrow> unseal_with_pcr_policy T pcrs public priv_bytes
     | No_policy \<Rightarrow> unseal_with_no_policy T public priv_bytes))))"

section \<open>A register's value\<close>

definition hex_encode :: "u8 list \<Rightarrow> str" where
  "hex_encode bytes = hex_bytes bytes"

definition current_pcr7_hex :: "tpm_lib \<Rightarrow> str tpm_io" where
  "current_pcr7_hex T =
     bind_io (open_context T) (\<lambda>_.
     bind_io (pcr_selection_for T DEFAULT_PCRS) (\<lambda>slots.
     bind_io (ctx_err ''pcr_read on PCR7'' (ask (t_digests T) (Pcr_read slots))) (\<lambda>digests.
     case digests of
       [] \<Rightarrow> fail_io (Msg ''pcr_read returned no digests'')
     | d # _ \<Rightarrow> return_io (hex_encode d))))"

end
