(* ===== verification/Tpm_Safety.thy ===== *)
theory Tpm_Safety
  imports Tpm_Calls
begin

text \<open>
  What holds of the calls into the TPM whatever the TPM and its library answer: a key sealed under PCRs
  has no password, and a blob that names PCRs is unsealed only under a session that was given these
  PCRs. With the TPM's own law, what was sealed comes back.
\<close>

section \<open>What happened\<close>

text \<open>\<open>happened f c q r l\<close>: in the log there is the call, made with the session, and it was answered so.\<close>

definition happened ::
  "(tpm_log \<Rightarrow> ('a, any_error) result) \<Rightarrow> tpm_call \<Rightarrow> nat option \<Rightarrow> 'a \<Rightarrow> tpm_log \<Rightarrow> bool"
where
  "happened f c q r l \<longleftrightarrow> (\<exists>p. prefix (p @ [(q, c)]) l \<and> f (p @ [(q, c)]) = Ok r)"

lemma happened_snoc: "happened f c q r (l @ [e]) \<longleftrightarrow> happened f c q r l \<or> e = (q, c) \<and> f (l @ [e]) = Ok r"
  by (auto simp: happened_def)

text \<open>Every call was allowed when it was made.\<close>

definition guarded :: "(tpm_log \<Rightarrow> nat option \<times> tpm_call \<Rightarrow> bool) \<Rightarrow> tpm_log \<Rightarrow> bool" where
  "guarded G l \<longleftrightarrow> (\<forall>p e. prefix (p @ [e]) l \<longrightarrow> G p e)"

lemma guarded_snoc: "guarded G (l @ [e]) \<longleftrightarrow> guarded G l \<and> G l e"
  unfolding guarded_def prefix_snoc by (metis append1_eq_conv)

lemma guarded_Nil [simp]: "guarded G []"
  by (simp add: guarded_def)

definition grows :: "(tpm_log \<Rightarrow> bool) \<Rightarrow> bool" where
  "grows F \<longleftrightarrow> (\<forall>l e. F l \<longrightarrow> F (l @ [e]))"

lemma grows_rules [simp, intro]:
  "grows (happened f c q r)" "grows (\<lambda>_. b)" "grows F \<Longrightarrow> grows F' \<Longrightarrow> grows (\<lambda>l. F l \<and> F' l)"
  by (auto simp: grows_def happened_snoc)

lemma grows_ex [simp, intro]: "(\<And>x. grows (K x)) \<Longrightarrow> grows (\<lambda>l. \<exists>x. K x l)"
  unfolding grows_def by blast

definition seen :: "nat option \<Rightarrow> (tpm_log \<Rightarrow> nat option \<times> tpm_call \<Rightarrow> bool) \<Rightarrow> (tpm_log \<Rightarrow> bool) \<Rightarrow> tpm_ctx \<Rightarrow> bool" where
  "seen S G F x \<longleftrightarrow> cx_session x = S \<and> guarded G (cx_log x) \<and> F (cx_log x)"

definition sound :: "(tpm_log \<Rightarrow> nat option \<times> tpm_call \<Rightarrow> bool) \<Rightarrow> tpm_ctx \<Rightarrow> bool" where
  "sound G x \<longleftrightarrow> guarded G (cx_log x)"

lemma seen_sound [simp]: "seen S G F x \<Longrightarrow> sound G x"
  by (simp add: seen_def sound_def)

lemma triple_ask:
  assumes "grows F" "\<And>l. F l \<Longrightarrow> G l (S, c)"
  shows "triple (seen S G F) (ask f c) (\<lambda>r. seen S G (\<lambda>l. F l \<and> happened f c S r l)) (seen S G F)"
proof (rule tripleI)
  fix x assume x: "seen S G F x"
  let ?l = "cx_log x @ [(S, c)]"
  have "guarded G ?l" "F ?l" using x assms by (auto simp: seen_def guarded_snoc grows_def)
  then show "post (\<lambda>r. seen S G (\<lambda>l. F l \<and> happened f c S r l)) (seen S G F) (fst (ask f c x)) (snd (ask f c x))"
    using x by (cases "f ?l") (auto simp: ask_def seen_def happened_snoc Let_def)
qed

lemma triple_set_session: "triple (seen S G F) (set_session S') (\<lambda>_. seen S' G F) E"
  unfolding set_session_def by (rule triple_modify) (simp add: seen_def)

lemma triple_finally:
  assumes "triple P m Q E" "\<And>x. triple (Q x) f (\<lambda>_. Q' x) E'" "triple E f (\<lambda>_. E') E'" "\<And>s. E s \<Longrightarrow> E' s"
  shows "triple P (finally_io m f) Q' E'"
proof (rule tripleI)
  fix s assume P: "P s"
  obtain r s' where m: "m s = (r, s')" by (cases "m s")
  have p: "post Q E r s'" by (rule tripleD [OF assms(1) P m])
  obtain r2 s2 where f: "f s' = (r2, s2)" by (cases "f s'")
  have "post (\<lambda>_. Q' x) E' r2 s2" if "r = Ok x" for x
    by (rule tripleD [OF assms(2) _ f]) (use p that in simp)
  moreover have "post (\<lambda>_. E') E' r2 s2" if "E s'"
    by (rule tripleD [OF assms(3) that f])
  ultimately show "post Q' E' (fst (finally_io m f s)) (snd (finally_io m f s))"
    using p assms(4) by (cases r; cases r2) (simp_all add: finally_io_def bind_io_def result_io_def m f)
qed

text \<open>The guards below look at two calls only: the one that seals and the one that unseals.\<close>

fun idle_call :: "tpm_call \<Rightarrow> bool" where
  "idle_call (Unseal _) \<longleftrightarrow> False"
| "idle_call (Create _ _ _) \<longleftrightarrow> False"
| "idle_call _ \<longleftrightarrow> True"

definition lax :: "(tpm_log \<Rightarrow> nat option \<times> tpm_call \<Rightarrow> bool) \<Rightarrow> bool" where
  "lax G \<longleftrightarrow> (\<forall>l q c. idle_call c \<longrightarrow> G l (q, c))"

lemma triple_idle:
  assumes "lax G" "grows F" "idle_call c"
  shows "triple (seen S G F) (ask f c) (\<lambda>r. seen S G (\<lambda>l. F l \<and> happened f c S r l)) (sound G)"
  by (rule triple_conseq [OF triple_ask]) (use assms in \<open>auto simp: lax_def\<close>)

lemma seen_weaken: "seen S G F x \<Longrightarrow> (\<And>l. F l \<Longrightarrow> F' l) \<Longrightarrow> seen S G F' x"
  by (simp add: seen_def)

lemma triple_ctx_err: "triple P m Q E \<Longrightarrow> triple P (ctx_err msg m) Q E"
  unfolding ctx_err_def by (rule triple_map_err)

lemma triple_flush:
  assumes "lax G" "grows F"
  shows "triple (seen S G F) (flush T h) (\<lambda>_. seen S G F) (seen S G F)"
  unfolding flush_def ignore_io_def
  by (rule triple_match [OF triple_ask]) (use assms in \<open>auto simp: lax_def seen_def intro!: triple_return\<close>)

lemma sound_flush:
  assumes "lax G"
  shows "triple (sound G) (flush T h) (\<lambda>_. sound G) (sound G)"
proof (rule tripleI)
  fix x assume "sound G x"
  then have "seen (cx_session x) G (\<lambda>_. True) x" by (simp add: seen_def sound_def)
  moreover obtain r x' where f: "flush T h x = (r, x')" by (cases "flush T h x")
  ultimately have "post (\<lambda>_. seen (cx_session x) G (\<lambda>_. True)) (seen (cx_session x) G (\<lambda>_. True)) r x'"
    by (intro tripleD [OF triple_flush [OF assms] _ f]) auto
  then show "post (\<lambda>_. sound G) (sound G) (fst (flush T h x)) (snd (flush T h x))"
    by (cases r) (simp_all add: f)
qed

text \<open>A session that was started, and whose parameters are encrypted.\<close>

definition started :: "tpm_lib \<Rightarrow> session_kind \<Rightarrow> nat \<Rightarrow> tpm_log \<Rightarrow> bool" where
  "started T kind s l \<longleftrightarrow> (\<exists>q. happened (t_session T) (Start_session kind) q (Some s) l)
     \<and> (\<exists>q. happened (t_unit T) (Set_attributes s) q () l)"

definition given_pcrs :: "tpm_lib \<Rightarrow> nat \<Rightarrow> pcr_slot list \<Rightarrow> tpm_log \<Rightarrow> bool" where
  "given_pcrs T s slots l \<longleftrightarrow> (\<exists>q. happened (t_unit T) (Policy_pcr s slots) q () l)"

lemma grows_facts [simp, intro]: "grows (started T kind s)" "grows (given_pcrs T s slots)"
  by (auto simp: started_def [abs_def] given_pcrs_def [abs_def])

lemma triple_start:
  assumes "lax G" "grows F"
  shows "triple (seen S G F) (start_session T kind a b c) (\<lambda>s. seen S G (\<lambda>l. F l \<and> started T kind s l)) (sound G)"
  unfolding start_session_def
proof (rule triple_bind [OF triple_ctx_err [OF triple_idle [OF assms]]])
  fix s
  let ?F = "\<lambda>l. F l \<and> happened (t_session T) (Start_session kind) S s l"
  have g: "grows ?F" using assms(2) by simp
  show "triple (seen S G ?F) (case s of None \<Rightarrow> fail_io (Msg b)
      | Some s \<Rightarrow> bind_io (ctx_err c (ask (t_unit T) (Set_attributes s))) (\<lambda>_. return_io s))
      (\<lambda>s. seen S G (\<lambda>l. F l \<and> started T kind s l)) (sound G)"
  proof (cases s)
    case (Some h)
    show ?thesis
      unfolding Some option.case
      by (rule triple_bind [OF triple_ctx_err [OF triple_idle [OF assms(1) g [unfolded Some]]]], simp, rule triple_return)
        (auto simp: started_def elim!: seen_weaken)
  qed (auto intro: triple_fail)
qed simp

lemma triple_policy_pcr:
  assumes "lax G" "grows F"
  shows "triple (seen S G F) (policy_pcr T a b s slots) (\<lambda>_. seen S G (\<lambda>l. F l \<and> given_pcrs T s slots l)) (sound G)"
  unfolding policy_pcr_def
  by (rule triple_bind [OF triple_map_err [OF triple_idle [OF assms]]], simp,
      rule triple_conseq [OF triple_ctx_err [OF triple_idle [OF assms(1)]]])
    (use assms(2) in \<open>auto simp: given_pcrs_def elim!: seen_weaken\<close>)

lemma triple_selection:
  assumes "lax G" "grows F"
  shows "triple (seen S G F) (pcr_selection_for T pcrs) (\<lambda>slots x. pcr_slots pcrs = (Ok slots :: (_, any_error) result) \<and> seen S G F x) (sound G)"
  unfolding pcr_selection_for_def
proof (rule triple_bind [where R = "\<lambda>slots x. pcr_slots pcrs = (Ok slots :: (_, any_error) result) \<and> seen S G F x"])
  show "triple (seen S G F) (result_io (pcr_slots pcrs) :: pcr_slot list tpm_io) (\<lambda>slots x. pcr_slots pcrs = (Ok slots :: (_, any_error) result) \<and> seen S G F x) (sound G)"
    by (rule triple_result) auto
  show "triple (\<lambda>x. pcr_slots pcrs = (Ok slots :: (_, any_error) result) \<and> seen S G F x)
      (bind_io (ctx_err ''building PCR selection'' (ask (t_unit T) (Build_selection slots))) (\<lambda>_. return_io slots))
      (\<lambda>slots x. pcr_slots pcrs = (Ok slots :: (_, any_error) result) \<and> seen S G F x) (sound G)" for slots
    by (rule triple_pure, rule triple_bind [OF triple_ctx_err [OF triple_idle [OF assms]]])
      (auto intro!: triple_return elim!: seen_weaken)
qed

lemma triple_primary:
  assumes "lax G" "grows F"
  shows "triple (seen S G F) (create_primary T msg) (\<lambda>_. seen S G F) (sound G)"
  unfolding create_primary_def
  by (rule triple_bind [OF triple_ctx_err [OF triple_idle [OF assms]]], simp,
      rule triple_conseq [OF triple_ctx_err [OF triple_idle [OF assms(1)]]])
    (use assms(2) in \<open>auto elim!: seen_weaken\<close>)

section \<open>Unsealing\<close>

text \<open>
  A PCR blob is unsealed under a policy session that was given the blob's registers, one without a policy
  under an HMAC session; both with encrypted parameters.
\<close>

definition unseal_guard :: "tpm_lib \<Rightarrow> seal_policy \<Rightarrow> tpm_log \<Rightarrow> nat option \<times> tpm_call \<Rightarrow> bool" where
  "unseal_guard T policy l e \<longleftrightarrow> (\<forall>ob. snd e = Unseal ob \<longrightarrow> (\<exists>s. fst e = Some s
     \<and> (case policy of
          Pcrs pcrs \<Rightarrow> started T Policy s l \<and> given_pcrs T s (map (\<lambda>p. Slot (unat p)) pcrs) l
        | No_policy \<Rightarrow> started T Hmac s l)))"

lemma unseal_guard_lax: "lax (unseal_guard T policy)"
  by (auto simp: lax_def unseal_guard_def)

lemma triple_load:
  assumes "lax G" "grows F"
  shows "triple (seen S G F) (load_sealed T primary private public) (\<lambda>_. seen S G F) (sound G)"
  unfolding load_sealed_def
  by (rule triple_conseq [OF triple_ctx_err [OF triple_idle [OF assms]]]) (auto elim!: seen_weaken)

lemma sound_set: "triple (sound G) (set_session S') (\<lambda>_. sound G) E"
  unfolding set_session_def by (rule triple_modify) (simp add: sound_def)

lemma triple_unseal:
  assumes "\<And>l. F l \<Longrightarrow> unseal_guard T policy l (S, Unseal ob)" "grows F"
  shows "triple (seen S (unseal_guard T policy) F) (ctx_err msg (ask f (Unseal ob)))
    (\<lambda>_. sound (unseal_guard T policy)) (sound (unseal_guard T policy))"
  by (rule triple_conseq [OF triple_ctx_err [OF triple_ask]]) (use assms in auto)

lemma pcr_attempt_guarded:
  fixes pcrs T
  defines "G \<equiv> unseal_guard T (Pcrs pcrs)" and "F \<equiv> \<lambda>h p l. started T Hmac h l \<and> started T Policy p l"
  assumes "slots = map (\<lambda>p. Slot (unat p)) pcrs"
  shows "triple (seen S G (F h p)) (pcr_unseal_attempt T slots h p public private) (\<lambda>_. sound G) (sound G)"
proof -
  have lax: "lax G" by (simp add: G_def unseal_guard_lax)
  have g: "grows (F h p)" "grows (\<lambda>l. F h p l \<and> given_pcrs T p slots l)" by (simp_all add: F_def)
  have unseal: "triple (seen (Some p) G (\<lambda>l. F h p l \<and> given_pcrs T p slots l)) (ctx_err msg (ask (t_bytes T) (Unseal ob)))
      (\<lambda>_. sound G) (sound G)" for msg ob
    unfolding G_def by (rule triple_unseal) (use g(2) assms(3) in \<open>auto simp: unseal_guard_def F_def\<close>)
  have flush: "triple (sound G) (bind_io (set_session S') (\<lambda>_. bind_io (flush T a) (\<lambda>_. bind_io (flush T b) (\<lambda>_. result_io r))))
      (\<lambda>_. sound G) (sound G)" for a b S' and r :: "(u8 list, any_error) result"
    by (rule triple_bind [OF sound_set triple_bind [OF sound_flush [OF lax] triple_bind [OF sound_flush [OF lax] triple_result]]])
  show ?thesis
    unfolding pcr_unseal_attempt_def
    by (rule triple_bind [OF triple_set_session triple_bind [OF triple_primary [OF lax g(1)] triple_bind [OF triple_load [OF lax g(1)]
          triple_bind [OF triple_policy_pcr [OF lax g(1)] triple_bind [OF triple_set_session triple_bind [OF unseal flush]]]]]])
qed

lemma plain_attempt_guarded:
  fixes T
  defines "G \<equiv> unseal_guard T No_policy"
  shows "triple (seen S G (started T Hmac h)) (plain_unseal_attempt T h public private) (\<lambda>_. sound G) (sound G)"
proof -
  have lax: "lax G" by (simp add: G_def unseal_guard_lax)
  have g: "grows (started T Hmac h)" by simp
  have unseal: "triple (seen (Some h) G (started T Hmac h)) (ctx_err msg (ask (t_bytes T) (Unseal ob)))
      (\<lambda>_. sound G) (sound G)" for msg ob
    unfolding G_def by (rule triple_unseal) (auto simp: unseal_guard_def)
  have flush: "triple (sound G) (bind_io (flush T a) (\<lambda>_. bind_io (flush T b) (\<lambda>_. result_io r)))
      (\<lambda>_. sound G) (sound G)" for a b and r :: "(u8 list, any_error) result"
    by (rule triple_bind [OF sound_flush [OF lax] triple_bind [OF sound_flush [OF lax] triple_result]])
  show ?thesis
    unfolding plain_unseal_attempt_def
    by (rule triple_bind [OF triple_set_session triple_bind [OF triple_primary [OF lax g] triple_bind [OF triple_load [OF lax g]
          triple_bind [OF unseal flush]]]])
qed

lemma pcr_unseal_guarded:
  assumes "valid_pcrs pcrs"
  shows "triple (seen S (unseal_guard T (Pcrs pcrs)) (\<lambda>_. True)) (unseal_with_pcr_policy T pcrs public private)
    (\<lambda>_. sound (unseal_guard T (Pcrs pcrs))) (sound (unseal_guard T (Pcrs pcrs)))"
proof -
  let ?G = "unseal_guard T (Pcrs pcrs)"
  note lax = unseal_guard_lax [of T "Pcrs pcrs"]
  have "pcr_slots pcrs = (Ok (map (\<lambda>p. Slot (unat p)) pcrs) :: (_, any_error) result)"
    by (rule pcr_slots_small) (use assms in \<open>simp add: valid_pcrs_def\<close>)
  then have slots: "pcr_slots pcrs = (Ok slots :: (_, any_error) result) \<Longrightarrow> slots = map (\<lambda>p. Slot (unat p)) pcrs" for slots
    by simp
  have clean: "triple (sound ?G) (bind_io (flush T h) (\<lambda>_. flush T h')) (\<lambda>_. sound ?G) (sound ?G)" for h h'
    by (rule triple_bind [OF sound_flush [OF lax] sound_flush [OF lax]])
  have tail: "triple (seen S ?G (\<lambda>_. True)) (bind_io (start_hmac_session T) (\<lambda>hmac.
      bind_io (start_policy_session T) (\<lambda>policy. finally_io (pcr_unseal_attempt T slots hmac policy public private)
       (bind_io (flush T (Session policy)) (\<lambda>_. flush T (Session hmac)))))) (\<lambda>_. sound ?G) (sound ?G)"
    if "pcr_slots pcrs = (Ok slots :: (_, any_error) result)" for slots
    unfolding start_hmac_session_def start_policy_session_def
    by (rule triple_bind [OF triple_start [OF lax] triple_bind [OF triple_start [OF lax]
          triple_finally [OF triple_conseq [OF pcr_attempt_guarded [OF slots [OF that]]] clean clean]]]) auto
  show ?thesis
    unfolding unseal_with_pcr_policy_def
    by (rule triple_bind [OF triple_selection [OF lax] triple_pure [OF tail]]) simp_all
qed

lemma plain_unseal_guarded:
  "triple (seen S (unseal_guard T No_policy) (\<lambda>_. True)) (unseal_with_no_policy T public private)
    (\<lambda>_. sound (unseal_guard T No_policy)) (sound (unseal_guard T No_policy))"
proof -
  note lax = unseal_guard_lax [of T No_policy]
  show ?thesis
    unfolding unseal_with_no_policy_def start_hmac_session_def
    by (rule triple_bind [OF triple_start [OF lax] triple_finally [OF triple_conseq [OF plain_attempt_guarded]
          sound_flush [OF lax] sound_flush [OF lax]]]) auto
qed

text \<open>
  Claim C12. A key sealed to registers is unsealed by these registers only: whatever the TPM answers, however
  the run ends and for every sealed file, the command that unseals is given a session the TPM started as
  a policy session, with encrypted parameters, and on which \<open>PolicyPCR\<close> succeeded with exactly the
  registers the file names; for a file without a policy it is given an encrypted HMAC session.
\<close>

theorem unsealed_under_policy:
  assumes "policy_of_blob blob = Ok policy" "unseal_key T blob new_ctx = (r, x)"
  shows "guarded (unseal_guard T policy) (cx_log x)"
proof -
  let ?G = "unseal_guard T policy"
  note lax = unseal_guard_lax [of T policy]
  obtain p q where d: "deserialize_blob blob = Ok (policy, p, q)"
    using assms(1) by (auto simp: policy_of_blob_def result_simps)
  have "policy_ok policy" by (rule deserialized_policy [OF d])
  then have fin: "triple (seen S ?G (\<lambda>_. True)) (case policy of
       Pcrs pcrs \<Rightarrow> unseal_with_pcr_policy T pcrs pub prv
     | No_policy \<Rightarrow> unseal_with_no_policy T pub prv) (\<lambda>_. sound ?G) (sound ?G)" for S pub prv
    using pcr_unseal_guarded plain_unseal_guarded by (cases policy) (simp_all add: policy_ok_def)
  have run: "triple (seen None ?G (\<lambda>_. True))
     (bind_io (ctx_err ''unmarshalling stored sealed Public'' (ask (t_bytes T) (Unmarshall p))) (\<lambda>public.
      bind_io (map_err_io (\<lambda>_. Msg ''rebuilding Private from blob bytes'') (ask (t_unit T) (To_private q))) (\<lambda>_.
      bind_io (open_context T) (\<lambda>_. case policy of
       Pcrs pcrs \<Rightarrow> unseal_with_pcr_policy T pcrs public q
     | No_policy \<Rightarrow> unseal_with_no_policy T public q)))) (\<lambda>_. sound ?G) (sound ?G)"
    unfolding open_context_def
    by (rule triple_bind [OF triple_conseq [OF triple_ctx_err [OF triple_idle [OF lax]]]
          triple_bind [OF triple_conseq [OF triple_map_err [OF triple_idle [OF lax]]]
          triple_bind [OF triple_conseq [OF triple_ctx_err [OF triple_idle [OF lax]]] fin]]])
      (auto elim!: seen_weaken)
  have "post (\<lambda>_. sound ?G) (sound ?G) r x"
  proof (rule tripleD [OF run])
    show "seen None ?G (\<lambda>_. True) new_ctx" by (simp add: seen_def new_ctx_def)
  qed (use assms(2) in \<open>simp add: unseal_key_def d bind_io_def [of "result_io (Ok (policy, p, q))"] result_io_def\<close>)
  then show ?thesis by (cases r) (simp_all add: sound_def)
qed

section \<open>Sealing\<close>

text \<open>What was created with the key, and how it was marshalled.\<close>

definition made :: "tpm_lib \<Rightarrow> u8 list \<Rightarrow> u8 list \<Rightarrow> u8 list \<Rightarrow> tpm_log \<Rightarrow> bool" where
  "made T key pub_bytes priv_bytes l \<longleftrightarrow> (\<exists>par t q q' pub. happened (t_created T) (Create par t key) q (pub, priv_bytes) l
     \<and> happened (t_bytes T) (Marshall pub) q' pub_bytes l)"

lemma madeI: "happened (t_created T) (Create par t key) q (pub, prv) l \<Longrightarrow> happened (t_bytes T) (Marshall pub) q' pb l \<Longrightarrow> made T key pb prv l"
  unfolding made_def by blast

lemma grows_made [simp, intro]: "grows (made T key pb prv)"
  by (auto simp: made_def [abs_def])

lemma triple_seal_attempt:
  assumes "lax G" "grows F" "\<And>l par. F l \<Longrightarrow> G l (Some h, Create par t key)"
  shows "triple (seen S G F) (seal_attempt T key h t)
    (\<lambda>p. seen (Some h) G (\<lambda>l. F l \<and> made T key (fst p) (snd p) l)) (sound G)"
proof -
  note lax = assms(1) and gr = assms(2)
  have idle: "triple (seen (Some h) G F') (ctx_err m (ask f c)) (\<lambda>_. seen (Some h) G F') (sound G)"
    "triple (seen (Some h) G F') (map_err_io g (ask f c)) (\<lambda>_. seen (Some h) G F') (sound G)"
    if "grows F'" "idle_call c" for m c F' and g :: "any_error \<Rightarrow> any_error" and f :: "tpm_log \<Rightarrow> ('b, any_error) result"
    by (rule triple_conseq [OF triple_ctx_err [OF triple_idle [OF lax that]]]
        triple_conseq [OF triple_map_err [OF triple_idle [OF lax that]]]; auto elim!: seen_weaken)+
  have create: "triple (seen (Some h) G F) (ctx_err m (ask (t_created T) (Create par t key)))
      (\<lambda>p. seen (Some h) G (\<lambda>l. F l \<and> happened (t_created T) (Create par t key) (Some h) p l)) (sound G)" for m par
    by (rule triple_conseq [OF triple_ctx_err [OF triple_ask]]) (use gr assms(3) in auto)
  have rest: "triple (seen (Some h) G (\<lambda>l. F l \<and> happened (t_created T) (Create par t key) (Some h) p l))
      (case p of (public, prv) \<Rightarrow> bind_io (ctx_err m (ask (t_bytes T) (Marshall public))) (\<lambda>pub_bytes.
         bind_io (flush T (Object par)) (\<lambda>_. return_io (pub_bytes, prv))))
      (\<lambda>p. seen (Some h) G (\<lambda>l. F l \<and> made T key (fst p) (snd p) l)) (sound G)" for m par p
  proof (cases p)
    case (Pair public prv)
    let ?F = "\<lambda>l. F l \<and> happened (t_created T) (Create par t key) (Some h) (public, prv) l"
    have g: "grows ?F" using gr by simp
    have fl: "triple (seen (Some h) G (\<lambda>l. ?F l \<and> happened (t_bytes T) (Marshall public) (Some h) pb l)) (flush T (Object par))
        (\<lambda>_. seen (Some h) G (\<lambda>l. ?F l \<and> happened (t_bytes T) (Marshall public) (Some h) pb l)) (sound G)" for pb
      by (rule triple_conseq [OF triple_flush [OF lax]]) (use gr in auto)
    show ?thesis
      unfolding Pair prod.case
      by (rule triple_bind [OF triple_ctx_err [OF triple_idle [OF lax g]] triple_bind [OF fl triple_return]])
        (auto intro: madeI elim!: seen_weaken)
  qed
  show ?thesis
    unfolding seal_attempt_def
    by (rule triple_bind [OF triple_set_session triple_bind [OF triple_primary [OF lax gr] triple_bind [OF idle(1) [OF gr]
          triple_bind [OF idle(2) [OF gr] triple_bind [OF create rest]]]]]) simp_all
qed

lemma seal_finish:
  assumes "lax G" "grows F"
    "triple (seen S G F') m (\<lambda>p. seen S' G (\<lambda>l. F l \<and> made T key (fst p) (snd p) l)) (sound G)"
  shows "triple (seen S G F') (bind_io (finally_io m (flush T h)) (\<lambda>(pub_bytes, priv_bytes). return_io (serialize_blob policy pub_bytes priv_bytes)))
    (\<lambda>blob x. sound G x \<and> (\<exists>pb prv. blob = serialize_blob policy pb prv \<and> made T key pb prv (cx_log x))) (sound G)"
proof (rule triple_bind [OF triple_finally [OF assms(3)]])
  show "triple (seen S' G (\<lambda>l. F l \<and> made T key (fst p) (snd p) l)) (flush T h)
      (\<lambda>_. seen S' G (\<lambda>l. F l \<and> made T key (fst p) (snd p) l)) (sound G)" for p
    by (rule triple_conseq [OF triple_flush [OF assms(1)]]) (use assms(2) in auto)
  show "triple (sound G) (flush T h) (\<lambda>_. sound G) (sound G)" by (rule sound_flush [OF assms(1)])
  show "triple (seen S' G (\<lambda>l. F l \<and> made T key (fst p) (snd p) l))
      (case p of (pub_bytes, priv_bytes) \<Rightarrow> return_io (serialize_blob policy pub_bytes priv_bytes))
      (\<lambda>blob x. sound G x \<and> (\<exists>pb prv. blob = serialize_blob policy pb prv \<and> made T key pb prv (cx_log x))) (sound G)" for p
    unfolding prod.case_eq_if by (rule triple_return) (auto simp: seen_def sound_def)
qed

text \<open>
  The object that holds a key sealed under registers: tied to this TPM, no password, and as its policy the
  digest the TPM computed, on a trial session, of exactly these registers.
\<close>

definition policy_only :: "tpm_lib \<Rightarrow> pcr_slot list \<Rightarrow> sealed_template \<Rightarrow> tpm_log \<Rightarrow> bool" where
  "policy_only T slots t l \<longleftrightarrow> fixed_tpm t \<and> fixed_parent t \<and> admin_with_policy t \<and> \<not> user_with_auth t
     \<and> (\<exists>trial d. auth_policy t = Some d \<and> started T Trial trial l \<and> given_pcrs T trial slots l
          \<and> (\<exists>q. happened (t_bytes T) (Get_digest trial) q d l))"

definition seal_guard :: "tpm_lib \<Rightarrow> seal_policy \<Rightarrow> u8 list \<Rightarrow> tpm_log \<Rightarrow> nat option \<times> tpm_call \<Rightarrow> bool" where
  "seal_guard T policy key l e \<longleftrightarrow> (\<forall>par t data. snd e = Create par t data \<longrightarrow> data = key
     \<and> (\<exists>h. fst e = Some h \<and> started T Hmac h l)
     \<and> (case policy of Pcrs pcrs \<Rightarrow> policy_only T (map (\<lambda>p. Slot (unat p)) pcrs) t l | No_policy \<Rightarrow> fixed_tpm t \<and> fixed_parent t))"

lemma seal_guard_lax: "lax (seal_guard T policy key)"
  by (auto simp: lax_def seal_guard_def)

definition digest_of :: "tpm_lib \<Rightarrow> pcr_slot list \<Rightarrow> u8 list \<Rightarrow> tpm_log \<Rightarrow> bool" where
  "digest_of T slots d l \<longleftrightarrow> (\<exists>trial. started T Trial trial l \<and> given_pcrs T trial slots l
     \<and> (\<exists>q. happened (t_bytes T) (Get_digest trial) q d l))"

lemma grows_digest [simp, intro]: "grows (digest_of T slots d)"
  by (auto simp: digest_of_def [abs_def])

lemma triple_trial:
  assumes "lax G" "grows F"
  shows "triple (seen S G F) (trial_policy_pcr_digest T slots) (\<lambda>d. seen S G (\<lambda>l. F l \<and> digest_of T slots d l)) (sound G)"
proof -
  let ?F1 = "\<lambda>t l. F l \<and> started T Trial t l"
  let ?F2 = "\<lambda>t l. ?F1 t l \<and> given_pcrs T t slots l"
  let ?F3 = "\<lambda>t d l. ?F2 t l \<and> happened (t_bytes T) (Get_digest t) None d l"
  have g: "grows (?F1 t)" "grows (?F2 t)" "grows (?F3 t d)" for t d using assms(2) by simp_all
  have old: "triple (seen S G F) (get_io cx_session) (\<lambda>old x. old = S \<and> seen S G F x) (sound G)"
    by (simp add: triple_def get_io_def seen_def)
  have fl: "triple (seen None G (?F3 t d)) (flush T (Session t)) (\<lambda>_. seen None G (?F3 t d)) (sound G)" for t d
    by (rule triple_conseq [OF triple_flush [OF assms(1) g(3)]]) auto
  have fin: "triple (seen None G (?F3 t d)) (bind_io (set_session S) (\<lambda>_. return_io d))
      (\<lambda>d. seen S G (\<lambda>l. F l \<and> digest_of T slots d l)) (sound G)" for t d
    by (rule triple_bind [OF triple_set_session triple_return]) (auto simp: digest_of_def elim!: seen_weaken)
  show ?thesis
    unfolding trial_policy_pcr_digest_def
    by (rule triple_bind [OF old triple_pure], hypsubst,
        rule triple_bind [OF triple_set_session triple_bind [OF triple_start [OF assms]
          triple_bind [OF triple_policy_pcr [OF assms(1) g(1)]
          triple_bind [OF triple_ctx_err [OF triple_idle [OF assms(1) g(2)]] triple_bind [OF fl fin]]]]])
      simp
qed

text \<open>Both ways of sealing, with what they leave in the log.\<close>

lemma triple_seal_pcrs:
  defines "G \<equiv> \<lambda>T key pcrs. seal_guard T (Pcrs pcrs) key"
  shows "triple (seen S (G T key pcrs) (\<lambda>_. True)) (seal_key_with_pcrs T key pcrs)
    (\<lambda>blob x. sound (G T key pcrs) x \<and> (\<exists>pb prv. blob = serialize_blob (Pcrs pcrs) pb prv \<and> made T key pb prv (cx_log x)))
    (sound (G T key pcrs))"
proof -
  let ?G = "G T key pcrs"
  have lax: "lax ?G" by (simp add: G_def seal_guard_lax)
  let ?s = "map (\<lambda>p. Slot (unat p)) pcrs"
  have valid: "triple (seen S ?G (\<lambda>_. True)) (result_io (validate_pcrs pcrs)) (\<lambda>_ x. valid_pcrs pcrs \<and> seen S ?G (\<lambda>_. True) x) (sound ?G)"
    by (rule triple_result) (auto simp: validate_pcrs_Ok)
  have opened: "triple (seen S ?G (\<lambda>_. True)) (open_context T) (\<lambda>_. seen S ?G (\<lambda>_. True)) (sound ?G)"
    unfolding open_context_def
    by (rule triple_conseq [OF triple_ctx_err [OF triple_idle [OF lax]]]) (auto elim!: seen_weaken)
  have rest: "triple (seen S ?G (\<lambda>_. True)) (bind_io (trial_policy_pcr_digest T slots) (\<lambda>policy_digest.
     bind_io (start_hmac_session T) (\<lambda>hmac.
     bind_io (finally_io (seal_attempt T key hmac (sealed_object_template policy_digest)) (flush T (Session hmac)))
       (\<lambda>(pub_bytes, priv_bytes). return_io (serialize_blob (Pcrs pcrs) pub_bytes priv_bytes)))))
     (\<lambda>blob x. sound ?G x \<and> (\<exists>pb prv. blob = serialize_blob (Pcrs pcrs) pb prv \<and> made T key pb prv (cx_log x))) (sound ?G)"
    if "valid_pcrs pcrs" "pcr_slots pcrs = (Ok slots :: (_, any_error) result)" for slots
  proof -
    have "pcr_slots pcrs = (Ok ?s :: (_, any_error) result)"
      by (rule pcr_slots_small) (use that(1) in \<open>simp add: valid_pcrs_def\<close>)
    with that(2) have slots: "slots = ?s" by simp
    let ?F = "\<lambda>d h l. (True \<and> digest_of T slots d l) \<and> started T Hmac h l"
    have allowed: "?F d h l \<Longrightarrow> ?G l (Some h, Create par (sealed_object_template d) key)" for d h l par
      by (auto simp: G_def seal_guard_def policy_only_def digest_of_def sealed_object_template_def slots)
    have attempt: "triple (seen S ?G (?F d h)) (seal_attempt T key h (sealed_object_template d))
        (\<lambda>p. seen (Some h) ?G (\<lambda>l. ?F d h l \<and> made T key (fst p) (snd p) l)) (sound ?G)" for d h
      by (rule triple_seal_attempt [OF lax _ allowed]) auto
    show ?thesis
      unfolding start_hmac_session_def
      by (rule triple_bind [OF triple_trial [OF lax] triple_bind [OF triple_start [OF lax] seal_finish [OF lax _ attempt]]]) auto
  qed
  show ?thesis
    unfolding seal_key_with_pcrs_def
    by (rule triple_bind [OF valid triple_pure], rule triple_bind [OF opened triple_bind [OF triple_selection [OF lax] triple_pure [OF rest]]]) auto
qed

lemma triple_seal_plain:
  defines "G \<equiv> \<lambda>T key. seal_guard T No_policy key"
  shows "triple (seen S (G T key) (\<lambda>_. True)) (seal_key_no_policy T key)
    (\<lambda>blob x. sound (G T key) x \<and> (\<exists>pb prv. blob = serialize_blob No_policy pb prv \<and> made T key pb prv (cx_log x)))
    (sound (G T key))"
proof -
  let ?G = "G T key"
  have lax: "lax ?G" by (simp add: G_def seal_guard_lax)
  have opened: "triple (seen S ?G (\<lambda>_. True)) (open_context T) (\<lambda>_. seen S ?G (\<lambda>_. True)) (sound ?G)"
    unfolding open_context_def
    by (rule triple_conseq [OF triple_ctx_err [OF triple_idle [OF lax]]]) (auto elim!: seen_weaken)
  let ?F = "\<lambda>h l. True \<and> started T Hmac h l"
  have allowed: "?F h l \<Longrightarrow> ?G l (Some h, Create par sealed_object_template_no_policy key)" for h l par
    by (auto simp: G_def seal_guard_def sealed_object_template_no_policy_def)
  have attempt: "triple (seen S ?G (?F h)) (seal_attempt T key h sealed_object_template_no_policy)
      (\<lambda>p. seen (Some h) ?G (\<lambda>l. ?F h l \<and> made T key (fst p) (snd p) l)) (sound ?G)" for h
    by (rule triple_seal_attempt [OF lax _ allowed]) auto
  show ?thesis
    unfolding seal_key_no_policy_def start_hmac_session_def
    by (rule triple_bind [OF opened triple_bind [OF triple_start [OF lax] seal_finish [OF lax _ attempt]]]) auto
qed

lemma new_ctx_seen: "seen None G (\<lambda>_. True) new_ctx"
  by (simp add: seen_def new_ctx_def)


section \<open>What was sealed comes back\<close>

text \<open>What was unsealed from an object that was loaded with the two structures.\<close>

definition got :: "tpm_lib \<Rightarrow> u8 list \<Rightarrow> u8 list \<Rightarrow> u8 list \<Rightarrow> tpm_log \<Rightarrow> bool" where
  "got T pub prv k l \<longleftrightarrow> (\<exists>par q ob q'. happened (t_object T) (Load par prv pub) q ob l
     \<and> happened (t_bytes T) (Unseal ob) q' k l)"

lemma gotI: "happened (t_object T) (Load par prv pub) q ob l \<Longrightarrow> happened (t_bytes T) (Unseal ob) q' k l \<Longrightarrow> got T pub prv k l"
  unfolding got_def by blast

lemma grows_got [simp, intro]: "grows (got T pub prv k)"
  by (auto simp: got_def [abs_def])

abbreviation anything :: "tpm_log \<Rightarrow> nat option \<times> tpm_call \<Rightarrow> bool" where
  "anything \<equiv> \<lambda>_ _. True"

lemma lax_anything: "lax anything"
  by (simp add: lax_def)

lemma any_step:
  assumes "grows F"
  shows "triple (seen S anything F) (ctx_err m (ask f c)) (\<lambda>r. seen S anything (\<lambda>l. F l \<and> happened f c S r l)) (sound anything)"
  by (rule triple_conseq [OF triple_ctx_err [OF triple_ask]]) (use assms in auto)

lemma flush_keeps:
  assumes "grows F"
  shows "triple (seen S anything F) (flush T h) (\<lambda>_. seen S anything F) (sound anything)"
  by (rule triple_conseq [OF triple_flush [OF lax_anything]]) (use assms in auto)

text \<open>Both attempts end alike: the object is unsealed, two handles are flushed, the length is checked.\<close>

lemma unsealed_end:
  assumes "grows F"
  shows "triple (seen S anything (\<lambda>l. F l \<and> got T pub prv k l))
     (bind_io (flush T a) (\<lambda>_. bind_io (flush T b) (\<lambda>_. result_io (key_of_unsealed k))))
     (\<lambda>k' x. length k' = 16 \<and> seen S anything (\<lambda>l. F l \<and> got T pub prv k' l) x) (sound anything)"
  by (rule triple_bind [OF flush_keeps triple_bind [OF flush_keeps triple_result]])
    (use assms in \<open>auto simp: key_of_unsealed_def split: if_splits\<close>)

lemma pcr_attempt_gets:
  assumes "grows F"
  shows "triple (seen S anything F) (pcr_unseal_attempt T slots h p pub prv)
    (\<lambda>k x. length k = 16 \<and> seen (Some h) anything (\<lambda>l. F l \<and> got T pub prv k l) x) (sound anything)"
proof -
  let ?F1 = "\<lambda>par ob l. F l \<and> happened (t_object T) (Load par prv pub) (Some h) ob l"
  have g: "grows (?F1 par ob)" for par ob using assms by simp
  have pcr: "triple (seen S' anything (?F1 par ob)) (policy_pcr T m1 m2 p slots) (\<lambda>_. seen S' anything (?F1 par ob)) (sound anything)"
    for S' par ob m1 m2
    by (rule triple_conseq [OF triple_policy_pcr [OF lax_anything g]]) (auto elim!: seen_weaken)
  have rest: "triple (seen (Some p) anything (\<lambda>l. ?F1 par ob l \<and> happened (t_bytes T) (Unseal ob) (Some p) k l))
     (bind_io (set_session (Some h)) (\<lambda>_. bind_io (flush T a) (\<lambda>_. bind_io (flush T b) (\<lambda>_. result_io (key_of_unsealed k)))))
     (\<lambda>k x. length k = 16 \<and> seen (Some h) anything (\<lambda>l. F l \<and> got T pub prv k l) x) (sound anything)" for par ob k a b
    by (rule triple_bind [OF triple_set_session triple_conseq [OF unsealed_end [OF assms, of "Some h" T pub prv k]]])
      (auto intro: gotI elim!: seen_weaken)
  show ?thesis
    unfolding pcr_unseal_attempt_def load_sealed_def
    by (rule triple_bind [OF triple_set_session triple_bind [OF triple_primary [OF lax_anything assms]
          triple_bind [OF any_step [OF assms] triple_bind [OF pcr triple_bind [OF triple_set_session
          triple_bind [OF any_step [OF g] rest]]]]]])
qed

lemma plain_attempt_gets:
  assumes "grows F"
  shows "triple (seen S anything F) (plain_unseal_attempt T h pub prv)
    (\<lambda>k x. length k = 16 \<and> seen (Some h) anything (\<lambda>l. F l \<and> got T pub prv k l) x) (sound anything)"
proof -
  let ?F1 = "\<lambda>par ob l. F l \<and> happened (t_object T) (Load par prv pub) (Some h) ob l"
  have g: "grows (?F1 par ob)" for par ob using assms by simp
  have rest: "triple (seen (Some h) anything (\<lambda>l. ?F1 par ob l \<and> happened (t_bytes T) (Unseal ob) (Some h) k l))
     (bind_io (flush T a) (\<lambda>_. bind_io (flush T b) (\<lambda>_. result_io (key_of_unsealed k))))
     (\<lambda>k x. length k = 16 \<and> seen (Some h) anything (\<lambda>l. F l \<and> got T pub prv k l) x) (sound anything)" for par ob k a b
    by (rule triple_conseq [OF unsealed_end [OF assms, of "Some h" T pub prv k]]) (auto intro: gotI elim!: seen_weaken)
  show ?thesis
    unfolding plain_unseal_attempt_def load_sealed_def
    by (rule triple_bind [OF triple_set_session triple_bind [OF triple_primary [OF lax_anything assms]
          triple_bind [OF any_step [OF assms] triple_bind [OF any_step [OF g] rest]]]])
qed

lemma finally_gets:
  assumes "triple P m (\<lambda>k x. length k = 16 \<and> seen S anything (\<lambda>l. F l \<and> got T pub prv k l) x) (sound anything)" "grows F"
    "\<And>F. grows F \<Longrightarrow> triple (seen S anything F) f (\<lambda>_. seen S anything F) (sound anything)"
    "triple (sound anything) f (\<lambda>_. sound anything) (sound anything)"
  shows "triple P (finally_io m f) (\<lambda>k x. length k = 16 \<and> F (cx_log x) \<and> got T pub prv k (cx_log x)) (sound anything)"
proof (rule triple_finally [OF assms(1) _ assms(4)])
  fix k :: "u8 list"
  show "triple (\<lambda>x. length k = 16 \<and> seen S anything (\<lambda>l. F l \<and> got T pub prv k l) x) f
      (\<lambda>_ x. length k = 16 \<and> F (cx_log x) \<and> got T pub prv k (cx_log x)) (sound anything)"
    by (rule triple_pure, rule triple_conseq [OF assms(3) [of "\<lambda>l. F l \<and> got T pub prv k l"]])
      (use assms(2) in \<open>auto simp: seen_def\<close>)
qed simp

lemma unseal_gets:
  assumes "grows F"
  shows "triple (seen S anything F) (unseal_with_pcr_policy T pcrs pub prv)
      (\<lambda>k x. length k = 16 \<and> F (cx_log x) \<and> got T pub prv k (cx_log x)) (sound anything)"
    and "triple (seen S anything F) (unseal_with_no_policy T pub prv)
      (\<lambda>k x. length k = 16 \<and> F (cx_log x) \<and> got T pub prv k (cx_log x)) (sound anything)"
proof -
  have start: "triple (seen S' anything F) (start_session T kind a b c) (\<lambda>_. seen S' anything F) (sound anything)" for S' kind a b c
    by (rule triple_conseq [OF triple_start [OF lax_anything assms]]) (auto elim!: seen_weaken)
  note sf = sound_flush [OF lax_anything]
  have two: "triple (seen S' anything F') (bind_io (flush T a) (\<lambda>_. flush T b)) (\<lambda>_. seen S' anything F') (sound anything)"
    if "grows F'" for S' F' a b
    by (rule triple_bind [OF flush_keeps [OF that] flush_keeps [OF that]])
  have selected: "triple (seen S anything F) (pcr_selection_for T pcrs) (\<lambda>_. seen S anything F) (sound anything)"
    by (rule triple_conseq [OF triple_selection [OF lax_anything assms]]) auto
  show "triple (seen S anything F) (unseal_with_pcr_policy T pcrs pub prv)
      (\<lambda>k x. length k = 16 \<and> F (cx_log x) \<and> got T pub prv k (cx_log x)) (sound anything)"
    unfolding unseal_with_pcr_policy_def start_hmac_session_def start_policy_session_def
    by (rule triple_bind [OF selected triple_bind [OF start triple_bind [OF start
          finally_gets [OF pcr_attempt_gets [OF assms] assms two triple_bind [OF sf sf]]]]]) simp
  show "triple (seen S anything F) (unseal_with_no_policy T pub prv)
      (\<lambda>k x. length k = 16 \<and> F (cx_log x) \<and> got T pub prv k (cx_log x)) (sound anything)"
    unfolding unseal_with_no_policy_def start_hmac_session_def
    by (rule triple_bind [OF start finally_gets [OF plain_attempt_gets [OF assms] assms flush_keeps sf]]) simp
qed

definition read_back :: "tpm_lib \<Rightarrow> u8 list \<Rightarrow> u8 list \<Rightarrow> u8 list \<Rightarrow> tpm_log \<Rightarrow> bool" where
  "read_back T pub_bytes priv_bytes k l \<longleftrightarrow> (\<exists>q pub. happened (t_bytes T) (Unmarshall pub_bytes) q pub l \<and> got T pub priv_bytes k l)"

lemma unseal_key_reads:
  assumes "unseal_key T blob new_ctx = (Ok k, x)" "deserialize_blob blob = Ok (policy, pb, prv)"
  shows "length k = 16 \<and> read_back T pb prv k (cx_log x)"
proof -
  let ?F = "\<lambda>pub l. True \<and> happened (t_bytes T) (Unmarshall pb) None pub l"
  have g: "grows (?F pub)" for pub by simp
  have keep: "triple (seen None anything (?F pub)) (ctx_err m (ask f c)) (\<lambda>_. seen None anything (?F pub)) (sound anything)"
    "triple (seen None anything (?F pub)) (map_err_io h (ask f c)) (\<lambda>_. seen None anything (?F pub)) (sound anything)"
    if "idle_call c" for pub m c and f :: "tpm_log \<Rightarrow> (unit, any_error) result" and h :: "any_error \<Rightarrow> any_error"
    by (rule triple_conseq [OF triple_ctx_err [OF triple_idle [OF lax_anything g that]]]
        triple_conseq [OF triple_map_err [OF triple_idle [OF lax_anything g that]]]; auto elim!: seen_weaken)+
  have fin: "triple (seen None anything (?F pub)) (case policy of
       Pcrs pcrs \<Rightarrow> unseal_with_pcr_policy T pcrs pub prv
     | No_policy \<Rightarrow> unseal_with_no_policy T pub prv) (\<lambda>k x. length k = 16 \<and> read_back T pb prv k (cx_log x)) (sound anything)" for pub
    by (cases policy)
      (auto simp: read_back_def intro!: triple_conseq [OF unseal_gets(1) [OF g]] triple_conseq [OF unseal_gets(2) [OF g]])
  have "triple (seen None anything (\<lambda>_. True))
     (bind_io (ctx_err ''unmarshalling stored sealed Public'' (ask (t_bytes T) (Unmarshall pb))) (\<lambda>pub.
      bind_io (map_err_io (\<lambda>_. Msg ''rebuilding Private from blob bytes'') (ask (t_unit T) (To_private prv))) (\<lambda>_.
      bind_io (open_context T) (\<lambda>_. case policy of
       Pcrs pcrs \<Rightarrow> unseal_with_pcr_policy T pcrs pub prv
     | No_policy \<Rightarrow> unseal_with_no_policy T pub prv)))) (\<lambda>k x. length k = 16 \<and> read_back T pb prv k (cx_log x)) (sound anything)"
    unfolding open_context_def
    by (rule triple_bind [OF any_step triple_bind [OF keep(2) triple_bind [OF keep(1) fin]]]) simp_all
  from tripleD [OF this new_ctx_seen] assms show ?thesis
    by (simp add: unseal_key_def bind_io_def [of "result_io (Ok (policy, pb, prv))"] result_io_def)
qed

text \<open>
  What the TPM promises, over the run that sealed and the one that unseals: an object created with some
  data, marshalled, read again and loaded, unseals to these data if it unseals at all; and the two
  structures are within the size of the format.
\<close>

definition tpm_law :: "tpm_lib \<Rightarrow> tpm_lib \<Rightarrow> bool" where
  "tpm_law T T' \<longleftrightarrow> (\<forall>key pb prv l. made T key pb prv l \<longrightarrow> length pb \<le> MAX_FIELD \<and> length prv \<le> MAX_FIELD
     \<and> (\<forall>k l'. read_back T' pb prv k l' \<longrightarrow> k = key))"

definition seal_under :: "tpm_lib \<Rightarrow> u8 list \<Rightarrow> seal_policy \<Rightarrow> u8 list tpm_io" where
  "seal_under T key policy = (case policy of Pcrs pcrs \<Rightarrow> seal_key_with_pcrs T key pcrs | No_policy \<Rightarrow> seal_key_no_policy T key)"

lemma sealing_comes_back:
  assumes "tpm_law T T'" "seal_under T key policy new_ctx = (Ok blob, x)"
  shows "policy_of_blob blob = Ok policy
    \<and> (unseal_key T' blob new_ctx = (Ok k, x') \<longrightarrow> k = key \<and> length k = 16)"
proof -
  obtain pb prv where b: "blob = serialize_blob policy pb prv" "made T key pb prv (cx_log x)"
  proof (cases policy)
    case (Pcrs pcrs)
    with assms(2) have "seal_key_with_pcrs T key pcrs new_ctx = (Ok blob, x)" by (simp add: seal_under_def)
    from tripleD [OF triple_seal_pcrs new_ctx_seen this] that Pcrs show ?thesis by auto
  next
    case No_policy
    with assms(2) have "seal_key_no_policy T key new_ctx = (Ok blob, x)" by (simp add: seal_under_def)
    from tripleD [OF triple_seal_plain new_ctx_seen this] that No_policy show ?thesis by auto
  qed
  have ok: "policy_ok policy"
  proof (cases policy)
    case (Pcrs pcrs)
    then have "seal_key_with_pcrs T key pcrs new_ctx = (Ok blob, x)" using assms(2) by (simp add: seal_under_def)
    then have "validate_pcrs pcrs = Ok ()"
      unfolding seal_key_with_pcrs_def by (cases "validate_pcrs pcrs") (simp_all add: bind_io_def [of "result_io _"] result_io_def)
    then show ?thesis by (simp add: Pcrs policy_ok_def validate_pcrs_Ok)
  qed (simp add: policy_ok_def)
  have d: "deserialize_blob blob = Ok (policy, pb, prv)"
    unfolding b(1) using assms(1) b(2) by (intro blob_written_read ok) (auto simp: tpm_law_def)
  then have "policy_of_blob blob = Ok policy" by (simp add: policy_of_blob_def)
  moreover have "k = key \<and> length k = 16" if u: "unseal_key T' blob new_ctx = (Ok k, x')"
    using unseal_key_reads [OF u d] assms(1) b(2) unfolding tpm_law_def by blast
  ultimately show ?thesis by blast
qed

text \<open>
  What was sealed comes back: with the TPM's promise, a file made by sealing a key under any
  policy names that policy, and if it is unsealed, then to the key, which has sixteen bytes.
\<close>

theorem sealed_key_comes_back:
  assumes "tpm_law T T'" "seal_under T key policy new_ctx = (Ok blob, x)"
  shows "policy_of_blob blob = Ok policy
    \<and> (unseal_key T' blob new_ctx = (Ok k, x') \<longrightarrow> k = key \<and> length k = 16)"
  by (rule sealing_comes_back [OF assms])

end
