(* ===== verification/Tpm_Clean.thy ===== *)
theory Tpm_Clean
  imports Tpm_Safety
begin

text \<open>
  What a run leaves behind in the TPM. The handles the TPM gave out and was not
  asked to flush since are computed from the log and the answers.
\<close>

definition after_call :: "tpm_lib \<Rightarrow> tpm_log \<Rightarrow> tpm_call \<Rightarrow> tpm_handle set \<Rightarrow> tpm_handle set" where
  "after_call T l c H =
     (case c of
        Start_session kind \<Rightarrow> (case t_session T l of Ok (Some s) \<Rightarrow> insert (Session s) H | _ \<Rightarrow> H)
      | Create_primary \<Rightarrow> (case t_object T l of Ok ob \<Rightarrow> insert (Object ob) H | _ \<Rightarrow> H)
      | Load _ _ _ \<Rightarrow> (case t_object T l of Ok ob \<Rightarrow> insert (Object ob) H | _ \<Rightarrow> H)
      | Flush h \<Rightarrow> H - {h}
      | _ \<Rightarrow> H)"

fun held_from :: "tpm_lib \<Rightarrow> tpm_log \<Rightarrow> tpm_log \<Rightarrow> tpm_handle set \<Rightarrow> tpm_handle set" where
  "held_from T p [] H = H"
| "held_from T p (e # l) H = held_from T (p @ [e]) l (after_call T (p @ [e]) (snd e) H)"

definition held :: "tpm_lib \<Rightarrow> tpm_log \<Rightarrow> tpm_handle set" where
  "held T l = held_from T [] l {}"

lemma held_from_snoc: "held_from T p (l @ [e]) H = after_call T (p @ l @ [e]) (snd e) (held_from T p l H)"
  by (induction l arbitrary: p H) simp_all

lemma held_snoc: "held T (l @ [e]) = after_call T (l @ [e]) (snd e) (held T l)"
  by (simp add: held_def held_from_snoc)

text \<open>At most these handles are held; nothing is said of a run that fails.\<close>

definition within :: "tpm_lib \<Rightarrow> tpm_handle set \<Rightarrow> tpm_ctx \<Rightarrow> bool" where
  "within T H x \<longleftrightarrow> held T (cx_log x) \<subseteq> H"

abbreviation succeeds :: "(tpm_ctx \<Rightarrow> bool) \<Rightarrow> 'a tpm_io \<Rightarrow> ('a \<Rightarrow> tpm_ctx \<Rightarrow> bool) \<Rightarrow> bool" where
  "succeeds P m Q \<equiv> triple P m Q (\<lambda>_. True)"

lemma within_ask:
  assumes "\<And>l r. f l = Ok r \<Longrightarrow> after_call T l c H \<subseteq> H' r" "\<And>l H1 H2. H1 \<subseteq> H2 \<Longrightarrow> after_call T l c H1 \<subseteq> after_call T l c H2"
  shows "succeeds (within T H) (ask f c) (\<lambda>r. within T (H' r))"
proof (rule tripleI)
  fix x assume x: "within T H x"
  let ?l = "cx_log x @ [(cx_session x, c)]"
  have "held T ?l \<subseteq> H' r" if "f ?l = Ok r" for r
    using assms(1) [OF that] assms(2) [of "held T (cx_log x)" H ?l] x by (auto simp: held_snoc within_def)
  then show "post (\<lambda>r. within T (H' r)) (\<lambda>_. True) (fst (ask f c x)) (snd (ask f c x))"
    by (cases "f ?l") (simp_all add: ask_def Let_def within_def)
qed

lemma after_call_mono: "H1 \<subseteq> H2 \<Longrightarrow> after_call T l c H1 \<subseteq> after_call T l c H2"
  by (auto simp: after_call_def split: tpm_call.splits result.splits option.splits)

fun neutral :: "tpm_call \<Rightarrow> bool" where
  "neutral (Start_session _) \<longleftrightarrow> False"
| "neutral Create_primary \<longleftrightarrow> False"
| "neutral (Load _ _ _) \<longleftrightarrow> False"
| "neutral (Flush _) \<longleftrightarrow> False"
| "neutral _ \<longleftrightarrow> True"

lemma within_neutral: "neutral c \<Longrightarrow> succeeds (within T H) (ask f c) (\<lambda>_. within T H)"
  by (rule within_ask [OF _ after_call_mono]) (cases c; simp add: after_call_def)

lemma within_session: "succeeds (within T H) (ask (t_session T) (Start_session k))
    (\<lambda>s. within T (case s of None \<Rightarrow> H | Some s \<Rightarrow> insert (Session s) H))"
  by (rule within_ask [OF _ after_call_mono]) (auto simp: after_call_def split: option.splits)

lemma within_object:
  "succeeds (within T H) (ask (t_object T) Create_primary) (\<lambda>ob. within T (insert (Object ob) H))"
  "succeeds (within T H) (ask (t_object T) (Load a b d)) (\<lambda>ob. within T (insert (Object ob) H))"
  by (rule within_ask [OF _ after_call_mono]; simp add: after_call_def)+


lemma within_mono: "within T H x \<Longrightarrow> H \<subseteq> H' \<Longrightarrow> within T H' x"
  by (auto simp: within_def)

lemma within_flush: "succeeds (within T H) (flush T h) (\<lambda>_. within T (H - {h}))"
proof (rule tripleI)
  fix x assume x: "within T H x"
  let ?l = "cx_log x @ [(cx_session x, Flush h)]"
  have "held T ?l \<subseteq> H - {h}" using x by (auto simp: held_snoc after_call_def within_def)
  then show "post (\<lambda>_. within T (H - {h})) (\<lambda>_. True) (fst (flush T h x)) (snd (flush T h x))"
    by (cases "t_unit T ?l") (simp_all add: flush_def ignore_io_def match_io_def ask_def return_io_def panic_io_def Let_def within_def)
qed

lemma succeeds_bind:
  "succeeds P m Q \<Longrightarrow> (\<And>a. succeeds (Q a) (f a) R) \<Longrightarrow> succeeds P (bind_io m f) R"
  by (rule triple_bind) auto

lemma succeeds_weaken:
  assumes "succeeds P m Q" "\<And>a x. Q a x \<Longrightarrow> Q' a x"
  shows "succeeds P m Q'"
  by (rule triple_conseq [OF assms(1)]) (simp_all add: assms(2))

lemma within_set: "succeeds (within T H) (set_session s) (\<lambda>_. within T H)"
  unfolding set_session_def by (rule triple_modify) (simp add: within_def)

lemma within_result: "succeeds (within T H) (result_io r) (\<lambda>_. within T H)"
  by (rule triple_result) auto

lemma within_return: "succeeds (within T H) (return_io r) (\<lambda>_. within T H)"
  by (rule triple_return) auto

lemma within_err: "succeeds (within T H) m Q \<Longrightarrow> succeeds (within T H) (ctx_err a m) Q"
  "succeeds (within T H) m Q \<Longrightarrow> succeeds (within T H) (map_err_io g m) Q"
  by (rule triple_ctx_err triple_map_err, assumption)+

lemma within_start: "succeeds (within T H) (start_session T k a b c) (\<lambda>s. within T (insert (Session s) H))"
proof -
  have "succeeds (within T (case s of None \<Rightarrow> H | Some s \<Rightarrow> insert (Session s) H))
     (case s of None \<Rightarrow> fail_io (Msg b)
      | Some s \<Rightarrow> bind_io (ctx_err c (ask (t_unit T) (Set_attributes s))) (\<lambda>_. return_io s))
     (\<lambda>s. within T (insert (Session s) H))" for s
  proof (cases s)
    case (Some h)
    show ?thesis
      unfolding Some option.case
      by (rule succeeds_bind [OF within_err(1) [OF within_neutral]], simp) (auto intro: triple_return)
  qed (auto intro: triple_fail)
  then show ?thesis
    unfolding start_session_def by (rule succeeds_bind [OF within_err(1) [OF within_session]])
qed

lemma within_policy_pcr: "succeeds (within T H) (policy_pcr T a b s slots) (\<lambda>_. within T H)"
  unfolding policy_pcr_def
  by (rule succeeds_bind [OF within_err(2) [OF within_neutral] within_err(1) [OF within_neutral]]) simp_all

lemma within_primary: "succeeds (within T H) (create_primary T m) (\<lambda>ob. within T (insert (Object ob) H))"
  unfolding create_primary_def
  by (rule succeeds_bind [OF within_err(1) [OF within_neutral] within_err(1) [OF within_object(1)]]) simp

lemma within_open: "succeeds (within T H) (open_context T) (\<lambda>_. within T H)"
  unfolding open_context_def by (rule within_err(1) [OF within_neutral]) simp

lemma within_selection: "succeeds (within T H) (pcr_selection_for T pcrs) (\<lambda>_. within T H)"
  unfolding pcr_selection_for_def
  by (rule succeeds_bind [OF within_result succeeds_bind [OF within_err(1) [OF within_neutral] within_return]]) simp

lemma within_trial: "succeeds (within T {}) (trial_policy_pcr_digest T slots) (\<lambda>_. within T {})"
proof -
  have old: "succeeds (within T {}) (get_io cx_session) (\<lambda>_. within T {})" by (rule triple_get) auto
  have fl: "succeeds (within T {Session s}) (flush T (Session s)) (\<lambda>_. within T {})" for s
    by (rule succeeds_weaken [OF within_flush]) (auto elim: within_mono)
  have get: "succeeds (within T H) (ctx_err m (ask (t_bytes T) (Get_digest s))) (\<lambda>_. within T H)" for m s H
    by (rule within_err(1) [OF within_neutral]) simp
  show ?thesis
    unfolding trial_policy_pcr_digest_def
    by (rule succeeds_bind [OF old succeeds_bind [OF within_set succeeds_bind [OF within_start
      succeeds_bind [OF within_policy_pcr succeeds_bind [OF get succeeds_bind [OF fl succeeds_bind [OF within_set within_return]]]]]]])
qed

text \<open>An attempt flushes the objects it made; the sessions are flushed around it.\<close>

lemma within_seal_attempt: "succeeds (within T H) (seal_attempt T key h t) (\<lambda>_. within T H)"
proof -
  have fl: "succeeds (within T (insert (Object ob) H)) (flush T (Object ob)) (\<lambda>_. within T H)" for ob
    by (rule succeeds_weaken [OF within_flush]) (auto elim: within_mono)
  have n: "succeeds (within T H) (ctx_err m (ask f c)) (\<lambda>_. within T H)"
    "succeeds (within T H) (map_err_io g (ask f c)) (\<lambda>_. within T H)" if "neutral c"
    for m c H g and f :: "tpm_log \<Rightarrow> ('b, any_error) result"
    by (rule within_err [OF within_neutral [OF that]])+
  have fin: "succeeds (within T (insert (Object ob) H))
    ((\<lambda>(public, private). bind_io (ctx_err m (ask (t_bytes T) (Marshall public)))
       (\<lambda>pub_bytes. bind_io (flush T (Object ob)) (\<lambda>_. return_io (pub_bytes, private)))) r) (\<lambda>_. within T H)" for m ob r
    by (cases r) (auto intro!: succeeds_bind [OF n(1) succeeds_bind [OF fl within_return]])
  show ?thesis
    unfolding seal_attempt_def
    by (rule succeeds_bind [OF within_set succeeds_bind [OF within_primary succeeds_bind [OF n(1)
       succeeds_bind [OF n(2) succeeds_bind [OF n(1) fin]]]]]) simp_all
qed

lemma within_finally:
  assumes "succeeds (within T H) m (\<lambda>_. within T H)" "succeeds (within T H) f (\<lambda>_. within T H')"
  shows "succeeds (within T H) (finally_io m f) (\<lambda>_. within T H')"
  by (rule triple_finally [OF assms(1) assms(2) triple_any]) simp

lemma within_flushes:
  "succeeds (within T {h}) (flush T h) (\<lambda>_. within T {})"
  "succeeds (within T {h', h}) (bind_io (flush T h') (\<lambda>_. flush T h)) (\<lambda>_. within T {})"
  "succeeds (within T (insert h (insert h' H))) (bind_io (flush T h) (\<lambda>_. bind_io (flush T h') (\<lambda>_. result_io r))) (\<lambda>_. within T H)"
proof -
  show "succeeds (within T {h}) (flush T h) (\<lambda>_. within T {})"
    by (rule succeeds_weaken [OF within_flush]) (auto elim: within_mono)
  show "succeeds (within T {h', h}) (bind_io (flush T h') (\<lambda>_. flush T h)) (\<lambda>_. within T {})"
    by (rule succeeds_bind [OF within_flush succeeds_weaken [OF within_flush]]) (auto elim: within_mono)
  show "succeeds (within T (insert h (insert h' H))) (bind_io (flush T h) (\<lambda>_. bind_io (flush T h') (\<lambda>_. result_io r))) (\<lambda>_. within T H)"
    by (rule succeeds_bind [OF within_flush succeeds_bind [OF within_flush succeeds_weaken [OF within_result]]]) (auto elim: within_mono)
qed

lemma within_seal_pcrs: "succeeds (within T {}) (seal_key_with_pcrs T key pcrs) (\<lambda>_. within T {})"
proof -
  have fin: "succeeds (within T {}) ((\<lambda>(pub_bytes, priv_bytes). return_io (serialize_blob p pub_bytes priv_bytes)) r) (\<lambda>_. within T {})" for p r
    by (cases r) (simp add: within_return)
  show ?thesis
    unfolding seal_key_with_pcrs_def start_hmac_session_def
    by (rule succeeds_bind [OF within_result succeeds_bind [OF within_open succeeds_bind [OF within_selection
        succeeds_bind [OF within_trial succeeds_bind [OF within_start
        succeeds_bind [OF within_finally [OF within_seal_attempt within_flushes(1)] fin]]]]]])
qed

lemma within_seal_plain: "succeeds (within T {}) (seal_key_no_policy T key) (\<lambda>_. within T {})"
proof -
  have fin: "succeeds (within T {}) ((\<lambda>(pub_bytes, priv_bytes). return_io (serialize_blob p pub_bytes priv_bytes)) r) (\<lambda>_. within T {})" for p r
    by (cases r) (simp add: within_return)
  show ?thesis
    unfolding seal_key_no_policy_def start_hmac_session_def
    by (rule succeeds_bind [OF within_open succeeds_bind [OF within_start
        succeeds_bind [OF within_finally [OF within_seal_attempt within_flushes(1)] fin]]])
qed

lemma within_load: "succeeds (within T H) (load_sealed T p prv pub) (\<lambda>ob. within T (insert (Object ob) H))"
  unfolding load_sealed_def by (rule within_err(1) [OF within_object(2)])

lemma within_unseal: "succeeds (within T H) (ctx_err m (ask (t_bytes T) (Unseal ob))) (\<lambda>_. within T H)"
  by (rule within_err(1) [OF within_neutral]) simp

lemma within_pcr_attempt: "succeeds (within T H) (pcr_unseal_attempt T slots h p pub prv) (\<lambda>_. within T H)"
  unfolding pcr_unseal_attempt_def
  by (rule succeeds_bind [OF within_set succeeds_bind [OF within_primary succeeds_bind [OF within_load
      succeeds_bind [OF within_policy_pcr succeeds_bind [OF within_set succeeds_bind [OF within_unseal
      succeeds_bind [OF within_set within_flushes(3)]]]]]]])

lemma within_plain_attempt: "succeeds (within T H) (plain_unseal_attempt T h pub prv) (\<lambda>_. within T H)"
  unfolding plain_unseal_attempt_def
  by (rule succeeds_bind [OF within_set succeeds_bind [OF within_primary succeeds_bind [OF within_load
      succeeds_bind [OF within_unseal within_flushes(3)]]]])

lemma within_unseal_pcrs: "succeeds (within T {}) (unseal_with_pcr_policy T pcrs pub prv) (\<lambda>_. within T {})"
  unfolding unseal_with_pcr_policy_def start_hmac_session_def start_policy_session_def
  by (rule succeeds_bind [OF within_selection succeeds_bind [OF within_start succeeds_bind [OF within_start
      within_finally [OF within_pcr_attempt within_flushes(2)]]]])

lemma within_unseal_plain: "succeeds (within T {}) (unseal_with_no_policy T pub prv) (\<lambda>_. within T {})"
  unfolding unseal_with_no_policy_def start_hmac_session_def
  by (rule succeeds_bind [OF within_start within_finally [OF within_plain_attempt within_flushes(1)]])

lemma within_unseal_key: "succeeds (within T {}) (unseal_key T blob) (\<lambda>_. within T {})"
proof -
  have n: "succeeds (within T {}) (ctx_err m (ask f c)) (\<lambda>_. within T {})"
    "succeeds (within T {}) (map_err_io g (ask f c)) (\<lambda>_. within T {})" if "neutral c"
    for m c g and f :: "tpm_log \<Rightarrow> ('b, any_error) result"
    by (rule within_err [OF within_neutral [OF that]])+
  have fin: "succeeds (within T {}) (case p of Pcrs pcrs \<Rightarrow> unseal_with_pcr_policy T pcrs pub prv
     | No_policy \<Rightarrow> unseal_with_no_policy T pub prv) (\<lambda>_. within T {})" for p pub prv
    by (cases p) (simp_all add: within_unseal_pcrs within_unseal_plain)
  have rest: "succeeds (within T {}) ((\<lambda>(policy, pub_bytes, priv_bytes).
     bind_io (ctx_err m1 (ask (t_bytes T) (Unmarshall pub_bytes))) (\<lambda>public.
     bind_io (map_err_io (\<lambda>_. m2) (ask (t_unit T) (To_private priv_bytes))) (\<lambda>_.
     bind_io (open_context T) (\<lambda>_.
     case policy of
       Pcrs pcrs \<Rightarrow> unseal_with_pcr_policy T pcrs public priv_bytes
     | No_policy \<Rightarrow> unseal_with_no_policy T public priv_bytes)))) t) (\<lambda>_. within T {})" for t m1 m2
  proof (cases t)
    case (fields policy pb prv)
    show ?thesis
      unfolding fields prod.case
      by (rule succeeds_bind [OF n(1) succeeds_bind [OF n(2) succeeds_bind [OF within_open fin]]]) simp_all
  qed
  show ?thesis
    unfolding unseal_key_def by (rule succeeds_bind [OF within_result rest])
qed

end
