(* ===== verification/Tpm_Total.thy ===== *)
theory Tpm_Total
  imports Tpm_Safety
begin

text \<open>
  Where the code of \<open>tpm.rs\<close> itself can panic: the \<open>unreachable!\<close> of the register numbers is not reached,
  and the only panic left is the one of the file parser.
\<close>

definition sure :: "('s, 'a, 'e) io \<Rightarrow> bool" where
  "sure m \<longleftrightarrow> (\<forall>s. fst (m s) \<noteq> Panic)"

definition calm_tpm :: "tpm_lib \<Rightarrow> bool" where
  "calm_tpm T \<longleftrightarrow> (\<forall>l. t_unit T l \<noteq> Panic \<and> t_session T l \<noteq> Panic \<and> t_object T l \<noteq> Panic
     \<and> t_created T l \<noteq> Panic \<and> t_bytes T l \<noteq> Panic \<and> t_digests T l \<noteq> Panic)"

named_theorems sures

lemma sure_bind [sures]: "sure m \<Longrightarrow> (\<And>x. sure (f x)) \<Longrightarrow> sure (bind_io m f)"
  unfolding sure_def bind_io_def by (auto split: prod.splits result.splits) (metis fst_conv)

lemma sure_finally [sures]: "sure m \<Longrightarrow> sure f \<Longrightarrow> sure (finally_io m f)"
  unfolding sure_def finally_io_def bind_io_def result_io_def
  by (auto split: prod.splits result.splits) (metis fst_conv)+

lemma sure_map_err [sures]: "sure m \<Longrightarrow> sure (map_err_io g m)"
  unfolding sure_def map_err_io_def
proof
  fix s assume "\<forall>s. fst (m s) \<noteq> Panic"
  then show "fst (map_err g (fst (m s)), snd (m s)) \<noteq> Panic" by (cases "fst (m s)") (auto simp: result_simps)
qed

lemma sure_ctx_err [sures]: "sure m \<Longrightarrow> sure (ctx_err a m)"
  unfolding ctx_err_def by (rule sure_map_err)

lemma sure_simple [sures]:
  "sure (return_io x)" "sure (fail_io e)" "sure (set_session q)" "sure (get_io h)" "r \<noteq> Panic \<Longrightarrow> sure (result_io r)"
  by (simp_all add: sure_def return_io_def fail_io_def set_session_def modify_io_def get_io_def result_io_def)

lemma sure_ask [sures]: "(\<And>l. f l \<noteq> Panic) \<Longrightarrow> sure (ask f c)"
  by (simp add: sure_def ask_def Let_def)

lemma sure_prod [sures]: "(\<And>a b. sure (f a b)) \<Longrightarrow> sure (case p of (a, b) \<Rightarrow> f a b)"
  by (cases p) simp

lemma sure_option [sures]: "sure m \<Longrightarrow> (\<And>x. sure (f x)) \<Longrightarrow> sure (case v of None \<Rightarrow> m | Some x \<Rightarrow> f x)"
  by (cases v) simp_all

lemma sure_flush [sures]: "calm_tpm T \<Longrightarrow> sure (flush T h)"
  by (auto simp: sure_def flush_def ignore_io_def match_io_def ask_def return_io_def calm_tpm_def Let_def split: result.splits)

lemma calm_answers [sures]:
  assumes "calm_tpm T"
  shows "t_unit T l \<noteq> Panic" "t_session T l \<noteq> Panic" "t_object T l \<noteq> Panic" "t_created T l \<noteq> Panic" "t_bytes T l \<noteq> Panic"
  using assms by (simp_all add: calm_tpm_def)

lemma valid_slots [sures]: "valid_pcrs pcrs \<Longrightarrow> pcr_slots pcrs \<noteq> (Panic :: (_, any_error) result)"
  by (subst pcr_slots_small) (simp_all add: valid_pcrs_def)

lemma bind_result_Ok: "bind_io (result_io (Ok x)) f = f x"
  by (rule ext) (simp add: bind_io_def result_io_def)

lemmas tpm_sessions = start_hmac_session_def start_policy_session_def start_session_def open_context_def
  pcr_selection_for_def policy_pcr_def create_primary_def load_sealed_def

lemma sure_seal:
  assumes "calm_tpm T"
  shows "sure (seal_attempt T key h t)" "sure (start_session T k a b c)" "sure (open_context T)"
    "valid_pcrs pcrs \<Longrightarrow> sure (pcr_selection_for T pcrs)" "sure (trial_policy_pcr_digest T slots)"
    "sure (policy_pcr T a b s slots)" "sure (create_primary T a)" "sure (load_sealed T p q r)"
  unfolding seal_attempt_def trial_policy_pcr_digest_def tpm_sessions
  by (intro sures assms; assumption?)+

lemma sure_unseal:
  assumes "calm_tpm T"
  shows "valid_pcrs pcrs \<Longrightarrow> sure (unseal_with_pcr_policy T pcrs pub prv)" "sure (unseal_with_no_policy T pub prv)"
proof -
  have key: "key_of_unsealed b \<noteq> Panic" for b by (simp add: key_of_unsealed_def)
  show "valid_pcrs pcrs \<Longrightarrow> sure (unseal_with_pcr_policy T pcrs pub prv)"
    unfolding unseal_with_pcr_policy_def pcr_unseal_attempt_def start_hmac_session_def start_policy_session_def
    by (intro sures sure_seal assms key; assumption?)
  show "sure (unseal_with_no_policy T pub prv)"
    unfolding unseal_with_no_policy_def plain_unseal_attempt_def start_hmac_session_def
    by (intro sures sure_seal assms key; assumption?)
qed

text \<open>
  Claim C36. Whatever the TPM answers, as long as the library itself does not panic, sealing a key never
  panics for any PCR list and any key: the \<open>unreachable!\<close> behind the list's check is unreachable. And
  unsealing a file panics exactly when the parser does, so never after a first call to the TPM.
\<close>

theorem tpm_panics_iff:
  assumes "calm_tpm T"
  shows "fst (seal_under T key policy x) \<noteq> Panic
    \<and> (fst (unseal_key T blob x) = Panic \<longleftrightarrow> deserialize_blob blob = Panic)"
proof
  show "fst (seal_under T key policy x) \<noteq> Panic"
  proof (cases policy)
    case (Pcrs pcrs)
    have "sure (seal_key_with_pcrs T key pcrs)"
    proof (cases "validate_pcrs pcrs")
      case (Ok u)
      then have "valid_pcrs pcrs" by (simp add: validate_pcrs_Ok)
      then show ?thesis
        unfolding seal_key_with_pcrs_def start_hmac_session_def
        by (intro sures sure_seal assms validate_pcrs_not_Panic)
    next
      case (Err e)
      then show ?thesis by (simp add: sure_def seal_key_with_pcrs_def bind_io_def result_io_def)
    qed simp
    then show ?thesis by (simp add: Pcrs seal_under_def sure_def)
  next
    case No_policy
    have "sure (seal_key_no_policy T key)"
      unfolding seal_key_no_policy_def start_hmac_session_def by (intro sures sure_seal assms)
    then show ?thesis by (simp add: No_policy seal_under_def sure_def)
  qed
  show "fst (unseal_key T blob x) = Panic \<longleftrightarrow> deserialize_blob blob = Panic"
  proof (cases "deserialize_blob blob")
    case (Ok t)
    obtain policy pb prv where t: "t = (policy, pb, prv)" by (cases t)
    have "policy_ok policy" by (rule deserialized_policy [OF Ok [unfolded t]])
    then have fin: "sure (case policy of Pcrs pcrs \<Rightarrow> unseal_with_pcr_policy T pcrs pub prv
        | No_policy \<Rightarrow> unseal_with_no_policy T pub prv)" for pub
      by (cases policy) (simp_all add: policy_ok_def sure_unseal assms)
    have "sure (unseal_key T blob)"
      unfolding unseal_key_def Ok t bind_result_Ok prod.case
      by (rule sure_bind [OF sure_ctx_err [OF sure_ask] sure_bind [OF sure_map_err [OF sure_ask]
            sure_bind [OF sure_seal(3) [OF assms] fin]]]) (rule calm_answers [OF assms])+
    then show ?thesis using Ok by (simp add: sure_def)
  qed (simp_all add: unseal_key_def bind_io_def result_io_def)
qed

end
