(* ===== verification/Tpm_Runs.thy ===== *)
theory Tpm_Runs
  imports Tpm_Clean Tpm_Total
begin

text \<open>
  A TPM that keeps its promise, and the properties of the calls applied to runs against it: a handle is
  the number of the call that made it, a private structure is the data it protects, and unsealing gives
  back what was loaded.
\<close>

definition soft_created :: "tpm_log \<Rightarrow> (u8 list \<times> u8 list, any_error) result" where
  "soft_created l =
     (case snd (last l) of
        Create _ _ data \<Rightarrow> if length data \<le> 128 then Ok ([], data) else Err (Msg ''TPM_RC_SIZE'')
      | _ \<Rightarrow> Err (Msg ''TPM_RC_COMMAND_CODE''))"

definition soft_bytes :: "tpm_log \<Rightarrow> (u8 list, any_error) result" where
  "soft_bytes l =
     (case snd (last l) of
        Unseal ob \<Rightarrow>
          if ob < length l - 1 then
            (case snd (l ! ob) of Load _ data _ \<Rightarrow> Ok data | _ \<Rightarrow> Err (Msg ''TPM_RC_HANDLE''))
          else Err (Msg ''TPM_RC_HANDLE'')
      | Marshall public \<Rightarrow> Ok public
      | Unmarshall bytes \<Rightarrow> Ok bytes
      | _ \<Rightarrow> Ok [7])"

definition soft_tpm :: tpm_lib where
  "soft_tpm =
     \<lparr>t_unit = (\<lambda>_. Ok ()), t_session = (\<lambda>l. Ok (Some (length l))), t_object = (\<lambda>l. Ok (length l - 1)),
      t_created = soft_created, t_bytes = soft_bytes, t_digests = (\<lambda>_. Ok [[0x5a, 0x0f]])\<rparr>"

lemma soft_made: "made soft_tpm key pb prv l \<Longrightarrow> pb = [] \<and> prv = key \<and> length key \<le> 128"
  by (auto simp: made_def happened_def soft_tpm_def soft_created_def soft_bytes_def split: if_splits)

lemma soft_got: "got soft_tpm pub prv k l \<Longrightarrow> k = prv"
proof -
  assume "got soft_tpm pub prv k l"
  then obtain par q ob q' p p' where
    load: "prefix (p @ [(q, Load par prv pub)]) l" "ob = length p" and
    unseal: "prefix (p' @ [(q', Unseal ob)]) l" "soft_bytes (p' @ [(q', Unseal ob)]) = Ok k"
    by (auto simp: got_def happened_def soft_tpm_def)
  from unseal(2) have "ob < length p'" "\<exists>a b. snd (p' ! ob) = Load a k b"
    by (auto simp: soft_bytes_def nth_append split: if_splits tpm_call.splits)
  moreover have "p' ! ob = l ! ob" using unseal(1) \<open>ob < length p'\<close> by (auto simp: prefix_def nth_append)
  moreover have "l ! ob = (q, Load par prv pub)" using load by (auto simp: prefix_def nth_append)
  ultimately show ?thesis by auto
qed

lemma soft_law: "tpm_law soft_tpm soft_tpm"
  unfolding tpm_law_def read_back_def by (auto dest!: soft_made soft_got simp: MAX_FIELD_def)

definition tpm_demo_key :: "u8 list" where
  "tpm_demo_key = [1, 2, 3, 4, 5, 6, 7, 8, 9, 10, 11, 12, 13, 14, 15, 16]"

lemma tpm_demo_key_length [simp]: "length tpm_demo_key = 16"
  by (simp add: tpm_demo_key_def)

lemmas soft_eval = seal_under_def seal_key_with_pcrs_def seal_key_no_policy_def seal_attempt_def
  open_context_def pcr_selection_for_def start_hmac_session_def start_policy_session_def start_session_def
  trial_policy_pcr_digest_def policy_pcr_def create_primary_def load_sealed_def finally_io_def flush_def
  ask_def set_session_def ctx_err_def new_ctx_def soft_tpm_def soft_created_def soft_bytes_def
  bind_io_def return_io_def result_io_def map_err_io_def ignore_io_def match_io_def modify_io_def get_io_def
  Let_def result_simps tpm_ctx.simps nth_append

lemma soft_seal_pcrs:
  "fst (seal_under soft_tpm tpm_demo_key (Pcrs [7, 11]) new_ctx) = Ok (serialize_blob (Pcrs [7, 11]) [] tpm_demo_key)"
proof -
  have v: "validate_pcrs [7, 11] = Ok ()" by (simp add: validate_pcrs_Ok valid_pcrs_def)
  have s: "pcr_slots [7, 11] = (Ok [Slot 7, Slot 11] :: (_, any_error) result)"
    by (subst pcr_slots_small) simp_all
  show ?thesis by (simp add: soft_eval v s del: pcr_slots.simps)
qed

lemma demo_blob: "deserialize_blob (serialize_blob (Pcrs [7, 11]) [] tpm_demo_key) = Ok (Pcrs [7, 11], [], tpm_demo_key)"
  by (rule blob_written_read) (simp_all add: policy_ok_def valid_pcrs_def MAX_FIELD_def tpm_demo_key_def)

lemma soft_unseal_pcrs:
  "fst (unseal_key soft_tpm (serialize_blob (Pcrs [7, 11]) [] tpm_demo_key) new_ctx) = Ok tpm_demo_key"
proof -
  have s: "pcr_slots [7, 11] = (Ok [Slot 7, Slot 11] :: (_, any_error) result)"
    by (subst pcr_slots_small) simp_all
  show ?thesis
    by (simp add: unseal_key_def demo_blob unseal_with_pcr_policy_def pcr_unseal_attempt_def key_of_unsealed_def soft_eval s del: pcr_slots.simps)
qed


lemma soft_calm: "calm_tpm soft_tpm"
  by (auto simp: calm_tpm_def soft_tpm_def soft_created_def soft_bytes_def split: tpm_call.splits)

abbreviation tpm_demo_blob :: "u8 list" where
  "tpm_demo_blob \<equiv> serialize_blob (Pcrs [7, 11]) [] tpm_demo_key"

lemma demo_policy: "policy_of_blob tpm_demo_blob = Ok (Pcrs [7, 11])"
  by (simp add: policy_of_blob_def demo_blob result_simps)

theorem unsealed_under_policy_witness:
  "guarded (unseal_guard soft_tpm (Pcrs [7, 11])) (cx_log (snd (unseal_key soft_tpm tpm_demo_blob new_ctx)))
   \<and> fst (unseal_key soft_tpm tpm_demo_blob new_ctx) = Ok tpm_demo_key"
  using unsealed_under_policy [OF demo_policy surjective_pairing] soft_unseal_pcrs by simp


theorem sealed_key_comes_back_witness:
  "policy_of_blob tpm_demo_blob = Ok (Pcrs [7, 11])
   \<and> (\<exists>x. unseal_key soft_tpm tpm_demo_blob new_ctx = (Ok tpm_demo_key, x))"
proof -
  obtain x where x: "seal_under soft_tpm tpm_demo_key (Pcrs [7, 11]) new_ctx = (Ok tpm_demo_blob, x)"
    using soft_seal_pcrs by (metis prod.collapse)
  obtain y where y: "unseal_key soft_tpm tpm_demo_blob new_ctx = (Ok tpm_demo_key, y)"
    using soft_unseal_pcrs by (metis prod.collapse)
  show ?thesis using sealed_key_comes_back [OF soft_law x] y by blast
qed


theorem tpm_panics_iff_witness:
  "fst (seal_under soft_tpm tpm_demo_key (Pcrs [7, 99]) new_ctx) \<noteq> Panic
   \<and> fst (unseal_key soft_tpm tpm_demo_blob new_ctx) \<noteq> Panic"
  using tpm_panics_iff [OF soft_calm, of tpm_demo_key "Pcrs [7, 99]" new_ctx tpm_demo_blob] by (simp add: demo_blob)

end
