(* ===== verification/Tpm_Services.thy ===== *)
theory Tpm_Services
  imports Tpm_Runs Pairing_Reseal
begin

text \<open>
  The key store on top of the TPM calls: the services \<open>keystore.rs\<close> uses are the ones of \<open>tpm.rs\<close>, each
  call with its own context. What was sealed to the disk is what is loaded from it.
\<close>

text \<open>
  The TPM's answers may depend on the moment; the calls do not touch the file system. \<open>R\<close> is the
  kernel's source of random bytes.
\<close>

definition tpm_services :: "(world \<Rightarrow> tpm_lib) \<Rightarrow> u8 list any_io \<Rightarrow> key_services" where
  "tpm_services T R =
     \<lparr>seal_pcrs = (\<lambda>key pcrs w. (fst (seal_key_with_pcrs (T w) key pcrs new_ctx), w)),
      seal_plain = (\<lambda>key w. (fst (seal_key_no_policy (T w) key new_ctx), w)),
      unseal = (\<lambda>blob w. (fst (unseal_key (T w) blob new_ctx), w)),
      get_random = R\<rparr>"

lemma quiet_pure: "quiet (\<lambda>w. (f w, w))"
  unfolding quiet_def
proof (intro allI impI tripleI)
  fix P :: "world \<Rightarrow> bool" and s assume "P s"
  then show "post (\<lambda>_. P) P (fst (f s, s)) (snd (f s, s))" by (cases "f s") simp_all
qed

lemma tpm_services_quiet: "quiet R \<Longrightarrow> quiet_services (tpm_services T R)"
  by (simp add: quiet_services_def tpm_services_def quiet_pure)

definition save_sealed_under :: "key_services \<Rightarrow> u8 list \<Rightarrow> seal_policy \<Rightarrow> unit any_io" where
  "save_sealed_under K key policy =
     (case policy of Pcrs pcrs \<Rightarrow> save_key_sealed_with_pcrs K key pcrs | No_policy \<Rightarrow> save_key_sealed_no_policy K key)"

lemma saved_blob:
  assumes "save_sealed_under (tpm_services T R) key policy w = (Ok (), w')"
  shows "\<exists>blob x. seal_under (T w) key policy new_ctx = (Ok blob, x)
    \<and> bind_io (persist_sealed_blob blob) (\<lambda>_. ignore_io delete_key) w = (Ok (), w')"
proof (cases policy)
  case (Pcrs pcrs)
  obtain r x where s: "seal_key_with_pcrs (T w) key pcrs new_ctx = (r, x)"
    by (cases "seal_key_with_pcrs (T w) key pcrs new_ctx")
  then show ?thesis
    using assms by (cases r)
      (auto simp: Pcrs seal_under_def save_sealed_under_def save_key_sealed_with_pcrs_def tpm_services_def
        bind_io_def [of "map_err_io _ _"] map_err_io_def)
next
  case No_policy
  obtain r x where s: "seal_key_no_policy (T w) key new_ctx = (r, x)"
    by (cases "seal_key_no_policy (T w) key new_ctx")
  then show ?thesis
    using assms by (cases r)
      (auto simp: No_policy seal_under_def save_sealed_under_def save_key_sealed_no_policy_def tpm_services_def
        bind_io_def [of "map_err_io _ _"] map_err_io_def)
qed



lemma le_bytes_4: "le_bytes 4 n = [of_nat (n mod 256), of_nat (n div 256 mod 256), of_nat (n div 256 div 256 mod 256),
    of_nat (n div 256 div 256 div 256 mod 256)]"
proof -
  have "(4::nat) = Suc (Suc (Suc (Suc 0)))" by simp
  then show ?thesis by (simp only: le_bytes.simps)
qed

lemma demo_blob_bytes:
  "tpm_demo_blob = [82, 53, 48, 51, 84, 80, 77, 2, 2, 7, 11, 0, 0, 0, 0, 16, 0, 0, 0, 1, 2, 3, 4, 5, 6, 7, 8, 9, 10, 11, 12, 13, 14, 15, 16]"
proof -
  have "FILE_MAGIC_V2 = [82, 53, 48, 51, 84, 80, 77, 2]" by code_simp
  moreover have "u32_le_bytes 0 = [0, 0, 0, 0]" "u32_le_bytes 16 = [16, 0, 0, 0]"
    by (simp_all add: u32_le_bytes_def le_bytes_4)
  ultimately show ?thesis by (simp add: serialize_blob_def DEFAULT_PCRS_def) (simp add: tpm_demo_key_def)
qed

lemma soft_saved: "fst (bind_io (persist_sealed_blob tpm_demo_blob) (\<lambda>_. ignore_io delete_key) (demo_world Map.empty)) = Ok ()"
  "w_fs (snd (bind_io (persist_sealed_blob tpm_demo_blob) (\<lambda>_. ignore_io delete_key) (demo_world Map.empty))) KEY_TPM_PATH
     = Some (File tpm_demo_blob o600 0)"
  unfolding demo_blob_bytes by code_simp+

lemma soft_save_run:
  "save_sealed_under (tpm_services (\<lambda>_. soft_tpm) R) tpm_demo_key (Pcrs [7, 11]) w
     = bind_io (persist_sealed_blob tpm_demo_blob) (\<lambda>_. ignore_io delete_key) w"
  using soft_seal_pcrs
  by (simp add: seal_under_def save_sealed_under_def save_key_sealed_with_pcrs_def tpm_services_def
      bind_io_def [of "map_err_io _ _"] map_err_io_def)

lemma demo_sealed_dir: "sealed_dir_ok (demo_world Map.empty)"
  using demo_private_paths
  by (simp add: sealed_dir_ok_def rf_pred_def plain_at_def demo_world_def file_secure_def demo_env_def)


end
