(* ===== verification/Main_Startup.thy ===== *)
theory Main_Startup
  imports Pairing Sensor_Actor Storage Device_Tasks
begin

text \<open>
  \<open>main.rs\<close>: the options, the one-shot commands that exit before any daemon set-up, the order in which the
  daemon starts (the key, the sensor, the registry, the bus, the watcher of departing clients), and that
  watcher. The option parser of \<open>clap\<close> is a parameter as far as the text of the options goes; what it was
  told to refuse is \<open>args_ok\<close>. Connecting to the bus and serving the objects is a parameter, as are the
  environment variables. Logging is not modelled.
\<close>

section \<open>Options\<close>

definition DEFAULT_CONFIDENCE_THRESHOLD :: u16 where
  "DEFAULT_CONFIDENCE_THRESHOLD = 80"

record args =
  a_session :: bool
  a_port :: "str option"
  a_storage :: "str option"
  a_confidence :: u16
  a_pair :: bool
  a_seal_tpm :: bool
  a_seal_tpm_pcrs :: "str option"
  a_unpair :: bool
  a_status :: bool
  a_resync :: bool
  a_reseal_tpm :: bool
  a_reseal_policy :: bool

text \<open>No options at all.\<close>

definition args_default :: args where
  "args_default =
     \<lparr>a_session = False, a_port = None, a_storage = None, a_confidence = DEFAULT_CONFIDENCE_THRESHOLD,
      a_pair = False, a_seal_tpm = False, a_seal_tpm_pcrs = None, a_unpair = False, a_status = False,
      a_resync = False, a_reseal_tpm = False, a_reseal_policy = False\<rparr>"

text \<open>The attributes \<open>conflicts_with_all\<close> and \<open>requires\<close>, flag by flag.\<close>

definition args_ok :: "args \<Rightarrow> bool" where
  "args_ok a \<longleftrightarrow>
     (a_pair a \<longrightarrow> \<not> (a_unpair a \<or> a_status a \<or> a_reseal_tpm a \<or> a_resync a))
     \<and> (a_seal_tpm a \<longrightarrow> a_pair a)
     \<and> (a_unpair a \<longrightarrow> \<not> (a_pair a \<or> a_status a \<or> a_reseal_tpm a \<or> a_resync a))
     \<and> (a_status a \<longrightarrow> \<not> (a_pair a \<or> a_unpair a \<or> a_reseal_tpm a \<or> a_resync a))
     \<and> (a_resync a \<longrightarrow> \<not> (a_pair a \<or> a_unpair a \<or> a_status a \<or> a_reseal_tpm a \<or> a_reseal_policy a))
     \<and> (a_reseal_tpm a \<longrightarrow> \<not> (a_pair a \<or> a_unpair a \<or> a_status a \<or> a_resync a \<or> a_reseal_policy a))
     \<and> (a_reseal_policy a \<longrightarrow> \<not> (a_pair a \<or> a_unpair a \<or> a_status a \<or> a_resync a \<or> a_reseal_tpm a))"

section \<open>Paths\<close>

text \<open>\<open>PathBuf::join\<close>: an absolute path replaces, and one slash is put between the parts.\<close>

definition path_join :: "str \<Rightarrow> str \<Rightarrow> str" where
  "path_join a b =
     (if starts_with b ''/'' \<or> a = [] then b
      else if last a = CHR ''/'' then a @ b
      else a @ ''/'' @ b)"

text \<open>An environment variable that is not UTF-8 is \<open>None\<close> here, as \<open>env::var\<close> answers an error for it.\<close>

definition default_storage_path :: "(str \<Rightarrow> str option) \<Rightarrow> bool \<Rightarrow> str" where
  "default_storage_path env session =
     (if session then
        (let xdg_state = (case env ''XDG_STATE_HOME'' of
             Some d \<Rightarrow> d
           | None \<Rightarrow> (let home = (case env ''HOME'' of Some h \<Rightarrow> h | None \<Rightarrow> ''/tmp'')
                      in path_join (path_join home ''.local'') ''state''))
         in path_join (path_join xdg_state ''r503d'') ''users.json'')
      else ''/var/lib/r503d/users.json'')"

section \<open>Starting the worker\<close>

text \<open>
  \<open>SensorActor::spawn\<close>: the thread opens the device and gives it the key; then one \<open>Info\<close> request is sent,
  and its answer is kept. If the worker never answers the channel is closed and that is an error, too.
\<close>

definition actor_spawn :: "libs \<Rightarrow> str option \<Rightarrow> u8 list option \<Rightarrow> (world, worker \<times> sensor_info, any_error) io" where
  "actor_spawn L port key w =
     (case r503_open port SYNC_TIMEOUT w of
        (Ok s, w1) \<Rightarrow>
          (case apply_auth L key s w1 of
             (Ok s', w2) \<Rightarrow>
               (case serve L port key False (Info_req 0) \<lparr>wk_sensor = Some s', wk_replies = [], wk_world = w2\<rparr> of
                  (Ok _, wk) \<Rightarrow>
                    (case wk_replies wk of
                       [(_, Ok (R_info info))] \<Rightarrow> (Ok (wk, info), wk_world wk)
                     | _ \<Rightarrow> (Err (Msg ''initial info failed''), wk_world wk))
                | (_, wk) \<Rightarrow> (Panic, wk_world wk))
           | (_, w2) \<Rightarrow> (Panic, w2))
      | (Err e, w1) \<Rightarrow> (Err (Msg ''sensor open failed''), w1)
      | (Panic, w1) \<Rightarrow> (Panic, w1))"

section \<open>Starting the daemon\<close>

text \<open>What is linked in or answers from outside: the bus says whether the connection, the name and the
  objects could be had, the second whether the signal could be subscribed to.\<close>

record boot =
  b_pair :: pair_env
  b_users :: "users json"
  b_vars :: "str \<Rightarrow> str option"
  b_connect :: "bool \<Rightarrow> (unit, any_error) result"
  b_subscribe :: "(unit, any_error) result"
  b_bus :: bus

record daemon =
  dm_worker :: worker
  dm_key :: "u8 list option"
  dm_info :: sensor_info
  dm_config :: device_config
  dm_device :: device

datatype main_result =
    Reported status_report
  | Finished
  | Unpair_ended unpair_outcome
  | Exit_code nat
  | Serving daemon

definition daemon_up :: "boot \<Rightarrow> args \<Rightarrow> str \<Rightarrow> u8 list option \<Rightarrow> main_result any_io" where
  "daemon_up B a storage_path host_key =
     bind_io (map_err_io (Context ''opening R503 sensor'') (actor_spawn (p_libs (b_pair B)) (a_port a) host_key)) (\<lambda>(wk, info).
     bind_io (map_err_io (\<lambda>_. Msg ''opening storage'') (storage_open (b_users B) storage_path (info_capacity info))) (\<lambda>st.
     bind_io (map_err_io (Context ''connecting to D-Bus and registering objects'') (result_io (b_connect B (a_session a)))) (\<lambda>_.
     bind_io (result_io (b_subscribe B)) (\<lambda>_.
     bind_io (get_io (device_new st)) (\<lambda>device.
     return_io (Serving
       \<lparr>dm_worker = wk, dm_key = host_key, dm_info = info,
        dm_config = \<lparr>cf_threshold = a_confidence a, cf_json = b_users B, cf_bus = b_bus B\<rparr>,
        dm_device = device\<rparr>))))))"

text \<open>A key that cannot be loaded ends the process with a code that keeps systemd from restarting it.\<close>

definition daemon_start :: "boot \<Rightarrow> args \<Rightarrow> main_result any_io" where
  "daemon_start B a =
     (let storage_path = (case a_storage a of Some p \<Rightarrow> p | None \<Rightarrow> default_storage_path (b_vars B) (a_session a))
      in match_io (load_key_with_source (p_keys (b_pair B)))
           (\<lambda>loaded. daemon_up B a storage_path (map_option fst loaded))
           (\<lambda>_. return_io (Exit_code 78)))"

section \<open>The commands\<close>

definition reseal_pcrs :: "str option \<Rightarrow> (u8 list option, any_error) result" where
  "reseal_pcrs arg =
     (case arg of
        None \<Rightarrow> Ok None
      | Some s \<Rightarrow>
          if to_ascii_lowercase (trim s) = ''none'' then Ok None
          else map_r Some (map_err (Context ''parsing --seal-tpm-pcrs'') (parse_pcr_list s)))"

definition main_run :: "boot \<Rightarrow> args \<Rightarrow> main_result any_io" where
  "main_run B a =
     (if a_status a then map_io Reported (run_status (a_port a))
      else if a_pair a then
        if a_seal_tpm_pcrs a \<noteq> None \<and> \<not> a_seal_tpm a
        then fail_io (Msg ''--seal-tpm-pcrs requires --seal-tpm (or use --reseal-tpm)'')
        else map_io (\<lambda>_. Finished) (run_pair (b_pair B) (a_port a) (a_seal_tpm a) (a_seal_tpm_pcrs a))
      else if a_unpair a then map_io Unpair_ended (run_unpair (b_pair B) (a_port a))
      else if a_resync a then map_io (\<lambda>_. Finished) (run_resync (b_pair B) (a_port a))
      else if a_reseal_tpm a then map_io (\<lambda>_. Finished) (run_reseal_tpm (b_pair B) (a_port a) (a_seal_tpm_pcrs a))
      else if a_reseal_policy a then
        bind_io (result_io (reseal_pcrs (a_seal_tpm_pcrs a))) (\<lambda>new_pcrs.
        map_io (\<lambda>_. Finished) (run_reseal_policy (b_pair B) new_pcrs))
      else daemon_start B a)"

section \<open>Departing clients\<close>

text \<open>The signal \<open>NameOwnerChanged\<close>.\<close>

record owner_change =
  oc_name :: str
  oc_old :: "str option"
  oc_new :: "str option"

text \<open>A unique name that had an owner and has none any more.\<close>

definition client_left :: "owner_change \<Rightarrow> bool" where
  "client_left c \<longleftrightarrow>
     starts_with (oc_name c) '':''
     \<and> (case oc_old c of Some s \<Rightarrow> s | None \<Rightarrow> []) \<noteq> [] \<and> (case oc_new c of Some s \<Rightarrow> s | None \<Rightarrow> []) = []"

text \<open>One signal; one that cannot be unpacked is skipped.\<close>

definition watch_step :: "owner_change option \<Rightarrow> device_state \<Rightarrow> device_state" where
  "watch_step signal s =
     (case signal of
        None \<Rightarrow> s
      | Some c \<Rightarrow> if client_left c then handle_client_disconnect (oc_name c) s else s)"

definition watch :: "owner_change option list \<Rightarrow> device_state \<Rightarrow> device_state" where
  "watch signals s = fold watch_step signals s"

end
