(* ===== verification/Sensor_Replies.thy ===== *)
theory Sensor_Replies
  imports Device_Tasks
begin

text \<open>
  What the worker sends back: each reply fits the channel its request came with, which the model of the
  device tasks takes for granted, and the key it was started with is the key of every driver it opens.
\<close>

section \<open>The kind of a reply\<close>

fun reply_fits :: "sensor_request \<Rightarrow> reply \<Rightarrow> bool" where
  "reply_fits (Info_req _) x \<longleftrightarrow> (\<exists>i. x = R_info i)"
| "reply_fits (Enroll_req _ _ _) x \<longleftrightarrow> (\<exists>k. x = R_slot k)"
| "reply_fits (Verify_req _ _) x \<longleftrightarrow> (\<exists>m. x = R_match m)"
| "reply_fits (Identify_req _ _) x \<longleftrightarrow> (\<exists>m. x = R_match m)"
| "reply_fits (Delete_req _ _) x \<longleftrightarrow> (\<exists>k. x = R_slot k)"
| "reply_fits (Clear_req _) x \<longleftrightarrow> x = R_unit"
| "reply_fits (Wake_req _) x \<longleftrightarrow> (\<exists>b. x = R_bool b)"
| "reply_fits (Ping_req _) x \<longleftrightarrow> (\<exists>b. x = R_bool b)"
| "reply_fits (LedOff_req _) x \<longleftrightarrow> x = R_unit"

definition fits :: "sensor_request \<Rightarrow> nat \<times> (reply, sensor_error) result \<Rightarrow> bool" where
  "fits req p \<longleftrightarrow> fst p = req_done req \<and> (\<forall>x. snd p = Ok x \<longrightarrow> reply_fits req x)"

lemma fits_answers: "fits req p \<Longrightarrow> answers req (snd p)"
  by (cases p; cases "snd p"; cases req) (auto simp: fits_def)

lemma map_io_Ok: "map_io f m s = (Ok x, s') \<Longrightarrow> \<exists>y. x = f y"
  by (auto simp: map_io_def bind_io_def return_io_def split: prod.splits result.splits)

lemma run_request_fits: "run_request L req sw = (Ok x, sw') \<Longrightarrow> reply_fits req x"
  by (cases req) (auto dest!: map_io_Ok)

lemma handle_request_fits:
  assumes "handle_request L req (s, w) = (Ok (outcome, Some r), s', w')"
  shows "fits req (req_done req, r)"
proof -
  let ?s = "install_progress (req_progress req) (set_progress Trace_log s)"
  obtain r1 s1 w1 where r: "run_request L req (?s, w) = (r1, s1, w1)"
    by (cases "run_request L req (?s, w)")
  have "r = r1"
    using assms r by (cases r1) (auto simp: handle_request_def Let_def split: if_splits)
  then show ?thesis using run_request_fits [of L req "(?s, w)"] r by (auto simp: fits_def)
qed

lemma respond_fits: "\<exists>r. wk_replies (respond_with_error req err wk) = wk_replies wk @ [(req_done req, Err r)]"
  by (simp add: respond_with_error_def Let_def)

lemma serve_step_fits:
  assumes "serve_step L port key retried req wk = (Ok None, wk')"
  shows "\<exists>p. wk_replies wk' = wk_replies wk @ [p] \<and> fits req p"
  using assms
proof (cases rule: serve_step_cases)
  case (no_device err wk1)
  then show ?thesis
    using respond_fits [of req err wk1] ensure_open_replies [OF no_device(1)] by (auto simp: fits_def)
next
  case (answered wk1 s r s' w' outcome)
  then show ?thesis using ensure_open_replies [OF answered(1)] handle_request_fits [OF answered(3)] by auto
next
  case (twice wk1 s s' w')
  then show ?thesis
    using respond_fits [of req _ "wk1\<lparr>wk_sensor := None, wk_world := w'\<rparr>"]
      ensure_open_replies [OF twice(1)] by (auto simp: fits_def)
qed simp

lemma serve_fits:
  assumes "serve L port key False req wk = (Ok u, wk')"
  shows "\<exists>p. wk_replies wk' = wk_replies wk @ [p] \<and> fits req p"
  using serve_rounds [OF assms]
proof (elim disjE exE conjE)
  fix r1 wk1
  assume first: "serve_step L port key False req wk = (Ok (Some r1), wk1)"
    and again: "serve_step L port key True r1 wk1 = (Ok None, wk')"
  have "r1 = req" "wk_replies wk1 = wk_replies wk" using serve_step_reply [OF first] by auto
  with serve_step_fits [OF again] show ?thesis by simp
qed (auto dest: serve_step_fits)

lemma serve_all_fits:
  "serve_all L port key reqs wk = (r, wk') \<Longrightarrow>
     \<exists>rs n. wk_replies wk' = wk_replies wk @ rs \<and> list_all2 fits (take n reqs) rs
       \<and> (is_ok r \<longrightarrow> n = length reqs)"
proof (induction reqs arbitrary: wk)
  case (Cons req reqs)
  obtain x wk1 where s: "serve L port key False req wk = (x, wk1)"
    by (cases "serve L port key False req wk")
  have stop: ?case if "wk' = wk1" "\<not> is_ok r" "\<And>y. x \<noteq> Ok y"
    using that serve_panic [OF s] by (intro exI [of _ "[]"] exI [of _ 0]) simp
  show ?case
  proof (cases x)
    case (Ok v)
    then have t: "serve_all L port key reqs wk1 = (r, wk')" using Cons.prems s by (simp add: bind_io_def)
    obtain p where "wk_replies wk1 = wk_replies wk @ [p]" "fits req p"
      using serve_fits s Ok by blast
    moreover obtain rs n where "wk_replies wk' = wk_replies wk1 @ rs"
      "list_all2 fits (take n reqs) rs" "is_ok r \<longrightarrow> n = length reqs"
      using Cons.IH [OF t] by blast
    ultimately show ?thesis
      by (intro exI [of _ "p # rs"] exI [of _ "Suc n"]) simp
  qed (use Cons.prems s stop in \<open>auto simp: bind_io_def\<close>)
qed (simp add: return_io_def)



section \<open>The key of the driver\<close>

definition keyed :: "u8 list option \<Rightarrow> worker \<Rightarrow> bool" where
  "keyed key wk \<longleftrightarrow> (\<forall>s. wk_sensor wk = Some s \<longrightarrow> auth_key s = key)"

interpretation unkeyed: driver_invariant L "\<lambda>(s, w). auth_key s = None" "\<lambda>_. True" for L
  by unfold_locales (simp_all add: fresh_r503_def stable_def)

lemma open_unkeyed:
  assumes "r503_open port t w = (Ok s, w')"
  shows "auth_key s = None"
  using tripleD [OF unkeyed.open_keeps TrueI assms] by simp

lemma apply_auth_key: "apply_auth L key s w = (Ok s', w') \<Longrightarrow> auth_key s = None \<Longrightarrow> auth_key s' = key"
  by (auto simp: apply_auth_def bind_io_def return_io_def set_auth_def Let_def split: option.splits prod.splits result.splits)

lemma reopen_loop_key: "reopen_loop L port key attempts e w = (Ok (Inl s), w') \<Longrightarrow> auth_key s = key"
proof (induction attempts arbitrary: e w)
  case (Cons a rest)
  obtain w1 where "match_io (r503_open port SYNC_TIMEOUT)
         (\<lambda>s. bind_io (apply_auth L key s) (\<lambda>s'. return_io (Inl s')))
         (\<lambda>e. reopen_loop L port key rest (Some e)) w1 = (Ok (Inl s), w')"
    using Cons.prems by (auto simp: bind_io_def split: prod.splits result.splits)
  then show ?case
    using Cons.IH
    by (auto simp: match_io_def bind_io_def return_io_def split: prod.splits result.splits
        dest!: open_unkeyed apply_auth_key)
qed (simp add: return_io_def)

lemma ensure_open_key: "keyed key wk \<Longrightarrow> ensure_open L port key wk = (r, wk') \<Longrightarrow> keyed key wk'"
  by (auto simp: ensure_open_def keyed_def split: if_splits prod.splits result.splits sum.splits
      dest!: reopen_loop_key)

lemma handle_request_key:
  assumes "handle_request L req (s, w) = (r, s', w')"
  shows "auth_key s' = auth_key s"
  using key_kept.handle_request_keeps [of "auth_key s", OF _ _ assms] by simp

lemma serve_step_key:
  assumes "keyed key wk" "serve_step L port key retried req wk = (r, wk')"
  shows "keyed key wk'"
proof -
  obtain r1 wk1 where o: "ensure_open L port key wk = (r1, wk1)" by (cases "ensure_open L port key wk")
  have k1: "keyed key wk1" by (rule ensure_open_key [OF assms(1) o])
  show ?thesis
    using assms(2) o k1
    by (auto simp: serve_step_def bind_io_def send_reply_def respond_with_error_def Let_def keyed_def
        split: result.splits option.splits prod.splits handle_outcome.splits if_splits dest: handle_request_key)
qed

lemma serve_key: "keyed key wk \<Longrightarrow> serve L port key False req wk = (r, wk') \<Longrightarrow> keyed key wk'"
  using serve_rounds [of L port key req wk r wk'] serve_step_key by metis

end
