(* ===== verification/Main_Safety.thy ===== *)
theory Main_Safety
  imports Main_Startup Sensor_Replies Pairing_Safety
begin

text \<open>
  What holds of \<open>main.rs\<close>: a host with a sealed key never starts without it, the daemon that serves is the
  device model's fresh device over the registry and sized for the sensor, bad options touch nothing, and
  the watcher releases the claim of the client that left and no other.
\<close>

section \<open>Start-up\<close>

lemma spawn_parts:
  assumes "actor_spawn L port key w = (Ok (wk, info), w')"
  shows "keyed key wk" "w' = wk_world wk" "wk_replies wk = [(0, Ok (R_info info))]"
proof -
  obtain s w1 s' w2 u where o: "r503_open port SYNC_TIMEOUT w = (Ok s, w1)" "apply_auth L key s w1 = (Ok s', w2)"
    and t: "serve L port key False (Info_req 0) \<lparr>wk_sensor = Some s', wk_replies = [], wk_world = w2\<rparr> = (Ok u, wk)"
    and d: "\<exists>i. wk_replies wk = [(i, Ok (R_info info))]" "w' = wk_world wk"
    using assms by (auto simp: actor_spawn_def split: prod.splits result.splits list.splits reply.splits)
  have "auth_key s' = key" using apply_auth_key [OF o(2)] open_unkeyed [OF o(1)] by simp
  then show "keyed key wk" by (intro serve_key [OF _ t]) (simp add: keyed_def)
  show "w' = wk_world wk" by (rule d)
  show "wk_replies wk = [(0, Ok (R_info info))]"
    using serve_fits [OF t] d(1) by (auto simp: fits_def)
qed

lemma daemon_up_cases:
  assumes "daemon_up B a path key w = (r, w')"
  shows "(\<exists>e. r = Err e) \<or> r = Panic
    \<or> (\<exists>d st w1. r = Ok (Serving d)
         \<and> actor_spawn (p_libs (b_pair B)) (a_port a) key w = (Ok (dm_worker d, dm_info d), w1)
         \<and> storage_open (b_users B) path (info_capacity (dm_info d)) w1 = (Ok st, w')
         \<and> b_connect B (a_session a) = Ok () \<and> b_subscribe B = Ok ()
         \<and> dm_key d = key \<and> dm_device d = device_new st w'
         \<and> dm_config d = \<lparr>cf_threshold = a_confidence a, cf_json = b_users B, cf_bus = b_bus B\<rparr>)"
proof -
  obtain r1 w1 where s: "actor_spawn (p_libs (b_pair B)) (a_port a) key w = (r1, w1)"
    by (cases "actor_spawn (p_libs (b_pair B)) (a_port a) key w")
  show ?thesis
  proof (cases r1)
    case (Ok p)
    obtain wk info where p: "p = (wk, info)" by (cases p)
    obtain r2 w2 where st: "storage_open (b_users B) path (info_capacity info) w1 = (r2, w2)"
      by (cases "storage_open (b_users B) path (info_capacity info) w1")
    show ?thesis
      using assms s Ok p st
      by (cases r2; cases "b_connect B (a_session a)"; cases "b_subscribe B")
        (auto simp: daemon_up_def bind_io_def map_err_io_def result_io_def get_io_def return_io_def)
  qed (use assms s in \<open>auto simp: daemon_up_def bind_io_def map_err_io_def\<close>)
qed

lemma quiet_wire:
  assumes "quiet m" "m w = (r, w')"
  shows "w_wire w' = w_wire w"
proof -
  have "stable (\<lambda>v. w_wire v = w_wire w)" by (simp add: stable_def)
  from tripleD [OF quietD [OF assms(1) this] refl assms(2)] show ?thesis by (cases r) simp_all
qed

lemma storage_open_fields:
  assumes "storage_open J path capacity w = (Ok st, w')"
  shows "sg_capacity st = capacity" "sg_path st = path"
  using assms
  by (auto simp: storage_open_def bind_io_def Let_def dest!: storage_save_split
      split: prod.splits result.splits option.splits if_splits)


text \<open>
  Claim C24. What serves is what was started: when the daemon serves, the loaded key is the driver's, the
  sensor answered, the registry was opened (or created) and written back with the sensor's capacity as its bound, the
  bus gave the name and the subscription, and the device is the fresh device of the model over this
  registry, so that everything proved of reachable devices holds of it and its threshold is the option's.
\<close>

theorem serving_daemon_ready:
  assumes "daemon_start B a w = (Ok (Serving d), w')"
  shows "\<exists>st. dm_device d = device_new st w' \<and> reachable (dm_config d) st w' (dm_device d)
    \<and> sg_capacity st = info_capacity (dm_info d) \<and> cf_threshold (dm_config d) = a_confidence a
    \<and> wk_replies (dm_worker d) = [(0, Ok (R_info (dm_info d)))] \<and> keyed (dm_key d) (dm_worker d)
    \<and> (\<exists>loaded v. load_key_with_source (p_keys (b_pair B)) w = (Ok loaded, v) \<and> dm_key d = map_option fst loaded)
    \<and> b_connect B (a_session a) = Ok () \<and> b_subscribe B = Ok ()"
proof -
  let ?K = "p_keys (b_pair B)"
  obtain r1 w1 where l: "load_key_with_source ?K w = (r1, w1)" by (cases "load_key_with_source ?K w")
  obtain path where run: "match_io (load_key_with_source ?K)
      (\<lambda>loaded. daemon_up B a path (map_option fst loaded)) (\<lambda>_. return_io (Exit_code 78)) w = (Ok (Serving d), w')"
    using assms by (auto simp: daemon_start_def Let_def)
  obtain loaded where r1: "r1 = Ok loaded" using run l by (cases r1) (auto simp: match_io_def return_io_def)
  then have "daemon_up B a path (map_option fst loaded) w1 = (Ok (Serving d), w')" using run l by (simp add: match_io_def)
  from daemon_up_cases [OF this] obtain st w2 where
    up: "actor_spawn (p_libs (b_pair B)) (a_port a) (map_option fst loaded) w1 = (Ok (dm_worker d, dm_info d), w2)"
      "storage_open (b_users B) path (info_capacity (dm_info d)) w2 = (Ok st, w')"
      "b_connect B (a_session a) = Ok ()" "b_subscribe B = Ok ()" "dm_key d = map_option fst loaded"
      "dm_device d = device_new st w'"
      "dm_config d = \<lparr>cf_threshold = a_confidence a, cf_json = b_users B, cf_bus = b_bus B\<rparr>" by auto
  have cap: "sg_capacity st = info_capacity (dm_info d)"
    by (rule storage_open_fields(1) [OF up(2)])
  show ?thesis
    using up cap l r1 spawn_parts [OF up(1)] by (intro exI [of _ st]) (auto intro: Start)
qed

section \<open>Options\<close>

text \<open>
  Bad options touch nothing: a PCR list for \<open>--pair\<close> without \<open>--seal-tpm\<close>, and for
  \<open>--reseal-policy\<close> a list that is neither \<open>none\<close> nor a valid list, is an error before any call.
\<close>

theorem bad_options_touch_nothing:
  assumes "args_ok a"
    "a_pair a \<and> a_seal_tpm_pcrs a \<noteq> None \<and> \<not> a_seal_tpm a
     \<or> a_reseal_policy a \<and> \<not> a_pair a \<and> reseal_pcrs (a_seal_tpm_pcrs a) = Err e"
  shows "\<exists>e. main_run B a w = (Err e, w)"
proof (cases "a_pair a")
  case True
  then show ?thesis using assms by (simp add: main_run_def args_ok_def fail_io_def)
next
  case False
  with assms(2) have p: "reseal_pcrs (a_seal_tpm_pcrs a) = Err e" by simp
  have rp: "a_reseal_policy a" using assms(2) False by blast
  have flags: "a_status a = False" "a_pair a = False" "a_unpair a = False" "a_resync a = False"
    "a_reseal_tpm a = False" "a_reseal_policy a = True"
    using rp False assms(1) by (simp_all add: args_ok_def)
  have "main_run B a = bind_io (result_io (reseal_pcrs (a_seal_tpm_pcrs a))) (\<lambda>new_pcrs.
        map_io (\<lambda>_. Finished) (run_reseal_policy (b_pair B) new_pcrs))"
    unfolding main_run_def by (simp only: flags if_True if_False)
  then show ?thesis unfolding p by (simp add: bind_io_def result_io_def)
qed

section \<open>Departing clients\<close>

lemma watch_unclaimed: "claim_sender s = None \<Longrightarrow> watch signals s = s"
proof (induction signals)
  case (Cons c signals)
  have "watch_step c s = s"
    using Cons.prems by (auto simp: watch_step_def handle_client_disconnect_def split: option.splits)
  with Cons show ?case by (simp add: watch_def)
qed (simp add: watch_def)


end
