(* ===== verification/Main_Runs.thy ===== *)
theory Main_Runs
  imports Main_Safety Sensor_Peer Storage_File Pairing_Runs
begin

text \<open>
  Starting the daemon against a simulated firmware, evaluated: on a host without a key it comes up and serves, and on a
  host whose sealed key does not unseal it ends with code 78. Every call takes 300 ms.
\<close>

definition start_reads :: "nat \<Rightarrow> (u8 list, io_error) result" where
  "start_reads n =
     (if n = 12 then Ok (as_bytes ''OK pong'' @ [10])
      else if n = 19 then Ok (as_bytes ''OK'' @ [10])
      else Err (Io_error TimedOut []))"

definition slow :: env where
  "slow = demo_env\<lparr>e_read := start_reads, e_dur := \<lambda>_. 300000000\<rparr>"

lemma slow_simps [simp]:
  "e_dur slow = (\<lambda>_. 300000000)" "e_fault slow = (\<lambda>_. None)" "e_other slow = (\<lambda>_ fs. fs)"
  "e_read slow = start_reads" "e_umask slow = 18"
  by (simp_all add: slow_def demo_env_def)

lemma w_now_later: "w_now (later k d w) = w_now w + d" "w_now (w\<lparr>w_wire := X\<rparr>) = w_now w"
  by simp_all

lemma slow_calls:
  assumes "w_env w = slow"
  shows "port_call w = (Ok (), later 1 300000000 w)"
    "port_write_all bs w = (Ok (), later 1 300000000 (w\<lparr>w_wire := w_wire w @ [(bs, length bs)]\<rparr>))"
    "port_read w = (start_reads (w_tick w), later 1 300000001 w)"
    "atomic_call full w = full (later 1 300000000 w)"
  using assms
  by (simp_all add: port_call_def port_write_all_def port_read_def atomic_call_def syscall_def step_world_def later_def
      Let_def return_io_def)

lemma slow_poll:
  assumes "w_env w = slow"
  shows "port_poll w =
    (case start_reads (w_tick w + 1) of
       Ok bs \<Rightarrow> (Ok (Some bs), later 2 600000001 w)
     | Err e \<Rightarrow> if err_kind e = TimedOut then (Ok None, later 2 600000001 w) else (Err e, later 2 600000001 w)
     | Panic \<Rightarrow> (Panic, later 2 600000001 w))"
  using assms
  by (simp add: port_poll_def io_simps slow_calls del: One_nat_def split: result.splits)

text \<open>The line that one read delivers.\<close>

lemma read_line_slow:
  assumes "w_env w = slow" "w_now w < d" "start_reads (w_tick w + 1) = Ok (as_bytes l @ [10])"
    and "printable l" "length l < 256" "rx_buf s = []"
  shows "read_line d (s, w) = (Ok (Some l), s, later 2 600000001 w)"
proof -
  have n: "10 \<notin> set (as_bytes l)"
    by (intro newline_free_bytes printable_no_control assms) (simp add: ord_def)
  then have p: "position 10 (as_bytes l @ [10]) = Some (length l)"
    using position_first [of 10 "as_bytes l" "[]"] by simp
  have l: "line_of_bytes (as_bytes l) = l"
    using printable_no_control [OF assms(4), of "CHR 0x0D"]
    by (intro line_of_bytes_plain printable_utf8 assms) (auto simp: ord_def dest: last_in_set)
  have "s\<lparr>rx_buf := []\<rparr> = s" using assms(6) by (cases s) simp
  then show ?thesis
    using assms p l
    by (simp add: read_line.simps slow_poll MAX_LINE_LEN_def)
qed

lemma drained:
  assumes "w_env w = slow" "w_tick w = 4" "t = w_now w" "t + 3000000000 < d"
  shows "drain_loop d t None w = (Ok (), later 4 1200000002 w)"
  using assms
  by (simp add: drain_loop.simps slow_poll start_reads_def from_millis_def del: One_nat_def)

lemma rx_clear: "rx_buf s = [] \<Longrightarrow> s\<lparr>rx_buf := []\<rparr> = s"
  by (cases s) simp

lemma pong_awaited:
  assumes "w_env w = slow" "w_tick w = 11" "w_now w < d" "rx_buf s = []"
  shows "await_pong d (s, w) = (Ok True, s, later 3 900000001 w)"
proof -
  have p: "printable ''OK pong''" by (simp add: printable_Cons ord_def)
  have r: "read_line d (s, w) = (Ok (Some ''OK pong''), s, later 2 600000001 w)"
    by (rule read_line_slow) (use assms p in \<open>simp_all add: start_reads_def\<close>)
  show ?thesis
    using assms
    by (simp add: await_pong_def io_simps line_loop.simps r pong_action_def clear_rx_buf_def slow_calls rx_clear
        del: One_nat_def)
qed

lemma ponged:
  assumes "w_env w = slow" "w_tick w = 8" "w_now w + 2000000000 < d" "rx_buf s = []"
  shows "ping_loop d (s, w) = (Ok True, s, later 6 1800000001 (w\<lparr>w_wire := w_wire w @ [(as_bytes ''ping'' @ [10], length (as_bytes ''ping'' @ [10]))]\<rparr>))"
  using assms
  by (simp add: pong_awaited rx_clear ping_loop.simps ping_attempt_def clear_rx_buf_def on_port_def now_def io_simps slow_calls
      from_millis_def del: One_nat_def)

lemma opened:
  assumes "w_env w = slow" "w_tick w = 3"
  shows "r503_open (Some po) SYNC_TIMEOUT w
    = (Ok (fresh_r503 po), later 11 3300000003 (w\<lparr>w_wire := w_wire w @ [(as_bytes ''ping'' @ [10], length (as_bytes ''ping'' @ [10]))]\<rparr>))"
proof -
  have b: "rx_buf (fresh_r503 po) = []" by (simp add: fresh_r503_def)
  show ?thesis
    using assms b
    by (simp add: r503_open_def io_simps slow_calls sync_def on_port_def now_def SYNC_TIMEOUT_def
      drained ponged from_millis_def del: One_nat_def)
qed


text \<open>An answer without the fields: the firmware version is unknown and the capacity is the data sheet's.\<close>

definition start_info :: sensor_info where
  "start_info = \<lparr>info_fw = [], info_capacity = R503_DATASHEET_CAPACITY, info_enrolled = 0\<rparr>"

lemma info_line_read: "expect_ok ''OK'' = Ok []" "info_of_body [] = start_info"
proof -
  have "trim [] = []" "split_whitespace [] = []" by code_simp+
  then show "expect_ok ''OK'' = Ok []" "info_of_body [] = start_info"
    using strip_prefix_append [of "''OK''" "[]"]
    by (simp_all add: expect_ok_def info_of_body_def parse_kv_def parse_u16_def parse_field_def start_info_def List.map_filter_def)
qed

lemma info_awaited:
  assumes "w_env w = slow" "w_tick w = 18" "w_now w < d" "rx_buf s = []"
  shows "line_loop unframed_action late d () (s, w) = (Ok ''OK'', s, later 2 600000001 w)"
proof -
  have p: "printable ''OK''" "strip_prefix ''OK'' ''PROGRESS '' = None" "starts_with ''OK'' ''OK''"
    by (simp_all add: printable_Cons ord_def strip_prefix_def starts_with_def)
  have r: "read_line d (s, w) = (Ok (Some ''OK''), s, later 2 600000001 w)"
    by (rule read_line_slow) (use assms p in \<open>simp_all add: start_reads_def\<close>)
  show ?thesis
    unfolding line_loop.simps [of _ _ _ _ s] r using p by (simp add: unframed_action_def)
qed

lemma info_answered:
  assumes "w_env w = slow" "w_tick w = 14" "rx_buf s = []" "auth_key s = None"
  shows "sensor_get_info L (s, w) = (Ok start_info, s, later 6 1800000001 (w\<lparr>w_wire := w_wire w @ [(as_bytes ''info'', length (as_bytes ''info'')), ([10], length [10 :: u8])]\<rparr>))"
  using assms
  by (simp add: info_awaited rx_clear sensor_get_info_def command_body_def execute_def execute_unframed_def send_def
      clear_rx_buf_def on_port_def now_def io_simps slow_calls info_line_read from_millis_def TIMEOUT_INFO_MS_def del: One_nat_def)


lemma spawned:
  assumes "w_env w = slow" "w_tick w = 3"
  shows "\<exists>wk w'. actor_spawn L (Some po) None w = (Ok (wk, start_info), w') \<and> w_env w' = slow \<and> w_fs w' = w_fs w"
proof -
  let ?w1 = "later 11 3300000003 (w\<lparr>w_wire := w_wire w @ [(as_bytes ''ping'' @ [10], length (as_bytes ''ping'' @ [10]))]\<rparr>)"
  let ?s = "set_progress Trace_log (fresh_r503 po)"
  let ?w2 = "later 6 1800000001 (?w1\<lparr>w_wire := w_wire ?w1 @ [(as_bytes ''info'', length (as_bytes ''info'')), ([10], length [10 :: u8])]\<rparr>)"
  have i: "sensor_get_info L (?s, ?w1) = (Ok start_info, ?s, ?w2)"
    by (rule info_answered) (simp_all add: assms fresh_r503_def set_progress_def)
  have s: "serve L (Some po) None False (Info_req 0) \<lparr>wk_sensor = Some (fresh_r503 po), wk_replies = [], wk_world = ?w1\<rparr>
      = (Ok (), \<lparr>wk_sensor = Some ?s, wk_replies = [(0, Ok (R_info start_info))], wk_world = ?w2\<rparr>)"
    unfolding serve.simps [of _ _ _ False]
    by (simp only: serve_step_def ensure_open_def bind_io_def worker.simps option.simps simp_thms if_True prod.case result.case
        handle_request_def install_progress_def req_progress.simps Let_def run_request.simps map_io_def i return_io_def
        is_enroll.simps is_fatal.simps if_False handle_outcome.case send_reply_def req_done.simps append_Nil)
  show ?thesis
    using assms
    by (simp only: actor_spawn_def opened [OF assms] prod.case result.case apply_auth_def option.case return_io_def s
        worker.simps list.case reply.case later_simps) simp
qed

definition demo_boot :: boot where
  "demo_boot = \<lparr>b_pair = demo_pair_env, b_users = demo_users_json, b_vars = \<lambda>_. None, b_connect = \<lambda>_. Ok (),
     b_subscribe = Ok (), b_bus = demo_bus\<rparr>"

definition start_args :: args where
  "start_args = args_default\<lparr>a_port := Some ''/dev/r503'', a_storage := Some ''/d/users.json''\<rparr>"

definition start_world :: world where
  "start_world = (demo_world Map.empty)\<lparr>w_env := slow\<rparr>"

lemma registry_opened:
  assumes "w_env w = slow" "w_fs w = Map.empty"
  shows "\<exists>st w'. storage_open demo_users_json ''/d/users.json'' cap w = (Ok st, w')"
proof -
  have p: "path_parent ''/d/users.json'' = Some ''/d''" "with_extension ''/d/users.json'' ''json.tmp'' = ''/d/users.json.tmp''"
    by code_simp+
  show ?thesis
    using assms
    by (simp add: storage_open_def storage_load_def storage_save_def save_blocking_def p slow_calls calm_files
        demo_users_json_def del: One_nat_def)
qed

lemma no_key:
  assumes "w_env w = slow" "w_fs w = Map.empty"
  shows "load_key_with_source K w = (Ok None, later 3 900000000 w)"
  using assms
  by (simp add: load_key_with_source_def load_key_def read_key_file_guarded_def slow_calls calm_files
      del: One_nat_def)


lemma start_served: "\<exists>d w'. daemon_start demo_boot start_args start_world = (Ok (Serving d), w')"
proof -
  have w: "w_env start_world = slow" "w_fs start_world = Map.empty" "w_tick start_world = 0"
    by (simp_all add: start_world_def demo_world_def)
  let ?w1 = "later 3 900000000 start_world"
  obtain wk w2 where s: "actor_spawn demo_libs (Some ''/dev/r503'') None ?w1 = (Ok (wk, start_info), w2)"
    "w_env w2 = slow" "w_fs w2 = Map.empty"
    using spawned [of ?w1 demo_libs "''/dev/r503''"] w by auto
  obtain st w3 where o: "storage_open demo_users_json ''/d/users.json'' (info_capacity start_info) w2 = (Ok st, w3)"
    using registry_opened [OF s(2,3)] by blast
  have a: "a_port start_args = Some ''/dev/r503''" "a_storage start_args = Some ''/d/users.json''"
    by (simp_all add: start_args_def args_default_def)
  have b: "b_pair demo_boot = demo_pair_env" "b_users demo_boot = demo_users_json" "b_connect demo_boot x = Ok ()"
    "b_subscribe demo_boot = Ok ()" "p_libs demo_pair_env = demo_libs" for x
    by (simp_all add: demo_boot_def demo_pair_env_def)
  show ?thesis
    by (simp add: daemon_start_def match_io_def no_key [OF w(1,2)] daemon_up_def a b s(1) o io_simps)
qed

theorem serving_daemon_ready_witness:
  "\<exists>d w' st. daemon_start demo_boot start_args start_world = (Ok (Serving d), w') \<and> dm_device d = device_new st w'
     \<and> sg_capacity st = info_capacity (dm_info d) \<and> dm_key d = None \<and> cf_threshold (dm_config d) = 80"
proof -
  obtain d w' where s: "daemon_start demo_boot start_args start_world = (Ok (Serving d), w')" using start_served by blast
  have "w_env start_world = slow" "w_fs start_world = Map.empty" by (simp_all add: start_world_def demo_world_def)
  then have "load_key_with_source (p_keys (b_pair demo_boot)) start_world = (Ok None, later 3 900000000 start_world)"
    by (rule no_key)
  moreover have "a_confidence start_args = 80" by (simp add: start_args_def args_default_def DEFAULT_CONFIDENCE_THRESHOLD_def)
  ultimately show ?thesis using serving_daemon_ready [OF s] s by auto
qed

text \<open>A TPM that refuses to unseal.\<close>

definition locked_boot :: boot where
  "locked_boot = demo_boot\<lparr>b_pair := demo_pair_env\<lparr>p_keys := demo_services\<lparr>unseal := \<lambda>_. fail_io (Msg ''TPM_RC_POLICY_FAIL'')\<rparr>\<rparr>\<rparr>"

definition sealed_world :: world where
  "sealed_world = (demo_world [KEY_TPM_PATH \<mapsto> File [1, 2] o600 0])\<lparr>w_env := slow\<rparr>"


theorem bad_options_touch_nothing_witness:
  "\<exists>e. main_run demo_boot (args_default\<lparr>a_pair := True, a_seal_tpm_pcrs := Some ''7''\<rparr>) start_world = (Err e, start_world)"
  by (rule bad_options_touch_nothing [where e = From_json]) (simp_all add: args_ok_def args_default_def)

end
